(* ===== verification/Prelude.thy ===== *)
theory Prelude
  imports Complex_Main "HOL-Library.Word" "HOL-Library.Char_ord" "HOL-Library.List_Lexorder"
begin

text \<open>
  What every component of the worker shares: the C++ types the code uses
  (\<^verbatim>\<open>std::string\<close> as a list of bytes, fixed-width integers as words), the operations of
  the standard library it calls (\<^verbatim>\<open>find_first_of\<close>, \<^verbatim>\<open>substr\<close>, \<^verbatim>\<open>c_str\<close>,
  \<^verbatim>\<open>isdigit\<close>, decimal output, \<^verbatim>\<open>std::map\<close>), the outcome of a call
  that can throw or misuse a pointer, and the contracts (locales) that several components
  rely on: an ordered map, a codec, and a type with a copy-and-swap assignment.
\<close>

unbundle bit_operations_syntax

type_synonym byte = "8 word"
type_synonym u32 = "32 word"
type_synonym u64 = "64 word"
type_synonym size_t = "64 word"

named_theorems str_simps \<open>facts on the string operations of the standard library\<close>
named_theorems outcome_simps \<open>how outcomes are sequenced\<close>

section \<open>Characters\<close>

text \<open>The classification functions of \<^verbatim>\<open>cctype\<close> in the C locale, on bytes.\<close>

definition is_digit :: "char \<Rightarrow> bool" where
  "is_digit c \<longleftrightarrow> CHR ''0'' \<le> c \<and> c \<le> CHR ''9''"

definition is_upper :: "char \<Rightarrow> bool" where
  "is_upper c \<longleftrightarrow> CHR ''A'' \<le> c \<and> c \<le> CHR ''Z''"

definition is_lower :: "char \<Rightarrow> bool" where
  "is_lower c \<longleftrightarrow> CHR ''a'' \<le> c \<and> c \<le> CHR ''z''"

definition is_alnum :: "char \<Rightarrow> bool" where
  "is_alnum c \<longleftrightarrow> is_digit c \<or> is_upper c \<or> is_lower c"

definition to_lower_char :: "char \<Rightarrow> char" where
  "to_lower_char c = (if is_upper c then char_of (of_char c + (32 :: nat)) else c)"

definition byte_of :: "char \<Rightarrow> byte" where
  "byte_of c = word_of_nat (of_char c)"

definition char_of_byte :: "byte \<Rightarrow> char" where
  "char_of_byte b = char_of (unat b)"

lemma unat_byte_of: "unat (byte_of c) = of_char c"
  by (simp add: byte_of_def unat_of_nat take_bit_eq_mod)

lemma char_of_byte_of [simp]: "char_of_byte (byte_of c) = c"
  by (simp add: char_of_byte_def unat_byte_of)

lemma byte_of_char_of [simp]: "byte_of (char_of_byte b) = b"
proof -
  have "unat b < 256" using unsigned_less [of b, where ?'a = nat] by simp
  then show ?thesis by (simp add: byte_of_def char_of_byte_def)
qed

lemma byte_of_inject [simp]: "byte_of c = byte_of d \<longleftrightarrow> c = d"
  by (metis char_of_byte_of)

lemma map_char_byte [simp]: "map (char_of_byte \<circ> byte_of) s = s"
  by (induction s) auto

section \<open>Strings\<close>

text \<open>\<^verbatim>\<open>c_str()\<close> read as a C string: the bytes before the first NUL.\<close>

definition c_str :: "string \<Rightarrow> string" where
  "c_str s = takeWhile (\<lambda>c. c \<noteq> CHR 0x00) s"

lemma c_str_no_nul [simp]: "CHR 0x00 \<notin> set (c_str s)"
  by (auto simp: c_str_def dest: set_takeWhileD)

lemma c_str_ident [str_simps]: "CHR 0x00 \<notin> set s \<Longrightarrow> c_str s = s"
  by (simp add: c_str_def) (metis takeWhile_eq_all_conv)

text \<open>The index of the first occurrence of a byte, and the search from a position on.\<close>

primrec find_char :: "char \<Rightarrow> string \<Rightarrow> nat option" where
  "find_char c [] = None"
| "find_char c (x # xs) = (if x = c then Some 0 else map_option Suc (find_char c xs))"

definition find_first_of :: "char \<Rightarrow> nat \<Rightarrow> string \<Rightarrow> nat option" where
  "find_first_of c p s =
     (if p \<le> length s then map_option (\<lambda>i. p + i) (find_char c (drop p s)) else None)"

definition substr :: "string \<Rightarrow> nat \<Rightarrow> nat \<Rightarrow> string" where
  "substr s p n = take n (drop p s)"

lemma find_char_None [str_simps]: "find_char c s = None \<longleftrightarrow> c \<notin> set s"
  by (induction s) auto

lemma find_char_Some:
  "find_char c s = Some i \<Longrightarrow>
     i < length s \<and> s ! i = c \<and> c \<notin> set (take i s) \<and> take i s = takeWhile (\<lambda>x. x \<noteq> c) s"
  by (induction s arbitrary: i) (auto split: if_splits)

lemma find_char_not_in [str_simps]: "c \<notin> set s \<Longrightarrow> find_char c s = None"
  by (simp add: find_char_None)

lemma find_char_bound: "find_char c s = Some i \<Longrightarrow> i < length s"
  by (simp add: find_char_Some)

lemma find_char_append [str_simps]:
  "c \<notin> set xs \<Longrightarrow> find_char c (xs @ c # ys) = Some (length xs)"
  by (induction xs) auto

lemma find_first_of_bound: "find_first_of c p s = Some i \<Longrightarrow> p \<le> i \<and> i < length s"
  by (auto simp: find_first_of_def split: if_splits dest: find_char_Some)

text \<open>\<^verbatim>\<open>s.find(pat) != npos\<close>.\<close>

fun str_contains :: "string \<Rightarrow> string \<Rightarrow> bool" where
  "str_contains pat [] = (pat = [])"
| "str_contains pat (x # xs) = (take (length pat) (x # xs) = pat \<or> str_contains pat xs)"

text \<open>Decimal output of an integer, as a stream or \<^verbatim>\<open>%d\<close> prints it.\<close>

definition digit_char :: "nat \<Rightarrow> char" where
  "digit_char d = char_of (48 + d)"

fun dec_nat :: "nat \<Rightarrow> string" where
  "dec_nat n = (if n < 10 then [digit_char n] else dec_nat (n div 10) @ [digit_char (n mod 10)])"

declare dec_nat.simps [simp del]

definition dec_int :: "int \<Rightarrow> string" where
  "dec_int i = (if i < 0 then CHR ''-'' # dec_nat (nat (- i)) else dec_nat (nat i))"

lemma is_digit_digit_char [simp]: "d < 10 \<Longrightarrow> is_digit (digit_char d)"
proof -
  assume "d < 10"
  then have "d \<in> set [0..<10]" by simp
  moreover have "\<forall>d \<in> set [0..<10]. is_digit (digit_char d)"
    by (simp add: is_digit_def digit_char_def upt_rec less_eq_char_def)
  ultimately show ?thesis by blast
qed

lemma dec_nat_not_empty [simp]: "dec_nat n \<noteq> []"
  by (subst dec_nat.simps) simp

lemma dec_nat_digits: "\<forall>c \<in> set (dec_nat n). is_digit c"
proof (induction n rule: dec_nat.induct)
  case (1 n)
  then show ?case by (subst dec_nat.simps) auto
qed

text \<open>
  \<^verbatim>\<open>atoi\<close>: blanks, a sign, digits up to the first other byte. C leaves values outside
  an int undefined; where the code keeps the result in an int the model wraps it.
\<close>

definition is_space :: "char \<Rightarrow> bool" where
  "is_space c \<longleftrightarrow> c = CHR 0x20 \<or> CHR 0x09 \<le> c \<and> c \<le> CHR 0x0D"

definition atoi_digits :: "string \<Rightarrow> nat" where
  "atoi_digits s = foldl (\<lambda>n c. 10 * n + (of_char c - 48)) 0 (takeWhile is_digit s)"

definition atoi_signed :: "string \<Rightarrow> int" where
  "atoi_signed s =
    (case s of
       [] \<Rightarrow> 0
     | c # r \<Rightarrow> if c = CHR ''-'' then - int (atoi_digits r)
               else if c = CHR ''+'' then int (atoi_digits r) else int (atoi_digits s))"

definition atoi :: "string \<Rightarrow> int" where
  "atoi s = atoi_signed (dropWhile is_space s)"

text \<open>The number a run of digits spells, behind the value read before it.\<close>

definition digits_value :: "nat \<Rightarrow> string \<Rightarrow> nat" where
  "digits_value = foldl (\<lambda>n c. 10 * n + (of_char c - 48))"

lemma digits_value_simps [simp]:
  "digits_value v [] = v"
  "digits_value v (c # s) = digits_value (10 * v + (of_char c - 48)) s"
  by (simp_all add: digits_value_def)

lemma is_digit_not_space [simp]: "is_digit c \<Longrightarrow> \<not> is_space c"
  by (auto simp: is_digit_def is_space_def less_eq_char_def)

lemma is_digit_not_nul: "is_digit c \<Longrightarrow> c \<noteq> CHR 0x00"
  by (auto simp: is_digit_def less_eq_char_def)

lemma is_digit_not_sign: "is_digit c \<Longrightarrow> c \<noteq> CHR ''-'' \<and> c \<noteq> CHR ''+''"
  by (auto simp: is_digit_def less_eq_char_def)

lemma atoi_number [str_simps]: "is_digit c \<Longrightarrow> atoi (c # s) = int (atoi_digits (c # s))"
  using is_digit_not_sign [of c] by (simp add: atoi_def atoi_signed_def)

lemma takeWhile_digits_app:
  "\<forall>c \<in> set ds. is_digit c \<Longrightarrow> \<not> is_digit x \<Longrightarrow> takeWhile is_digit (ds @ x # s) = ds"
  by (induction ds) auto

lemma takeWhile_digits: "\<forall>c \<in> set ds. is_digit c \<Longrightarrow> takeWhile is_digit ds = ds"
  by (induction ds) auto

lemma atoi_digits_app:
  "\<forall>c \<in> set ds. is_digit c \<Longrightarrow> \<not> is_digit x \<Longrightarrow> atoi_digits (ds @ x # s) = atoi_digits ds"
  by (simp add: atoi_digits_def takeWhile_digits_app takeWhile_digits)

text \<open>Widening an integer of 32 bits to 64 keeps its value.\<close>

lemma sint_widen [simp]: "sint (scast (w :: u32) :: u64) = sint w"
  by (rule sint_up_scast) (simp add: is_up)

lemma unat_widen [simp]: "unat (ucast (w :: u32) :: u64) = unat w"
  by (simp add: unsigned_ucast_eq take_bit_eq_mod order.strict_trans [OF unsigned_less])

section \<open>Outcomes of a call\<close>

text \<open>
  A call returns a value, throws a \<^verbatim>\<open>std::exception\<close> (kept as its \<^verbatim>\<open>what()\<close>
  text), or misuses memory: such a step has no defined continuation and is a value of its own.
\<close>

type_synonym exn = string

datatype fault = NullDeref | UseAfterFree | UninitPointer | OutOfBounds | Uninitialised | ArgumentType | DivisionByZero | OutOfRange

datatype 'a outcome = Ok 'a | Throw exn | Fault fault

primrec obind :: "'a outcome \<Rightarrow> ('a \<Rightarrow> 'b outcome) \<Rightarrow> 'b outcome" where
  "obind (Ok a) f = f a"
| "obind (Throw e) f = Throw e"
| "obind (Fault x) f = Fault x"

lemma obind_eq_Ok [outcome_simps]: "obind m f = Ok b \<longleftrightarrow> (\<exists>a. m = Ok a \<and> f a = Ok b)"
  by (cases m) auto

lemma obind_eq_Fault [outcome_simps]:
  "obind m f = Fault x \<longleftrightarrow> m = Fault x \<or> (\<exists>a. m = Ok a \<and> f a = Fault x)"
  by (cases m) auto

lemma obind_assoc [outcome_simps]: "obind (obind m f) g = obind m (\<lambda>a. obind (f a) g)"
  by (cases m) auto

section \<open>Contracts shared by several components\<close>

text \<open>An encoder with a decoder that undoes it on the values the code passes to it.\<close>

locale codec =
  fixes enc :: "'a \<Rightarrow> 'b" and dec :: "'b \<Rightarrow> 'a" and ok :: "'a \<Rightarrow> bool"
  assumes dec_enc: "ok x \<Longrightarrow> dec (enc x) = x"
begin

lemma enc_inj: "ok x \<Longrightarrow> ok y \<Longrightarrow> enc x = enc y \<Longrightarrow> x = y"
  by (metis dec_enc)

lemma enc_inj_on: "inj_on enc {x. ok x}"
  by (rule inj_onI) (auto intro: enc_inj)

end

text \<open>
  A class whose assignment operator copies its argument and swaps the copy in, as the classes of
  \<^verbatim>\<open>Cookie.cpp\<close> do. \<open>swap a b\<close> is the pair of the two objects after the swap.
\<close>

locale copy_swap =
  fixes copy :: "'a \<Rightarrow> 'a" and swap :: "'a \<Rightarrow> 'a \<Rightarrow> 'a \<times> 'a"
  assumes copy_same: "copy x = x"
    and swap_exchanges: "swap x y = (y, x)"
begin

lemma assign_value: "fst (swap x (copy y)) = y"
  by (simp add: copy_same swap_exchanges)

lemma assign_self: "fst (swap x (copy x)) = x"
  by (rule assign_value)

lemma swap_twice: "(case swap x y of (x', y') \<Rightarrow> swap x' y') = (x, y)"
  by (simp add: swap_exchanges)

end

text \<open>
  An invariant of a step relation, and a measure that falls while some goal is not reached: then what
  is kept is kept over runs, and the goal can be reached from every state.
\<close>

locale step_invariant =
  fixes step :: "'s \<Rightarrow> 's \<Rightarrow> bool" and inv :: "'s \<Rightarrow> bool"
  assumes step_keeps: "step s s' \<Longrightarrow> inv s \<Longrightarrow> inv s'"
begin

lemma run_keeps: "step\<^sup>*\<^sup>* s s' \<Longrightarrow> inv s \<Longrightarrow> inv s'"
  by (induction rule: rtranclp_induct) (auto intro: step_keeps)

end

locale step_progress = step_invariant +
  fixes alive goal :: "'s \<Rightarrow> bool" and kept :: "'s \<Rightarrow> 'k" and left :: "'s \<Rightarrow> nat"
  assumes step_nearer:
    "inv s \<Longrightarrow> alive s \<Longrightarrow> \<not> goal s \<Longrightarrow>
       \<exists>s'. step s s' \<and> alive s' \<and> kept s' = kept s \<and> left s' < left s"
begin

lemma goal_reachable: "inv s \<Longrightarrow> alive s \<Longrightarrow> \<exists>s'. step\<^sup>*\<^sup>* s s' \<and> goal s' \<and> kept s' = kept s"
proof (induction "left s" arbitrary: s rule: less_induct)
  case less
  show ?case
  proof (cases "goal s")
    case False
    then obtain s1 where "step s s1" "alive s1" "kept s1 = kept s" "left s1 < left s"
      using step_nearer less.prems by blast
    then show ?thesis using less.hyps [of s1] step_keeps less.prems(1)
      by (metis converse_rtranclp_into_rtranclp)
  qed blast
qed

end

end
