(* ===== verification/StdMap.thy ===== *)
theory StdMap
  imports Prelude
begin

text \<open>
  \<^verbatim>\<open>std::map\<close>, the container behind the URL parameters and the JSON objects: a list
  of entries in strictly ascending key order, with the two operations the worker uses, the
  assignment \<^verbatim>\<open>m[k] = v\<close> and the search \<^verbatim>\<open>m.find(k)\<close>. The contract that the clients
  rely on is the locale \<open>keyed_store\<close>; its lemmas say what a sequence of assignments leaves.
\<close>

section \<open>The contract of a keyed store\<close>

locale keyed_store =
  fixes new :: "'m"
    and assign :: "'m \<Rightarrow> 'k \<Rightarrow> 'v \<Rightarrow> 'm"
    and search :: "'m \<Rightarrow> 'k \<Rightarrow> 'v option"
    and good :: "'m \<Rightarrow> bool"
  assumes good_new: "good new"
    and good_assign: "good m \<Longrightarrow> good (assign m k v)"
    and search_new: "search new k = None"
    and search_assign: "good m \<Longrightarrow> search (assign m k v) k' = (if k' = k then Some v else search m k')"
begin

lemma good_assigns: "good m \<Longrightarrow> good (fold (\<lambda>(k, v) m. assign m k v) kvs m)"
  by (induction kvs arbitrary: m) (auto simp: good_assign)

lemma search_assigns:
  "good m \<Longrightarrow> search (fold (\<lambda>(k, v) m. assign m k v) kvs m) k =
     (case map_of (rev kvs) k of Some v \<Rightarrow> Some v | None \<Rightarrow> search m k)"
proof (induction kvs arbitrary: m)
  case Nil
  then show ?case by simp
next
  case (Cons kv kvs)
  obtain k' v' where kv: "kv = (k', v')" by (cases kv)
  from Cons.prems have "good (assign m k' v')" by (rule good_assign)
  from Cons.IH [OF this] show ?case
    by (auto simp: kv search_assign [OF Cons.prems] map_add_def split: option.splits)
qed

lemma last_assignment_wins:
  assumes "k \<notin> fst ` set later"
  shows "search (fold (\<lambda>(k, v) m. assign m k v) (before @ (k, v) # later) new) k = Some v"
proof -
  from assms have "map_of (rev later) k = None" by (simp add: map_of_eq_None_iff)
  then show ?thesis
    by (subst search_assigns [OF good_new]) (simp add: map_add_def)
qed

lemma never_assigned:
  assumes "k \<notin> fst ` set kvs"
  shows "search (fold (\<lambda>(k, v) m. assign m k v) kvs new) k = None"
proof -
  from assms have "map_of (rev kvs) k = None" by (simp add: map_of_eq_None_iff)
  then show ?thesis by (simp add: search_assigns [OF good_new] search_new)
qed

end

section \<open>The sorted entries of a map\<close>

fun map_put :: "('k::linorder \<times> 'v) list \<Rightarrow> 'k \<Rightarrow> 'v \<Rightarrow> ('k \<times> 'v) list" where
  "map_put [] k v = [(k, v)]"
| "map_put ((k', v') # m) k v =
     (if k < k' then (k, v) # (k', v') # m
      else if k = k' then (k, v) # m
      else (k', v') # map_put m k v)"

fun map_find :: "('k::linorder \<times> 'v) list \<Rightarrow> 'k \<Rightarrow> 'v option" where
  "map_find [] k = None"
| "map_find ((k', v') # m) k = (if k = k' then Some v' else map_find m k)"

definition map_sorted :: "('k::linorder \<times> 'v) list \<Rightarrow> bool" where
  "map_sorted m \<longleftrightarrow> sorted_wrt (<) (map fst m)"

lemma keys_map_put: "fst ` set (map_put m k v) = insert k (fst ` set m)"
  by (induction m k v rule: map_put.induct) auto

lemma map_sorted_put: "map_sorted m \<Longrightarrow> map_sorted (map_put m k v)"
proof (induction m k v rule: map_put.induct)
  case (1 k v)
  then show ?case by (simp add: map_sorted_def)
next
  case (2 k' v' m k v)
  have keys: "set (map fst (map_put m k v)) = insert k (set (map fst m))"
    using keys_map_put [of m k v] by simp
  from 2 keys show ?case
    by (auto simp: map_sorted_def ball_Un intro: less_trans)
qed

lemma map_find_put: "map_find (map_put m k v) k' = (if k' = k then Some v else map_find m k')"
  by (induction m k v rule: map_put.induct) auto

lemma map_find_map_of: "map_find m k = map_of m k"
  by (induction m) auto

lemma map_sorted_distinct: "map_sorted m \<Longrightarrow> distinct (map fst m)"
  by (simp add: map_sorted_def strict_sorted_iff)

lemma map_sorted_Nil: "map_sorted []"
  by (simp add: map_sorted_def)

interpretation std_map: keyed_store
  "[] :: ('k::linorder \<times> 'v) list" map_put map_find map_sorted
  by unfold_locales (simp_all add: map_sorted_Nil map_sorted_put map_find_put)

end
