(* ===== verification/Base64.thy ===== *)
theory Base64
  imports Prelude
begin

text \<open>
  \<^verbatim>\<open>src/base64.cpp\<close>: the URL-safe base64 codec. The loops keep the code's variables: the
  fill index \<open>i\<close>, the arrays \<^verbatim>\<open>char_array_3\<close> and \<^verbatim>\<open>char_array_4\<close>
  (whose initial contents are indeterminate in the code, so they are arguments here) and the
  growing result. Bytes are 8-bit words: every sum and shift of the code is truncated to
  \<^verbatim>\<open>unsigned char\<close> when it is stored.
\<close>

section \<open>The code\<close>

definition base64_chars :: string where
  "base64_chars = ''ABCDEFGHIJKLMNOPQRSTUVWXYZabcdefghijklmnopqrstuvwxyz0123456789-_''"

definition is_base64 :: "char \<Rightarrow> bool" where
  "is_base64 c \<longleftrightarrow> is_alnum c \<or> c = CHR ''-'' \<or> c = CHR ''_''"

definition b64_out :: "byte \<Rightarrow> char" where
  "b64_out x = base64_chars ! unat x"

definition split3 :: "byte list \<Rightarrow> byte list" where
  "split3 a =
     [drop_bit 2 (a ! 0 AND 0xfc),
      push_bit 4 (a ! 0 AND 0x03) + drop_bit 4 (a ! 1 AND 0xf0),
      push_bit 2 (a ! 1 AND 0x0f) + drop_bit 6 (a ! 2 AND 0xc0),
      a ! 2 AND 0x3f]"

fun encode_loop :: "byte list \<Rightarrow> nat \<Rightarrow> byte list \<Rightarrow> string \<Rightarrow> nat \<times> byte list \<times> string" where
  "encode_loop [] i a3 ret = (i, a3, ret)"
| "encode_loop (b # bs) i a3 ret =
     (let a3' = a3[i := b] in
      if i + 1 = 3 then encode_loop bs 0 a3' (ret @ map b64_out (split3 a3'))
      else encode_loop bs (i + 1) a3' ret)"

definition zero_fill :: "nat \<Rightarrow> nat \<Rightarrow> byte list \<Rightarrow> byte list" where
  "zero_fill i n a = map (\<lambda>j. if i \<le> j then 0 else a ! j) [0..<n]"

definition encode_tail :: "nat \<Rightarrow> byte list \<Rightarrow> string \<Rightarrow> string" where
  "encode_tail i a3 ret =
     (if i \<noteq> 0
      then ret @ take (i + 1) (map b64_out (split3 (zero_fill i 3 a3))) @ replicate (3 - i) (CHR ''='')
      else ret)"

definition base64_encode_bytes :: "byte list \<Rightarrow> byte list \<Rightarrow> u32 \<Rightarrow> string" where
  "base64_encode_bytes junk3 bs in_len =
     (let (i, a3, ret) = encode_loop (take (unat in_len) bs) 0 junk3 [] in encode_tail i a3 ret)"

definition base64_encode :: "byte list \<Rightarrow> string \<Rightarrow> string" where
  "base64_encode junk3 s = base64_encode_bytes junk3 (map byte_of s) (word_of_nat (length s))"

text \<open>
  \<^verbatim>\<open>base64_chars.find(c)\<close>, stored into an \<^verbatim>\<open>unsigned char\<close>: \<^verbatim>\<open>npos\<close>
  becomes 255.
\<close>

definition chars_find :: "byte \<Rightarrow> byte" where
  "chars_find b =
     (case find_char (char_of_byte b) base64_chars of Some i \<Rightarrow> word_of_nat i | None \<Rightarrow> 255)"

definition join4 :: "byte list \<Rightarrow> byte list" where
  "join4 a =
     [push_bit 2 (a ! 0) + drop_bit 4 (a ! 1 AND 0x30),
      push_bit 4 (a ! 1 AND 0xf) + drop_bit 2 (a ! 2 AND 0x3c),
      push_bit 6 (a ! 2 AND 0x3) + a ! 3]"

fun decode_loop :: "string \<Rightarrow> nat \<Rightarrow> byte list \<Rightarrow> string \<Rightarrow> nat \<times> byte list \<times> string" where
  "decode_loop [] i a4 ret = (i, a4, ret)"
| "decode_loop (c # cs) i a4 ret =
     (if c \<noteq> CHR ''='' \<and> is_base64 c then
        (let a4' = a4[i := byte_of c] in
         if i + 1 = 4 then
           (let a4'' = map chars_find a4' in
            decode_loop cs 0 a4'' (ret @ map char_of_byte (join4 a4'')))
         else decode_loop cs (i + 1) a4' ret)
      else (i, a4, ret))"

definition decode_tail :: "nat \<Rightarrow> byte list \<Rightarrow> string \<Rightarrow> string" where
  "decode_tail i a4 ret =
     (if i \<noteq> 0
      then ret @ take (i - 1) (map char_of_byte (join4 (map chars_find (zero_fill i 4 a4))))
      else ret)"

definition base64_decode :: "byte list \<Rightarrow> string \<Rightarrow> string" where
  "base64_decode junk4 s =
     (let (i, a4, ret) = decode_loop s 0 junk4 [] in decode_tail i a4 ret)"

section \<open>Bits\<close>

lemma masks: "(0xfc::byte) = push_bit 2 (mask 6)" "(0x03::byte) = mask 2" "(0xf0::byte) = push_bit 4 (mask 4)"
  "(0x0f::byte) = mask 4" "(0xc0::byte) = push_bit 6 (mask 2)" "(0x3f::byte) = mask 6"
  "(0x30::byte) = push_bit 4 (mask 2)" "(0x3c::byte) = push_bit 2 (mask 4)"
  by (simp_all add: mask_eq_exp_minus_1)

lemma byte_eqI:
  assumes "\<And>n. n \<in> {0, 1, 2, 3, 4, 5, 6, 7} \<Longrightarrow> bit a n = bit (b :: byte) n"
  shows "a = b"
proof (rule bit_word_eqI)
  fix n assume "n < LENGTH(8)"
  then have "n = 0 \<or> n = 1 \<or> n = 2 \<or> n = 3 \<or> n = 4 \<or> n = 5 \<or> n = 6 \<or> n = 7"
    by simp arith
  then show "bit a n = bit b n" by (intro assms) simp
qed

text \<open>
  Each sum of the code adds fields that share no bit, so it is their disjunction; reading the
  four 6-bit groups back then gives the three bytes, bit by bit.
\<close>

lemma mid1: "push_bit 4 (a AND 0x03) + drop_bit 4 (b AND 0xf0) = push_bit 4 (a AND mask 2) OR (drop_bit 4 b AND mask 4 :: byte)"
  apply (subst disjunctive_add) apply  (auto simp: masks bit_simps)[1]
  by (rule byte_eqI) (auto simp: masks bit_simps)
lemma mid2: "push_bit 2 (a AND 0x0f) + drop_bit 6 (b AND 0xc0) = push_bit 2 (a AND mask 4) OR (drop_bit 6 b AND mask 2 :: byte)"
  apply (subst disjunctive_add) apply  (auto simp: masks bit_simps)[1]
  by (rule byte_eqI) (auto simp: masks bit_simps)
lemma join_1: "push_bit 2 x + drop_bit 4 (y AND 0x30) = push_bit 2 x OR (drop_bit 4 y AND mask 2 :: byte)"
  apply (subst disjunctive_add) apply  (auto simp: masks bit_simps)[1]
  by (rule byte_eqI) (auto simp: masks bit_simps)
lemma join_2: "push_bit 4 (x AND 0xf) + drop_bit 2 (y AND 0x3c) = push_bit 4 x OR (drop_bit 2 y AND mask 4 :: byte)"
  apply (subst disjunctive_add) apply  (auto simp: masks bit_simps)[1]
  by (rule byte_eqI) (auto simp: masks bit_simps)
lemma join_3: "push_bit 6 (x AND 0x3) + (y AND 0x3f) = push_bit 6 x OR (y AND mask 6 :: byte)"
  apply (subst disjunctive_add) apply  (auto simp: masks bit_simps)[1]
  by (rule byte_eqI) (auto simp: masks bit_simps)

lemma split3_list:
  "split3 [a, b, c] =
     [drop_bit 2 (a AND 0xfc), push_bit 4 (a AND 0x03) + drop_bit 4 (b AND 0xf0),
      push_bit 2 (b AND 0x0f) + drop_bit 6 (c AND 0xc0), c AND 0x3f]"
  by (simp add: split3_def)

lemma join4_list:
  "join4 [w, x, y, z] =
     [push_bit 2 w + drop_bit 4 (x AND 0x30), push_bit 4 (x AND 0xf) + drop_bit 2 (y AND 0x3c),
      push_bit 6 (y AND 0x3) + z]"
  by (simp add: join4_def)

lemma join_split: "join4 (split3 [a, b, c]) = [a, b, c]"
proof -
  have 1: "push_bit 2 (drop_bit 2 (a AND 0xfc)) OR (drop_bit 4 (push_bit 4 (a AND mask 2) OR (drop_bit 4 b AND mask 4)) AND mask 2) = a"
    by (rule byte_eqI) (auto simp: masks bit_simps simp flip: numeral_2_eq_2)
  have 2: "push_bit 4 (push_bit 4 (a AND mask 2) OR (drop_bit 4 b AND mask 4)) OR (drop_bit 2 (push_bit 2 (b AND mask 4) OR (drop_bit 6 c AND mask 2)) AND mask 4) = b"
    by (rule byte_eqI) (auto simp: masks bit_simps simp flip: numeral_2_eq_2)
  have 3: "push_bit 6 (push_bit 2 (b AND mask 4) OR (drop_bit 6 c AND mask 2)) OR (c AND mask 6) = c"
    by (rule byte_eqI) (auto simp: masks bit_simps simp flip: numeral_2_eq_2)
  show ?thesis
    unfolding split3_list mid1 mid2 join4_list join_1 join_2 join_3
    by (simp only: 1 2 3)
qed

section \<open>Reference codec\<close>

text \<open>RFC 4648: three bytes are one 24-bit number, written in four digits of base 64.\<close>

definition group24 :: "byte \<Rightarrow> byte \<Rightarrow> byte \<Rightarrow> nat" where
  "group24 a b c = unat a * 65536 + unat b * 256 + unat c"

definition rfc_digits :: "byte \<Rightarrow> byte \<Rightarrow> byte \<Rightarrow> string" where
  "rfc_digits a b c =
     map (\<lambda>k. base64_chars ! (group24 a b c div 64 ^ k mod 64)) [3, 2, 1, 0]"

fun rfc_encode :: "byte list \<Rightarrow> string" where
  "rfc_encode [] = []"
| "rfc_encode [a] = take 2 (rfc_digits a 0 0) @ ''==''"
| "rfc_encode [a, b] = take 3 (rfc_digits a b 0) @ ''=''"
| "rfc_encode (a # b # c # bs) = rfc_digits a b c @ rfc_encode bs"

lemma byte_less [simp]: "unat (x :: byte) < 256"
  using unsigned_less [of x, where ?'a = nat] by simp

lemma unat_and_mask: "unat (a AND mask n :: byte) = unat a mod 2 ^ n"
  by (simp only: take_bit_eq_mask [symmetric] unsigned_take_bit_eq) (simp add: take_bit_eq_mod)

lemma unat_drop: "unat (drop_bit n a :: byte) = unat a div 2 ^ n"
  by (simp only: unsigned_drop_bit_eq) (simp add: drop_bit_eq_div take_bit_nat_eq_self)

lemma unat_push:
  "unat x * 2 ^ n < 256 \<Longrightarrow> unat (push_bit n x :: byte) = unat x * 2 ^ n"
  by (simp only: unsigned_push_bit_eq) (simp add: push_bit_eq_mult take_bit_nat_eq_self)

lemma unat_add: "unat x + unat y < 256 \<Longrightarrow> unat (x + y :: byte) = unat x + unat y"
  by (simp add: unat_word_ariths)

lemma and_high: "drop_bit 2 (a AND 0xfc) = drop_bit 2 (a :: byte)"
  "drop_bit 4 (a AND 0xf0) = drop_bit 4 a" "drop_bit 6 (a AND 0xc0) = drop_bit 6 a"
  by (rule byte_eqI; auto simp: masks bit_simps dest: bit_imp_le_length simp flip: numeral_2_eq_2)+

lemma unat_split3:
  "map unat (split3 [a, b, c]) =
     [unat a div 4, unat a mod 4 * 16 + unat b div 16, unat b mod 16 * 4 + unat c div 64, unat c mod 64]"
proof -
  have 1: "unat (push_bit 4 (a AND 0x03)) = unat a mod 4 * 16"
    using unat_and_mask [of a 2] by (subst unat_push) (simp_all add: masks)
  have 2: "unat (push_bit 2 (b AND 0x0f)) = unat b mod 16 * 4"
    using unat_and_mask [of b 4] by (subst unat_push) (simp_all add: masks)
  have 3: "unat (drop_bit 4 b) = unat b div 16" "unat (drop_bit 6 c) = unat c div 64"
    "unat (drop_bit 2 a) = unat a div 4" "unat (c AND 0x3f) = unat c mod 64"
    by (simp_all only: masks unat_drop unat_and_mask) simp_all
  have "unat b div 16 < 16" "unat c div 64 < 4" 
    using byte_less [of b] byte_less [of c] by arith+
  then have 4: "unat (push_bit 4 (a AND 0x03) + drop_bit 4 b) = unat a mod 4 * 16 + unat b div 16"
    "unat (push_bit 2 (b AND 0x0f) + drop_bit 6 c) = unat b mod 16 * 4 + unat c div 64"
    by (subst unat_add; simp only: 1 2 3; simp)+
  show ?thesis
    by (simp only: split3_list and_high list.map 3 4)
qed

lemma group24_digits:
  assumes "a < 256" "b < 256" "c < (256 :: nat)"
  shows "(a * 65536 + b * 256 + c) div 262144 mod 64 = a div 4"
    "(a * 65536 + b * 256 + c) div 4096 mod 64 = a mod 4 * 16 + b div 16"
    "(a * 65536 + b * 256 + c) div 64 mod 64 = b mod 16 * 4 + c div 64"
    "(a * 65536 + b * 256 + c) mod 64 = c mod 64"
proof -
  define q s u v w x where "q = a div 4" and "s = a mod 4" and "u = b div 16" and "v = b mod 16"
    and "w = c div 64" and "x = c mod 64"
  have eq: "a = 4 * q + s" "b = 16 * u + v" "c = 64 * w + x"
    by (simp_all add: q_def s_def u_def v_def w_def x_def)
  have lt: "q < 64" "s < 4" "u < 16" "v < 16" "w < 4" "x < 64"
    using assms by (auto simp: q_def s_def u_def v_def w_def x_def)
  let ?n = "a * 65536 + b * 256 + c"
  have "?n div 262144 = q" "?n div 4096 = q * 64 + (s * 16 + u)"
    "?n div 64 = (q * 64 + (s * 16 + u)) * 64 + (v * 4 + w)" "?n = ((q * 64 + (s * 16 + u)) * 64 + (v * 4 + w)) * 64 + x"
    using lt by (auto simp: eq intro!: div_nat_eqI)
  moreover have "(k * 64 + t) mod 64 = t" if "t < 64" for k t :: nat
    using that by simp
  ultimately show "?n div 262144 mod 64 = a div 4" "?n div 4096 mod 64 = a mod 4 * 16 + b div 16"
    "?n div 64 mod 64 = b mod 16 * 4 + c div 64" "?n mod 64 = c mod 64"
    using lt by (simp_all only: flip: q_def s_def u_def v_def w_def x_def) simp
qed

lemma split3_rfc: "map b64_out (split3 [a, b, c]) = rfc_digits a b c"
proof -
  have "map b64_out (split3 [a, b, c]) = map (\<lambda>k. base64_chars ! k) (map unat (split3 [a, b, c]))"
    by (simp add: b64_out_def comp_def)
  then show ?thesis
    by (simp add: unat_split3 rfc_digits_def group24_def group24_digits)
qed

section \<open>The loops compute the reference codec\<close>

lemma encode_loop_rfc:
  "length a3 = 3 \<Longrightarrow>
     (case encode_loop bs 0 a3 ret of (i, a3', ret') \<Rightarrow> encode_tail i a3' ret') = ret @ rfc_encode bs"
proof (induction bs arbitrary: a3 ret rule: rfc_encode.induct)
  case (4 a b c bs)
  then obtain x y z where "a3 = [x, y, z]"
    by (auto simp: numeral_3_eq_3 length_Suc_conv)
  with 4 show ?case by (simp add: Let_def split3_rfc)
qed (auto simp: encode_tail_def Let_def zero_fill_def split3_rfc upt_rec numeral_3_eq_3 length_Suc_conv eval_nat_numeral)

lemma encode_is_rfc:
  assumes "length junk3 = 3" and "length s < 2 ^ 32"
  shows "base64_encode junk3 s = rfc_encode (map byte_of s)"
proof -
  have "unat (word_of_nat (length s) :: u32) = length s"
    using assms(2) by (simp add: unat_of_nat take_bit_nat_eq_self)
  with encode_loop_rfc [OF assms(1), of "map byte_of s" "[]"] show ?thesis
    by (simp add: base64_encode_def base64_encode_bytes_def)
qed

fun quads_decode :: "string \<Rightarrow> byte list" where
  "quads_decode [] = []"
| "quads_decode [w] = []"
| "quads_decode [w, x] = take 1 (join4 (map chars_find [byte_of w, byte_of x, 0, 0]))"
| "quads_decode [w, x, y] = take 2 (join4 (map chars_find [byte_of w, byte_of x, byte_of y, 0]))"
| "quads_decode (w # x # y # z # s) =
     join4 (map chars_find [byte_of w, byte_of x, byte_of y, byte_of z]) @ quads_decode s"

lemma not_base64_pad [simp]: "\<not> is_base64 (CHR ''='')"
  by (simp add: is_base64_def is_alnum_def is_digit_def is_upper_def is_lower_def less_eq_char_def)

lemma decode_loop_prefix: "decode_loop s i a4 ret = decode_loop (takeWhile is_base64 s) i a4 ret"
  by (induction s i a4 ret rule: decode_loop.induct) (simp_all add: Let_def)

lemma list4: "length a = 4 \<Longrightarrow> \<exists>p q r t. a = [p, q, r, t]"
  by (auto simp: eval_nat_numeral length_Suc_conv)

lemma upt4: "[0..<4] = [0, 1, 2, 3]"
  by (simp add: upt_rec)

lemma decode_loop_step:
  "is_base64 c \<Longrightarrow> decode_loop (c # cs) i a4 ret =
     (if i = 3
      then decode_loop cs 0 (map chars_find (a4[i := byte_of c]))
             (ret @ map char_of_byte (join4 (map chars_find (a4[i := byte_of c]))))
      else decode_loop cs (i + 1) (a4[i := byte_of c]) ret)"
  using not_base64_pad by (auto simp: Let_def)

declare decode_loop.simps(2) [simp del]

lemma decode_tail_2:
  "decode_tail 2 [w, x, y, z] ret = ret @ map char_of_byte (take 1 (join4 (map chars_find [w, x, 0, 0])))"
  by (simp add: decode_tail_def zero_fill_def upt4 take_map)

lemma decode_tail_3:
  "decode_tail 3 [w, x, y, z] ret = ret @ map char_of_byte (take 2 (join4 (map chars_find [w, x, y, 0])))"
  by (simp add: decode_tail_def zero_fill_def upt4 take_map)

lemma decode_loop_quads:
  "length a4 = 4 \<Longrightarrow> \<forall>c \<in> set s. is_base64 c \<Longrightarrow>
     (case decode_loop s 0 a4 ret of (i, a4', ret') \<Rightarrow> decode_tail i a4' ret') =
       ret @ map char_of_byte (quads_decode s)"
proof (induction s arbitrary: a4 ret rule: quads_decode.induct)
  case (5 w x y z s)
  from list4 [OF 5(2)] obtain p q r t where "a4 = [p, q, r, t]" by blast
  with 5 show ?case by (simp add: decode_loop_step del: join4_list)
next
  case (3 w x)
  from list4 [OF 3(1)] obtain p q r t where "a4 = [p, q, r, t]" by blast
  with 3 show ?case
    by (simp add: decode_loop_step decode_tail_2 [unfolded numeral_2_eq_2] del: take_Suc_Cons)
next
  case (4 w x y)
  from list4 [OF 4(1)] obtain p q r t where "a4 = [p, q, r, t]" by blast
  with 4 show ?case
    by (simp add: decode_loop_step decode_tail_3 [unfolded numeral_3_eq_3])
qed (simp_all add: decode_tail_def decode_loop_step)

lemma decode_is_quads:
  assumes "length junk4 = 4"
  shows "base64_decode junk4 s = map char_of_byte (quads_decode (takeWhile is_base64 s))"
proof -
  have "\<forall>c \<in> set (takeWhile is_base64 s). is_base64 c"
    by (auto dest: set_takeWhileD)
  from decode_loop_quads [OF assms this, of "[]"] show ?thesis
    by (simp add: base64_decode_def decode_loop_prefix [of s])
qed

section \<open>Round trip\<close>

lemma base64_alphabet:
  "\<forall>k \<in> set [0..<64]. is_base64 (base64_chars ! k) \<and>
     find_char (base64_chars ! k) base64_chars = Some k"
  by code_simp

lemma chars_find_out:
  assumes "unat x < 64"
  shows "chars_find (byte_of (b64_out x)) = x" and "is_base64 (b64_out x)"
  using base64_alphabet assms by (auto simp: chars_find_def b64_out_def)

lemma split3_less: "x \<in> set (split3 [a, b, c]) \<Longrightarrow> unat x < 64"
proof -
  assume "x \<in> set (split3 [a, b, c])"
  then have "unat x \<in> set (map unat (split3 [a, b, c]))" by simp
  moreover have "n div 4 < 64" "k mod 4 * 16 + n div 16 < 64" "k mod 16 * 4 + n div 64 < 64"
    if "n < 256" for n k :: nat
    using that by arith+
  ultimately show ?thesis
    unfolding unat_split3 by auto
qed

lemma map_chars_find_split3:
  "map chars_find (map byte_of (map b64_out (split3 [a, b, c]))) = split3 [a, b, c]"
  using split3_less by (simp add: chars_find_out(1) map_idI)

lemma quads_decode_rfc_encode: "quads_decode (takeWhile is_base64 (rfc_encode bs)) = bs"
proof (induction bs rule: rfc_encode.induct)
  case 1
  show ?case by simp
next
  case (2 a)
  obtain u v w x where s: "split3 [a, 0, 0] = [u, v, w, x]" by (simp add: split3_list)
  have f: "chars_find (byte_of (b64_out u)) = u" "chars_find (byte_of (b64_out v)) = v"
    "is_base64 (b64_out u)" "is_base64 (b64_out v)"
    using split3_less [of _ a 0 0] by (auto simp: s chars_find_out)
  have "join4 [u, v, w, x] = [a, 0, 0]" using join_split [of a 0 0] by (simp add: s)
  then have "take 1 (join4 [u, v, w', x']) = [a]" for w' x'
    by (simp add: join4_list)
  then show ?case
    by (simp add: split3_rfc [symmetric] s f take_Cons')
next
  case (3 a b)
  obtain u v w x where s: "split3 [a, b, 0] = [u, v, w, x]" by (simp add: split3_list)
  have f: "chars_find (byte_of (b64_out u)) = u" "chars_find (byte_of (b64_out v)) = v"
    "chars_find (byte_of (b64_out w)) = w"
    "is_base64 (b64_out u)" "is_base64 (b64_out v)" "is_base64 (b64_out w)"
    using split3_less [of _ a b 0] by (auto simp: s chars_find_out)
  have "join4 [u, v, w, x] = [a, b, 0]" using join_split [of a b 0] by (simp add: s)
  then have "take 2 (join4 [u, v, w, x']) = [a, b]" for x'
    by (simp add: join4_list)
  then show ?case
    by (simp add: split3_rfc [symmetric] s f take_Cons')
next
  case (4 a b c bs)
  obtain u v w x where s: "split3 [a, b, c] = [u, v, w, x]" by (simp add: split3_list)
  have f: "chars_find (byte_of (b64_out u)) = u" "chars_find (byte_of (b64_out v)) = v"
    "chars_find (byte_of (b64_out w)) = w" "chars_find (byte_of (b64_out x)) = x"
    "is_base64 (b64_out u)" "is_base64 (b64_out v)" "is_base64 (b64_out w)" "is_base64 (b64_out x)"
    using split3_less [of _ a b c] by (auto simp: s chars_find_out)
  have "join4 [u, v, w, x] = [a, b, c]" using join_split [of a b c] by (simp add: s)
  with 4 show ?case
    by (simp add: split3_rfc [symmetric] s f)
qed

lemma decode_encode:
  assumes "length junk3 = 3" "length junk4 = 4" "length s < 2 ^ 32"
  shows "base64_decode junk4 (base64_encode junk3 s) = s"
  using assms by (simp add: encode_is_rfc decode_is_quads quads_decode_rfc_encode)

lemma length_rfc_encode: "length (rfc_encode bs) = 4 * ((length bs + 2) div 3)"
proof (induction bs rule: rfc_encode.induct)
  case (4 a b c bs)
  have "(length (a # b # c # bs) + 2) div 3 = Suc ((length bs + 2) div 3)" by simp
  with 4 show ?case by (simp add: rfc_digits_def)
qed (simp_all add: rfc_digits_def)

lemma rfc_alphabet: "\<forall>c \<in> set (rfc_encode bs). is_base64 c \<or> c = CHR ''=''"
proof (induction bs rule: rfc_encode.induct)
  case (4 a b c bs)
  then show ?case
    using base64_alphabet by (auto simp: rfc_digits_def)
qed (use base64_alphabet in \<open>auto simp: rfc_digits_def take_Cons'\<close>)

text \<open>The pair of functions is a codec on every string whose length fits the loop counter.\<close>

interpretation b64: codec "base64_encode [0, 0, 0]" "base64_decode [0, 0, 0, 0]" "\<lambda>s. length s < 2 ^ 32"
  by unfold_locales (simp add: decode_encode)

section \<open>Properties\<close>



text \<open>C38: the encoder computes the base64 of RFC 4648 (groups of 24 bits written in four digits
  of the URL-safe alphabet, padded with \<^verbatim>\<open>=\<close>), its output has four characters per
  started group of three bytes, and only alphabet and padding characters occur in it.\<close>
theorem base64_encode_rfc4648:
  assumes "length junk3 = 3" and "length s < 2 ^ 32"
  shows "base64_encode junk3 s = rfc_encode (map byte_of s) \<and>
     length (base64_encode junk3 s) = 4 * ((length s + 2) div 3) \<and>
     (\<forall>c \<in> set (base64_encode junk3 s). is_base64 c \<or> c = CHR ''='')"
  using assms by (simp add: encode_is_rfc length_rfc_encode rfc_alphabet)

theorem base64_encode_rfc4648_witness:
  "base64_encode [1, 2, 3] ''Ma'' = rfc_encode (map byte_of ''Ma'') \<and>
   length (base64_encode [1, 2, 3] ''Ma'') = 4"
  using base64_encode_rfc4648 [of "[1, 2, 3]" "''Ma''"] by (simp add: length_rfc_encode del: rfc_encode.simps)

end
