(* ===== verification/UrlParser.thy ===== *)
theory UrlParser
  imports StdMap
begin

text \<open>
  \<^verbatim>\<open>src/UrlParser.cpp\<close>: the query string parser behind every request. Positions are
  \<^verbatim>\<open>size_type\<close> values (64-bit words, \<^verbatim>\<open>npos\<close> is \<open>-1\<close>), as the loop relies on
  \<^verbatim>\<open>++npos == 0\<close>. The loop may in principle not end and \<^verbatim>\<open>substr\<close> may throw, so its
  result is an optional outcome; the first lemmas show that it always returns normally and
  computes the list-level reading of the string.
\<close>

section \<open>The code\<close>

definition is_hex_digit :: "char \<Rightarrow> bool" where
  "is_hex_digit hex_digit \<longleftrightarrow> hex_digit \<in> set ''0123456789aAbBcCdDeEfF''"

definition hex_digit_to_int :: "char \<Rightarrow> nat" where
  "hex_digit_to_int hex_digit =
    (if hex_digit \<in> set ''0123456789'' then of_char hex_digit - 48
     else if hex_digit \<in> set ''aA'' then 10
     else if hex_digit \<in> set ''bB'' then 11
     else if hex_digit \<in> set ''cC'' then 12
     else if hex_digit \<in> set ''dD'' then 13
     else if hex_digit \<in> set ''eE'' then 14
     else if hex_digit \<in> set ''fF'' then 15
     else 0)"

datatype pct_state = General | FirstPercentEncodedDigit | SecondPercentEncodedDigit

fun percent_decode_loop :: "string \<Rightarrow> pct_state \<Rightarrow> char \<Rightarrow> char \<Rightarrow> string \<Rightarrow> string" where
  "percent_decode_loop [] state first_char second_char result = result"
| "percent_decode_loop (it # str) General first_char second_char result =
     (if it \<noteq> CHR ''%''
      then percent_decode_loop str General first_char second_char (result @ [it])
      else percent_decode_loop str FirstPercentEncodedDigit (CHR 0x00) (CHR 0x00) result)"
| "percent_decode_loop (it # str) FirstPercentEncodedDigit first_char second_char result =
     (if is_hex_digit it
      then percent_decode_loop str SecondPercentEncodedDigit it second_char result
      else percent_decode_loop str General it second_char (result @ [CHR ''%'', it]))"
| "percent_decode_loop (it # str) SecondPercentEncodedDigit first_char second_char result =
     (if is_hex_digit it
      then percent_decode_loop str General first_char it
             (result @ [char_of (push_bit 4 (hex_digit_to_int first_char) OR hex_digit_to_int it)])
      else percent_decode_loop str General first_char it (result @ [CHR ''%'', first_char, it]))"

definition percent_decode :: "string \<Rightarrow> string" where
  "percent_decode str = percent_decode_loop str General (CHR 0x00) (CHR 0x00) []"

abbreviation npos :: size_t where
  "npos \<equiv> - 1"

definition str_size :: "string \<Rightarrow> size_t" where
  "str_size s = word_of_nat (length s)"

definition find_from :: "string \<Rightarrow> char \<Rightarrow> size_t \<Rightarrow> size_t" where
  "find_from s c pos =
     (case find_first_of c (unat pos) s of None \<Rightarrow> npos | Some i \<Rightarrow> word_of_nat i)"

definition std_substr :: "string \<Rightarrow> size_t \<Rightarrow> size_t \<Rightarrow> string outcome" where
  "std_substr s pos n =
     (if length s < unat pos then Throw ''basic_string::substr'' else Ok (substr s (unat pos) (unat n)))"

type_synonym params_map = "(string \<times> string) list"

partial_function (option) parse_loop :: "string \<Rightarrow> size_t \<Rightarrow> params_map \<Rightarrow> params_map outcome option" where
  "parse_loop url pos ps =
    (if pos < str_size url \<or> pos = npos then
       (let pos = pos + 1;
            end' = find_from url (CHR ''='') pos in
        if end' = npos then Some (Ok ps)
        else case std_substr url pos (end' - pos) of
          Throw e \<Rightarrow> Some (Throw e)
        | Fault x \<Rightarrow> Some (Fault x)
        | Ok param_name \<Rightarrow>
           (let pos = end' + 1;
                end' = find_from url (CHR ''&'') pos;
                end' = (if end' = npos then str_size url else end') in
            case std_substr url pos (end' - pos) of
              Throw e \<Rightarrow> Some (Throw e)
            | Fault x \<Rightarrow> Some (Fault x)
            | Ok param_value \<Rightarrow>
                parse_loop url end' (map_put ps param_name (percent_decode param_value))))
     else Some (Ok ps))"

declare parse_loop.simps [code]

definition UrlParser_parse :: "string \<Rightarrow> params_map outcome option" where
  "UrlParser_parse url = parse_loop url (find_from url (CHR ''?'') 0) []"

definition UrlParser_param :: "params_map \<Rightarrow> string \<Rightarrow> string" where
  "UrlParser_param ps par = (case map_find ps par of Some v \<Rightarrow> v | None \<Rightarrow> '''')"

section \<open>The list-level reading of a query string\<close>

function pairs_of :: "string \<Rightarrow> (string \<times> string) list" where
  "pairs_of s =
     (case find_char (CHR ''='') s of
        None \<Rightarrow> []
      | Some i \<Rightarrow>
          (let rest = drop (Suc i) s in
           case find_char (CHR ''&'') rest of
             None \<Rightarrow> [(take i s, rest)]
           | Some j \<Rightarrow> (take i s, take j rest) # pairs_of (drop (Suc j) rest)))"
  by pat_completeness auto
termination
  by (relation "measure length") (auto dest: find_char_Some)

declare pairs_of.simps [simp del]

definition query_part :: "string \<Rightarrow> string" where
  "query_part url = (case find_char (CHR ''?'') url of None \<Rightarrow> url | Some i \<Rightarrow> drop (Suc i) url)"

definition store_pairs :: "(string \<times> string) list \<Rightarrow> params_map \<Rightarrow> params_map" where
  "store_pairs kvs ps = fold (\<lambda>(k, v) ps. map_put ps k v) (map (\<lambda>(k, v). (k, percent_decode v)) kvs) ps"

lemma unat_size: "n < 2 ^ 63 \<Longrightarrow> unat (word_of_nat n :: size_t) = n"
  by (simp add: unat_of_nat take_bit_nat_eq_self)

lemma size_not_npos: "n < 2 ^ 63 \<Longrightarrow> (word_of_nat n :: size_t) \<noteq> npos"
proof
  assume n: "n < 2 ^ 63" and "(word_of_nat n :: size_t) = npos"
  then have "n = unat npos" using unat_size [OF n] by simp
  with n show False by (simp add: unsigned_minus_1_eq_mask mask_eq_exp_minus_1)
qed

lemma size_less: "n < 2 ^ 63 \<Longrightarrow> m < 2 ^ 63 \<Longrightarrow> (word_of_nat n :: size_t) < word_of_nat m \<longleftrightarrow> n < m"
  by (simp add: word_less_nat_alt unat_size)

lemma size_diff: "n \<le> m \<Longrightarrow> (word_of_nat m :: size_t) - word_of_nat n = word_of_nat (m - n)"
  by (simp add: of_nat_diff)

lemma parse_loop_end:
  "length url < 2 ^ 63 \<Longrightarrow> parse_loop url (str_size url) ps = Some (Ok ps)"
  by (subst parse_loop.simps) (simp add: str_size_def size_not_npos)

lemma find_from_nat:
  assumes "p \<le> length url" "length url < 2 ^ 63"
  shows "find_from url c (word_of_nat p) =
     (case find_char c (drop p url) of None \<Rightarrow> npos | Some i \<Rightarrow> word_of_nat (p + i))"
  using assms by (simp add: find_from_def find_first_of_def unat_size option.case_distrib split: option.split)

lemma loop_entered:
  assumes "p \<le> length url" "length url < 2 ^ 63"
  shows "(word_of_nat p - 1 :: size_t) < str_size url \<or> word_of_nat p - 1 = npos"
proof (cases p)
  case (Suc q)
  with assms show ?thesis by (simp add: str_size_def size_less)
qed simp

lemma std_substr_nat:
  assumes "p \<le> e" "e \<le> length url" "length url < 2 ^ 63"
  shows "std_substr url (word_of_nat p) (word_of_nat e - word_of_nat p) = Ok (substr url p (e - p))"
proof -
  have "unat (word_of_nat p :: size_t) = p" "unat (word_of_nat (e - p) :: size_t) = e - p"
    using assms by (auto intro!: unat_size simp del: of_nat_diff)
  with assms show ?thesis by (simp only: std_substr_def size_diff) simp
qed

lemma parse_loop_iteration:
  assumes len: "length url < 2 ^ 63" and p: "p \<le> length url"
    and name: "find_char (CHR ''='') (drop p url) = Some i"
    and e: "e = Suc (p + i)"
    and amp: "e' = (case find_char (CHR ''&'') (drop e url) of None \<Rightarrow> length url | Some j \<Rightarrow> e + j)"
  shows "parse_loop url (word_of_nat p - 1) ps =
     parse_loop url (word_of_nat e') (map_put ps (take i (drop p url)) (percent_decode (substr url e (e' - e))))"
proof -
  from find_char_bound [OF name] e have e_le: "e \<le> length url" by simp
  have e': "e \<le> e' \<and> e' \<le> length url"
  proof (cases "find_char (CHR ''&'') (drop e url)")
    case (Some j)
    with find_char_bound [OF Some] amp show ?thesis by simp
  qed (use amp e_le in simp)
  have 1: "find_from url (CHR ''='') (word_of_nat p) = word_of_nat (p + i)"
    using name p len by (simp add: find_from_nat)
  have 2: "word_of_nat (p + i) + 1 = (word_of_nat e :: size_t)"
    by (simp add: e)
  have 3: "(let end' = find_from url (CHR ''&'') (word_of_nat e)
            in if end' = npos then str_size url else end') = word_of_nat e'"
  proof (cases "find_char (CHR ''&'') (drop e url)")
    case None
    then show ?thesis using e_le len by (simp add: find_from_nat amp str_size_def)
  next
    case (Some j)
    then have "(word_of_nat e' :: size_t) \<noteq> npos"
      using e' len by (intro size_not_npos) simp
    with Some show ?thesis
      using e_le len by (simp add: find_from_nat amp Let_def del: of_nat_add)
  qed
  have 4: "std_substr url (word_of_nat p) (word_of_nat (p + i) - word_of_nat p) = Ok (take i (drop p url))"
    using std_substr_nat [of p "p + i" url] e e_le len by (simp add: substr_def del: of_nat_add)
  have 5: "std_substr url (word_of_nat e) (word_of_nat e' - word_of_nat e) = Ok (substr url e (e' - e))"
    using std_substr_nat e' len by blast
  have 6: "(word_of_nat (p + i) :: size_t) \<noteq> npos"
    using e e_le len by (intro size_not_npos) simp
  show ?thesis
    by (subst parse_loop.simps)
      (simp only: loop_entered [OF p len] if_True diff_add_cancel Let_def 1 2 4 6 if_False outcome.case
        3 [unfolded Let_def] 5)
qed

lemma parse_loop_pairs:
  assumes len: "length url < 2 ^ 63"
  shows "p \<le> length url \<Longrightarrow>
     parse_loop url (word_of_nat p - 1) ps = Some (Ok (store_pairs (pairs_of (drop p url)) ps))"
proof (induction "length url - p" arbitrary: p ps rule: less_induct)
  case less
  note p = less.prems
  show ?case
  proof (cases "find_char (CHR ''='') (drop p url)")
    case None
    with loop_entered [OF p len] p len show ?thesis
      by (subst parse_loop.simps, subst pairs_of.simps) (simp add: find_from_nat store_pairs_def)
  next
    case (Some i)
    define e where "e = Suc (p + i)"
    from find_char_bound [OF Some] have e_le: "e \<le> length url" by (simp add: e_def)
    have rest: "drop (Suc i) (drop p url) = drop e url" by (simp add: e_def add.commute)
    note iter = parse_loop_iteration [OF len p Some e_def refl, of ps]
    show ?thesis
    proof (cases "find_char (CHR ''&'') (drop e url)")
      case None
      with iter Some rest len e_le show ?thesis
        by (subst pairs_of.simps)
          (simp add: parse_loop_end [unfolded str_size_def] store_pairs_def substr_def Let_def del: drop_drop)
    next
      case (Some j)
      let ?p = "Suc (e + j)"
      from find_char_bound [OF Some] have p': "?p \<le> length url" by simp
      have "parse_loop url (word_of_nat ?p - 1) ps' = Some (Ok (store_pairs (pairs_of (drop ?p url)) ps'))" for ps'
        using less.hyps [of ?p] p' by (simp add: e_def)
      moreover have "(word_of_nat ?p - 1 :: size_t) = word_of_nat (e + j)" by simp
      ultimately show ?thesis
        using iter Some \<open>find_char (CHR ''='') (drop p url) = Some i\<close> rest
        by (subst pairs_of.simps)
          (simp add: store_pairs_def substr_def Let_def del: drop_drop of_nat_add of_nat_Suc,
           simp add: add.commute)
    qed
  qed
qed

lemma UrlParser_parse_pairs:
  assumes "length url < 2 ^ 63"
  shows "UrlParser_parse url = Some (Ok (store_pairs (pairs_of (query_part url)) []))"
proof (cases "find_char (CHR ''?'') url")
  case None
  then have "find_from url (CHR ''?'') 0 = word_of_nat 0 - 1"
    by (simp add: find_from_def find_first_of_def)
  with parse_loop_pairs [OF assms, of 0] None show ?thesis
    by (simp add: UrlParser_parse_def query_part_def)
next
  case (Some i)
  then have i: "i < length url" by (rule find_char_bound)
  from Some have "find_from url (CHR ''?'') 0 = word_of_nat (Suc i) - 1"
    by (simp add: find_from_def find_first_of_def)
  with parse_loop_pairs [OF assms, of "Suc i"] Some i show ?thesis
    by (simp add: UrlParser_parse_def query_part_def del: of_nat_Suc)
qed

section \<open>Percent decoding\<close>

fun pct_spec :: "string \<Rightarrow> string" where
  "pct_spec [] = []"
| "pct_spec [c] = (if c = CHR ''%'' then [] else [c])"
| "pct_spec [c, a] =
     (if c \<noteq> CHR ''%'' then c # pct_spec [a]
      else if is_hex_digit a then [] else [CHR ''%'', a])"
| "pct_spec (c # a # b # s) =
     (if c \<noteq> CHR ''%'' then c # pct_spec (a # b # s)
      else if \<not> is_hex_digit a then CHR ''%'' # a # pct_spec (b # s)
      else if is_hex_digit b then char_of (16 * hex_digit_to_int a + hex_digit_to_int b) # pct_spec s
      else CHR ''%'' # a # b # pct_spec s)"

lemma hex_digit_bound: "hex_digit_to_int c < 16"
  by (simp add: hex_digit_to_int_def)

lemma nibbles: "y < 16 \<Longrightarrow> push_bit 4 x OR y = 16 * x + (y :: nat)"
proof -
  assume y: "y < 16"
  then have "take_bit 4 y = y" by (simp add: take_bit_nat_eq_self)
  then have "push_bit 4 x OR y = push_bit 4 x + y"
    by (metis disjunctive_add bit_push_bit_iff bit_take_bit_iff not_le)
  then show ?thesis by (simp add: push_bit_eq_mult)
qed

lemma percent_decode_loop_spec:
  "percent_decode_loop s General x y r = r @ pct_spec s"
  by (induction s arbitrary: x y r rule: pct_spec.induct) (auto simp: nibbles hex_digit_bound)

lemma percent_decode_is_spec: "percent_decode s = pct_spec s"
  by (simp add: percent_decode_def percent_decode_loop_spec)

definition hex_char :: "nat \<Rightarrow> char" where
  "hex_char d = ''0123456789ABCDEF'' ! d"

definition percent_encode :: "(char \<Rightarrow> bool) \<Rightarrow> string \<Rightarrow> string" where
  "percent_encode keep s =
     concat (map (\<lambda>c. if keep c then [c]
                       else [CHR ''%'', hex_char (of_char c div 16), hex_char (of_char c mod 16)]) s)"

lemma hex_char_digits:
  "\<forall>d \<in> set [0..<16]. is_hex_digit (hex_char d) \<and> hex_digit_to_int (hex_char d) = d"
  by code_simp

lemma hex_char: "d < 16 \<Longrightarrow> is_hex_digit (hex_char d)" "d < 16 \<Longrightarrow> hex_digit_to_int (hex_char d) = d"
  using hex_char_digits by auto

lemma pct_spec_plain: "c \<noteq> CHR ''%'' \<Longrightarrow> pct_spec (c # s) = c # pct_spec s"
  by (cases s rule: pct_spec.cases) auto

lemma percent_decode_encode:
  assumes "\<not> keep (CHR ''%'')"
  shows "percent_decode (percent_encode keep s) = s"
proof (induction s)
  case Nil
  show ?case by (simp add: percent_encode_def percent_decode_is_spec)
next
  case (Cons c s)
  have "(of_char c :: nat) div 16 < 16" 
    using nat_of_char_less_256 [of c] by linarith
  moreover have "keep c \<Longrightarrow> c \<noteq> CHR ''%''"
    using assms by auto
  ultimately show ?case
    using Cons by (auto simp: percent_encode_def percent_decode_is_spec pct_spec_plain hex_char)
qed

lemma length_pct_spec: "length (pct_spec s) \<le> length s"
  by (induction s rule: pct_spec.induct) auto

lemma pct_spec_ident: "CHR ''%'' \<notin> set s \<Longrightarrow> pct_spec s = s"
  by (induction s) (auto simp: pct_spec_plain)

section \<open>Writing a query string\<close>

definition amp_join :: "(string \<times> string) list \<Rightarrow> string" where
  "amp_join kvs = (case kvs of [] \<Rightarrow> [] | kv # r \<Rightarrow>
     fst kv @ CHR ''='' # snd kv @ concat (map (\<lambda>(k, v). CHR ''&'' # k @ CHR ''='' # v) r))"

lemma amp_join_Cons2: "amp_join ((k, v) # kv # r) = k @ CHR ''='' # v @ CHR ''&'' # amp_join (kv # r)"
  by (cases kv) (simp add: amp_join_def)

lemma pairs_of_amp_join:
  assumes "\<forall>(k, v) \<in> set kvs. CHR ''='' \<notin> set k \<and> CHR ''&'' \<notin> set v"
  shows "pairs_of (amp_join kvs) = kvs"
  using assms
proof (induction kvs rule: induct_list012)
  case 1
  show ?case by (subst pairs_of.simps) (simp add: amp_join_def)
next
  case (2 kv)
  then show ?case by (subst pairs_of.simps) (auto simp: amp_join_def str_simps)
next
  case (3 kv kv' r)
  obtain k v where kv: "kv = (k, v)" by (cases kv)
  from 3 have "pairs_of (amp_join (kv' # r)) = kv' # r" by simp
  with 3 show ?case
    by (subst pairs_of.simps) (auto simp: kv amp_join_Cons2 find_char_append)
qed

lemma find_question:
  "CHR ''?'' \<notin> set url \<Longrightarrow> query_part url = url"
  by (simp add: query_part_def str_simps)

lemma query_part_question:
  "CHR ''?'' \<notin> set before \<Longrightarrow> query_part (before @ CHR ''?'' # s) = s"
  by (simp add: query_part_def str_simps)

lemma store_pairs_find:
  "map_find (store_pairs kvs []) k = map_option percent_decode (map_of (rev kvs) k)"
proof -
  have "map_of (rev (map (\<lambda>(k, v). (k, percent_decode v)) kvs)) k = map_option percent_decode (map_of (rev kvs) k)"
    by (simp add: rev_map map_of_map)
  then show ?thesis
    unfolding store_pairs_def by (subst std_map.search_assigns) (auto simp: map_sorted_Nil split: option.splits)
qed

lemma UrlParser_param_store:
  "UrlParser_param (store_pairs kvs []) k =
     (case map_of (rev kvs) k of Some v \<Rightarrow> percent_decode v | None \<Rightarrow> '''')"
  by (simp add: UrlParser_param_def store_pairs_find split: option.split)

lemma percent_encode_set:
  assumes "c \<in> set (percent_encode keep s)"
  shows "keep c \<or> c = CHR ''%'' \<or> is_hex_digit c"
proof -
  have "(of_char d :: nat) div 16 < 16" for d
    using nat_of_char_less_256 [of d] by linarith
  with assms show ?thesis
    by (auto simp: percent_encode_def hex_char split: if_splits)
qed

lemma percent_encode_avoids:
  assumes "\<not> keep c" and "c = CHR ''&'' \<or> c = CHR ''?''"
  shows "c \<notin> set (percent_encode keep s)"
  using assms percent_encode_set [of c keep s] by (auto simp: is_hex_digit_def)

lemma amp_join_avoids:
  assumes "\<forall>(k, v) \<in> set kvs. c \<notin> set k \<and> c \<notin> set v" and "c \<noteq> CHR ''&''" and "c \<noteq> CHR ''=''"
  shows "c \<notin> set (amp_join kvs)"
  using assms by (cases kvs) (auto simp: amp_join_def)

definition url_unreserved :: "char \<Rightarrow> bool" where
  "url_unreserved c \<longleftrightarrow> is_alnum c \<or> c \<in> set ''-._~''"

interpretation pct: codec "percent_encode url_unreserved" percent_decode "\<lambda>_. True"
  by unfold_locales
    (simp add: percent_decode_encode url_unreserved_def is_alnum_def is_digit_def is_upper_def
      is_lower_def less_eq_char_def)

section \<open>Properties\<close>

text \<open>C13: the parser returns on every string that fits in memory, never throws
  \<^verbatim>\<open>out_of_range\<close>, and the map it builds is the one of the list-level reading: cut at the
  first question mark if there is one, then name up to \<^verbatim>\<open>=\<close>, value up to
  \<^verbatim>\<open>&\<close> or the end, value percent-decoded, later pairs replacing earlier ones.\<close>
theorem UrlParser_parse_total:
  assumes "length url < 2 ^ 63"
  shows "UrlParser_parse url = Some (Ok (store_pairs (pairs_of (query_part url)) []))"
  using assms by (rule UrlParser_parse_pairs)

theorem UrlParser_parse_total_witness:
  "UrlParser_parse ''scr=a%31&x=2&'' = Some (Ok (store_pairs (pairs_of ''scr=a%31&x=2&'') [])) \<and>
   UrlParser_parse ''scr=a%31&x=2&'' = Some (Ok [(''scr'', ''a1''), (''x'', ''2'')])"
proof
  show "UrlParser_parse ''scr=a%31&x=2&'' = Some (Ok (store_pairs (pairs_of ''scr=a%31&x=2&'') []))"
    using UrlParser_parse_total [of "''scr=a%31&x=2&''"] by (simp add: query_part_def)
  show "UrlParser_parse ''scr=a%31&x=2&'' = Some (Ok [(''scr'', ''a1''), (''x'', ''2'')])"
    by code_simp
qed

text \<open>C14: a query string written from a list of names and percent-encoded values is read back:
  \<^verbatim>\<open>param\<close> gives the value last written under the name, and the empty string for every
  other name.\<close>
theorem UrlParser_query_roundtrip:
  assumes "\<not> keep (CHR ''%'')" and "\<not> keep (CHR ''&'')" and "\<not> keep (CHR ''?'')"
    and "\<forall>(k, v) \<in> set kvs. CHR ''='' \<notin> set k \<and> CHR ''?'' \<notin> set k"
    and "url = amp_join (map (\<lambda>(k, v). (k, percent_encode keep v)) kvs)"
    and "length url < 2 ^ 63"
  shows "\<exists>ps. UrlParser_parse url = Some (Ok ps) \<and>
     (\<forall>k. UrlParser_param ps k = (case map_of (rev kvs) k of Some v \<Rightarrow> v | None \<Rightarrow> ''''))"
proof -
  let ?kvs = "map (\<lambda>(k, v). (k, percent_encode keep v)) kvs"
  have "CHR ''?'' \<notin> set url"
    unfolding assms(5) using assms(3,4) by (intro amp_join_avoids) (auto dest: percent_encode_avoids)
  then have "query_part url = url" by (rule find_question)
  moreover have "pairs_of url = ?kvs"
    unfolding assms(5) using assms(2,4) by (intro pairs_of_amp_join) (auto dest: percent_encode_avoids)
  ultimately have "UrlParser_parse url = Some (Ok (store_pairs ?kvs []))"
    using UrlParser_parse_pairs [OF assms(6)] by simp
  moreover have "map_of (rev ?kvs) k = map_option (percent_encode keep) (map_of (rev kvs) k)" for k
    by (simp add: rev_map map_of_map)
  ultimately show ?thesis
    using assms(1) by (auto simp: UrlParser_param_store percent_decode_encode split: option.split)
qed

theorem UrlParser_query_roundtrip_witness:
  "\<exists>ps. UrlParser_parse ''scr=a%26b&test=true'' = Some (Ok ps) \<and>
     UrlParser_param ps ''scr'' = ''a&b'' \<and> UrlParser_param ps ''test'' = ''true'' \<and>
     UrlParser_param ps ''show'' = ''''"
proof -
  have url: "''scr=a%26b&test=true'' =
      amp_join (map (\<lambda>(k, v). (k, percent_encode url_unreserved v)) [(''scr'', ''a&b''), (''test'', ''true'')])"
    by code_simp
  have "\<not> url_unreserved (CHR ''%'')" "\<not> url_unreserved (CHR ''&'')" "\<not> url_unreserved (CHR ''?'')"
    by code_simp+
  from UrlParser_query_roundtrip [OF this _ url] show ?thesis by force
qed

text \<open>A question mark anywhere in the string discards every parameter written before it.
  The worker passes the web server's \<^verbatim>\<open>QUERY_STRING\<close>, which no longer holds the leading
  question mark, so a question mark inside a value (an unencoded URL, say) loses the parameters
  before it, \<^verbatim>\<open>scr\<close> included.\<close>
theorem UrlParser_question_mark_discards:
  assumes "CHR ''?'' \<notin> set before" and "length (before @ CHR ''?'' # rest) < 2 ^ 63"
  shows "UrlParser_parse (before @ CHR ''?'' # rest) = Some (Ok (store_pairs (pairs_of rest) []))"
  using UrlParser_parse_pairs [OF assms(2)] by (simp add: query_part_question [OF assms(1)])

theorem UrlParser_question_mark_discards_witness:
  "\<exists>ps. UrlParser_parse ''scr=ab&ref=p?q=1'' = Some (Ok ps) \<and> UrlParser_param ps ''scr'' = '''' \<and>
     UrlParser_param ps ''q'' = ''1''"
proof -
  have "store_pairs (pairs_of ''q=1'') [] = [(''q'', ''1'')]" by code_simp
  with UrlParser_question_mark_discards [of "''scr=ab&ref=p''" "''q=1''"] show ?thesis
    by (simp add: UrlParser_param_def)
qed

text \<open>C36: percent decoding as a state machine is the list-level decoder (an escape is
  \<^verbatim>\<open>%\<close> and two hexadecimal digits; a broken escape is copied; one cut off by the end of
  the string is dropped), never lengthens its input, leaves a string without percent sign alone,
  and undoes every percent-encoder.\<close>
theorem percent_decode_correct:
  "percent_decode s = pct_spec s \<and> length (percent_decode s) \<le> length s \<and>
   (CHR ''%'' \<notin> set s \<longrightarrow> percent_decode s = s) \<and>
   (\<not> keep (CHR ''%'') \<longrightarrow> percent_decode (percent_encode keep s) = s)"
  using percent_decode_encode by (simp add: percent_decode_is_spec length_pct_spec pct_spec_ident)

theorem percent_decode_correct_witness:
  "percent_decode ''abc'' = ''abc'' \<and> percent_decode (percent_encode url_unreserved ''a b'') = ''a b'' \<and>
   percent_decode ''a%20b%4z%2'' = ''a b%4z''"
proof (intro conjI)
  show "percent_decode ''abc'' = ''abc''"
    using percent_decode_correct [of "''abc''"] by simp
  have "\<not> url_unreserved (CHR ''%'')" by code_simp
  then show "percent_decode (percent_encode url_unreserved ''a b'') = ''a b''"
    using percent_decode_correct [of "''a b''" url_unreserved] by blast
  show "percent_decode ''a%20b%4z%2'' = ''a b%4z''" by code_simp
qed

end
