(* ===== verification/Cookie.thy ===== *)
theory Cookie
  imports Prelude
begin

text \<open>
  \<^verbatim>\<open>src/Cookie.cpp\<close>, \<^verbatim>\<open>include/Cookie.h\<close>: the \<^verbatim>\<open>Set-Cookie\<close> value the worker
  sends. Each class is a record, each constructor, accessor, swap and assignment a definition.
  A \<^verbatim>\<open>const char*\<close> argument is an optional string (\<open>None\<close> is the null pointer); an
  accessor that returns a reference is the update a caller can make through it. The calendar
  functions of Boost that \<^verbatim>\<open>Expires\<close> calls are the record \<open>time_api\<close>, an argument.
\<close>

section \<open>Authority and Path\<close>

definition string_or_empty :: "string option \<Rightarrow> string" where
  "string_or_empty p = (case p of Some s \<Rightarrow> c_str s | None \<Rightarrow> '''')"

record authority = auth_value :: string

definition Authority_default :: authority where
  "Authority_default = \<lparr>auth_value = ''''\<rparr>"

definition Authority_cstr :: "string option \<Rightarrow> authority" where
  "Authority_cstr a = \<lparr>auth_value = string_or_empty a\<rparr>"

definition Authority_string :: "string \<Rightarrow> authority" where
  "Authority_string a = \<lparr>auth_value = a\<rparr>"

definition Authority_copy :: "authority \<Rightarrow> authority" where
  "Authority_copy a = \<lparr>auth_value = auth_value a\<rparr>"

definition Authority_swap :: "authority \<Rightarrow> authority \<Rightarrow> authority \<times> authority" where
  "Authority_swap this a =
     (this\<lparr>auth_value := auth_value a\<rparr>, a\<lparr>auth_value := auth_value this\<rparr>)"

definition Authority_assign :: "authority \<Rightarrow> authority \<Rightarrow> authority" where
  "Authority_assign this a = (let a' = Authority_copy a; (this, a') = Authority_swap this a' in this)"

definition Authority_empty :: "authority \<Rightarrow> bool" where
  "Authority_empty a \<longleftrightarrow> auth_value a = ''''"

definition Authority_call :: "authority \<Rightarrow> string" where
  "Authority_call a = auth_value a"

record path = path_value :: string

definition Path_default :: path where
  "Path_default = \<lparr>path_value = ''''\<rparr>"

definition Path_cstr :: "string option \<Rightarrow> path" where
  "Path_cstr p = \<lparr>path_value = string_or_empty p\<rparr>"

definition Path_string :: "string \<Rightarrow> path" where
  "Path_string p = \<lparr>path_value = p\<rparr>"

definition Path_copy :: "path \<Rightarrow> path" where
  "Path_copy p = \<lparr>path_value = path_value p\<rparr>"

definition Path_swap :: "path \<Rightarrow> path \<Rightarrow> path \<times> path" where
  "Path_swap this p = (this\<lparr>path_value := path_value p\<rparr>, p\<lparr>path_value := path_value this\<rparr>)"

definition Path_assign :: "path \<Rightarrow> path \<Rightarrow> path" where
  "Path_assign this p = (let p' = Path_copy p; (this, p') = Path_swap this p' in this)"

definition Path_empty :: "path \<Rightarrow> bool" where
  "Path_empty p \<longleftrightarrow> path_value p = ''''"

definition Path_call :: "path \<Rightarrow> string" where
  "Path_call p = path_value p"

section \<open>Expires\<close>

text \<open>\<^verbatim>\<open>struct tm\<close>, the fields the constructor reads.\<close>

record tm =
  tm_year :: int
  tm_mon :: int
  tm_mday :: int
  tm_hour :: int
  tm_min :: int
  tm_sec :: int

text \<open>
  The Boost calls: parsing, the epoch, the calendar date (both may throw) and the time facet
  that prints \<^verbatim>\<open>%a, %d-%b-%Y %T GMT\<close>.
\<close>

record 'ptime time_api =
  time_from_string :: "string \<Rightarrow> 'ptime outcome"
  from_time_t :: "int \<Rightarrow> 'ptime"
  ptime_of_fields :: "int \<Rightarrow> int \<Rightarrow> int \<Rightarrow> int \<Rightarrow> int \<Rightarrow> int \<Rightarrow> 'ptime outcome"
  facet_format :: "string \<Rightarrow> 'ptime \<Rightarrow> string outcome"

definition convert :: "'ptime time_api \<Rightarrow> 'ptime \<Rightarrow> string outcome" where
  "convert api t = facet_format api ''%a, %d-%b-%Y %T GMT'' t"

record expires = expires_value :: string

definition Expires_default :: expires where
  "Expires_default = \<lparr>expires_value = ''''\<rparr>"

definition Expires_string :: "'ptime time_api \<Rightarrow> string \<Rightarrow> expires outcome" where
  "Expires_string api e =
     obind (time_from_string api e) (\<lambda>t. obind (convert api t) (\<lambda>s. Ok \<lparr>expires_value = s\<rparr>))"

definition Expires_time_t :: "'ptime time_api \<Rightarrow> int \<Rightarrow> expires outcome" where
  "Expires_time_t api t = obind (convert api (from_time_t api t)) (\<lambda>s. Ok \<lparr>expires_value = s\<rparr>)"

definition Expires_tm :: "'ptime time_api \<Rightarrow> tm \<Rightarrow> expires outcome" where
  "Expires_tm api tm =
     obind (ptime_of_fields api (tm_year tm) (tm_mon tm) (tm_mday tm) (tm_hour tm) (tm_min tm) (tm_sec tm))
       (\<lambda>t. obind (convert api t) (\<lambda>s. Ok \<lparr>expires_value = s\<rparr>))"

definition Expires_ptime :: "'ptime time_api \<Rightarrow> 'ptime \<Rightarrow> expires outcome" where
  "Expires_ptime api t = obind (convert api t) (\<lambda>s. Ok \<lparr>expires_value = s\<rparr>)"

definition Expires_copy :: "expires \<Rightarrow> expires" where
  "Expires_copy e = \<lparr>expires_value = expires_value e\<rparr>"

definition Expires_assign :: "expires \<Rightarrow> expires \<Rightarrow> expires" where
  "Expires_assign this e = this\<lparr>expires_value := expires_value e\<rparr>"

definition Expires_swap :: "expires \<Rightarrow> expires \<Rightarrow> expires \<times> expires" where
  "Expires_swap this e =
     (this\<lparr>expires_value := expires_value e\<rparr>, e\<lparr>expires_value := expires_value this\<rparr>)"

definition Expires_bool :: "expires \<Rightarrow> bool" where
  "Expires_bool e \<longleftrightarrow> \<not> expires_value e = ''''"

definition Expires_empty :: "expires \<Rightarrow> bool" where
  "Expires_empty e \<longleftrightarrow> expires_value e = ''''"

definition Expires_call :: "expires \<Rightarrow> string" where
  "Expires_call e = expires_value e"

section \<open>Credentials\<close>

record credentials =
  cr_authority :: authority
  cr_path :: path
  cr_expires :: expires
  cr_persist :: bool
  cr_secure :: bool

definition Credentials_default :: credentials where
  "Credentials_default =
     \<lparr>cr_authority = Authority_default, cr_path = Path_default, cr_expires = Expires_default,
      cr_persist = False, cr_secure = False\<rparr>"

definition Credentials_authority :: "authority \<Rightarrow> credentials" where
  "Credentials_authority a =
     \<lparr>cr_authority = Authority_copy a, cr_path = Path_default, cr_expires = Expires_default,
      cr_persist = False, cr_secure = False\<rparr>"

definition Credentials_path :: "path \<Rightarrow> credentials" where
  "Credentials_path p =
     \<lparr>cr_authority = Authority_default, cr_path = Path_copy p, cr_expires = Expires_default,
      cr_persist = False, cr_secure = False\<rparr>"

definition Credentials_expires :: "expires \<Rightarrow> credentials" where
  "Credentials_expires e =
     \<lparr>cr_authority = Authority_default, cr_path = Path_default, cr_expires = Expires_copy e,
      cr_persist = True, cr_secure = False\<rparr>"

definition Credentials_authority_path :: "authority \<Rightarrow> path \<Rightarrow> credentials" where
  "Credentials_authority_path a p =
     \<lparr>cr_authority = Authority_copy a, cr_path = Path_copy p, cr_expires = Expires_default,
      cr_persist = False, cr_secure = False\<rparr>"

definition Credentials_authority_path_expires :: "authority \<Rightarrow> path \<Rightarrow> expires \<Rightarrow> credentials" where
  "Credentials_authority_path_expires a p e =
     \<lparr>cr_authority = Authority_copy a, cr_path = Path_copy p, cr_expires = Expires_copy e,
      cr_persist = True, cr_secure = False\<rparr>"

definition Credentials_copy :: "credentials \<Rightarrow> credentials" where
  "Credentials_copy c =
     \<lparr>cr_authority = Authority_copy (cr_authority c), cr_path = Path_copy (cr_path c),
      cr_expires = Expires_copy (cr_expires c), cr_persist = cr_persist c, cr_secure = cr_secure c\<rparr>"

definition Credentials_swap :: "credentials \<Rightarrow> credentials \<Rightarrow> credentials \<times> credentials" where
  "Credentials_swap this c =
     (let (a, a') = Authority_swap (cr_authority this) (cr_authority c);
          (p, p') = Path_swap (cr_path this) (cr_path c);
          (e, e') = Expires_swap (cr_expires this) (cr_expires c) in
      (this\<lparr>cr_authority := a, cr_path := p, cr_expires := e,
            cr_persist := cr_persist c, cr_secure := cr_secure c\<rparr>,
       c\<lparr>cr_authority := a', cr_path := p', cr_expires := e',
         cr_persist := cr_persist this, cr_secure := cr_secure this\<rparr>))"

definition Credentials_assign :: "credentials \<Rightarrow> credentials \<Rightarrow> credentials" where
  "Credentials_assign this c = (let c' = Credentials_copy c; (this, c') = Credentials_swap this c' in this)"

definition Credentials_authority_ref :: "(authority \<Rightarrow> authority) \<Rightarrow> credentials \<Rightarrow> credentials" where
  "Credentials_authority_ref f c = c\<lparr>cr_authority := f (cr_authority c)\<rparr>"

definition Credentials_path_ref :: "(path \<Rightarrow> path) \<Rightarrow> credentials \<Rightarrow> credentials" where
  "Credentials_path_ref f c = c\<lparr>cr_path := f (cr_path c)\<rparr>"

definition Credentials_expires_ref :: "(expires \<Rightarrow> expires) \<Rightarrow> credentials \<Rightarrow> credentials" where
  "Credentials_expires_ref f c =
     (let c = c\<lparr>cr_persist := True\<rparr> in c\<lparr>cr_expires := f (cr_expires c)\<rparr>)"

definition Credentials_secure_ref :: "(bool \<Rightarrow> bool) \<Rightarrow> credentials \<Rightarrow> credentials" where
  "Credentials_secure_ref f c = c\<lparr>cr_secure := f (cr_secure c)\<rparr>"

definition Credentials_to_string :: "credentials \<Rightarrow> string" where
  "Credentials_to_string c =
     ''Path='' @ Path_call (cr_path c) @ ''; Version=1; Max-Age=31536000; Domain='' @
     Authority_call (cr_authority c) @ ''; HttpOnly;''"

section \<open>Cookie\<close>

record cookie =
  ck_name :: string
  ck_value :: string
  ck_credentials :: credentials

text \<open>A \<^verbatim>\<open>std::string\<close> made from a \<^verbatim>\<open>const char*\<close>: the pointer must not be null.\<close>

definition string_of_cstr :: "string option \<Rightarrow> string outcome" where
  "string_of_cstr p = (case p of Some s \<Rightarrow> Ok (c_str s) | None \<Rightarrow> Fault NullDeref)"

definition Cookie_default :: cookie where
  "Cookie_default = \<lparr>ck_name = '''', ck_value = '''', ck_credentials = Credentials_default\<rparr>"

definition Cookie_cstr :: "string option \<Rightarrow> cookie outcome" where
  "Cookie_cstr name =
     obind (string_of_cstr name) (\<lambda>n.
       Ok \<lparr>ck_name = n, ck_value = '''', ck_credentials = Credentials_default\<rparr>)"

definition Cookie_cstr_credentials :: "string option \<Rightarrow> credentials \<Rightarrow> cookie outcome" where
  "Cookie_cstr_credentials name c =
     obind (string_of_cstr name) (\<lambda>n.
       Ok \<lparr>ck_name = n, ck_value = '''', ck_credentials = Credentials_copy c\<rparr>)"

definition Cookie_cstr_cstr :: "string option \<Rightarrow> string option \<Rightarrow> cookie outcome" where
  "Cookie_cstr_cstr name val =
     obind (string_of_cstr name) (\<lambda>n. obind (string_of_cstr val) (\<lambda>v.
       Ok \<lparr>ck_name = n, ck_value = v, ck_credentials = Credentials_default\<rparr>))"

definition Cookie_cstr_cstr_credentials ::
  "string option \<Rightarrow> string option \<Rightarrow> credentials \<Rightarrow> cookie outcome" where
  "Cookie_cstr_cstr_credentials name val c =
     obind (string_of_cstr name) (\<lambda>n. obind (string_of_cstr val) (\<lambda>v.
       Ok \<lparr>ck_name = n, ck_value = v, ck_credentials = Credentials_copy c\<rparr>))"

definition Cookie_name :: "string \<Rightarrow> cookie" where
  "Cookie_name n = \<lparr>ck_name = n, ck_value = '''', ck_credentials = Credentials_default\<rparr>"

definition Cookie_name_credentials :: "string \<Rightarrow> credentials \<Rightarrow> cookie" where
  "Cookie_name_credentials n c = \<lparr>ck_name = n, ck_value = '''', ck_credentials = Credentials_copy c\<rparr>"

definition Cookie_name_value :: "string \<Rightarrow> string \<Rightarrow> cookie" where
  "Cookie_name_value n v = \<lparr>ck_name = n, ck_value = v, ck_credentials = Credentials_default\<rparr>"

definition Cookie_name_value_credentials :: "string \<Rightarrow> string \<Rightarrow> credentials \<Rightarrow> cookie" where
  "Cookie_name_value_credentials n v c =
     \<lparr>ck_name = n, ck_value = v, ck_credentials = Credentials_copy c\<rparr>"

definition Cookie_copy :: "cookie \<Rightarrow> cookie" where
  "Cookie_copy c =
     \<lparr>ck_name = ck_name c, ck_value = ck_value c, ck_credentials = Credentials_copy (ck_credentials c)\<rparr>"

definition Cookie_swap :: "cookie \<Rightarrow> cookie \<Rightarrow> cookie \<times> cookie" where
  "Cookie_swap this c =
     (let (cr, cr') = Credentials_swap (ck_credentials this) (ck_credentials c) in
      (this\<lparr>ck_name := ck_name c, ck_value := ck_value c, ck_credentials := cr\<rparr>,
       c\<lparr>ck_name := ck_name this, ck_value := ck_value this, ck_credentials := cr'\<rparr>))"

definition Cookie_assign :: "cookie \<Rightarrow> cookie \<Rightarrow> cookie" where
  "Cookie_assign this c = (let c' = Cookie_copy c; (this, c') = Cookie_swap this c' in this)"

definition Cookie_credentials_ref :: "(credentials \<Rightarrow> credentials) \<Rightarrow> cookie \<Rightarrow> cookie" where
  "Cookie_credentials_ref f c = c\<lparr>ck_credentials := f (ck_credentials c)\<rparr>"

definition Cookie_to_string :: "cookie \<Rightarrow> string" where
  "Cookie_to_string c =
     ck_name c @ ''='' @ ck_value c @ ''; '' @ Credentials_to_string (ck_credentials c)"

section \<open>Assignment\<close>

text \<open>The four copy-and-swap classes keep the contract of their assignment operator.\<close>

interpretation authority: copy_swap Authority_copy Authority_swap
  by unfold_locales (simp_all add: Authority_copy_def Authority_swap_def)

interpretation path: copy_swap Path_copy Path_swap
  by unfold_locales (simp_all add: Path_copy_def Path_swap_def)

interpretation credentials: copy_swap Credentials_copy Credentials_swap
  by unfold_locales
    (simp_all add: Credentials_copy_def Credentials_swap_def authority.copy_same path.copy_same
      authority.swap_exchanges path.swap_exchanges Expires_copy_def Expires_swap_def)

interpretation cookie: copy_swap Cookie_copy Cookie_swap
  by unfold_locales
    (simp_all add: Cookie_copy_def Cookie_swap_def credentials.copy_same credentials.swap_exchanges)

lemma Credentials_assign_eq: "Credentials_assign this c = c"
  using credentials.assign_value [of this c] by (simp add: Credentials_assign_def Let_def split_beta)

lemma Cookie_assign_eq: "Cookie_assign this c = c"
  using cookie.assign_value [of this c] by (simp add: Cookie_assign_def Let_def split_beta)

section \<open>Which credentials a program can build\<close>

text \<open>
  Every way the public interface of \<^verbatim>\<open>Credentials\<close> offers to make or change an object.
\<close>

inductive built :: "credentials \<Rightarrow> bool" where
  built_default: "built Credentials_default"
| built_authority: "built (Credentials_authority a)"
| built_path: "built (Credentials_path p)"
| built_expires: "built (Credentials_expires e)"
| built_authority_path: "built (Credentials_authority_path a p)"
| built_all: "built (Credentials_authority_path_expires a p e)"
| built_copy: "built c \<Longrightarrow> built (Credentials_copy c)"
| built_assign: "built c \<Longrightarrow> built d \<Longrightarrow> built (Credentials_assign c d)"
| built_swap: "built c \<Longrightarrow> built d \<Longrightarrow> built (fst (Credentials_swap c d))"
| built_authority_ref: "built c \<Longrightarrow> built (Credentials_authority_ref fa c)"
| built_path_ref: "built c \<Longrightarrow> built (Credentials_path_ref fp c)"
| built_expires_ref: "built c \<Longrightarrow> built (Credentials_expires_ref fe c)"
| built_secure_ref: "built c \<Longrightarrow> built (Credentials_secure_ref fs c)"

definition expires_persist :: "credentials \<Rightarrow> bool" where
  "expires_persist c \<longleftrightarrow> (Expires_bool (cr_expires c) \<longrightarrow> cr_persist c)"

lemma built_expires_persist: "built c \<Longrightarrow> expires_persist c"
  by (induction rule: built.induct)
    (simp_all add: expires_persist_def Credentials_default_def Credentials_authority_def
      Credentials_path_def Credentials_expires_def Credentials_authority_path_def
      Credentials_authority_path_expires_def Credentials_assign_eq credentials.copy_same
      credentials.swap_exchanges Credentials_authority_ref_def Credentials_path_ref_def
      Credentials_expires_ref_def Credentials_secure_ref_def Expires_bool_def Expires_default_def)

section \<open>Reading the header value back\<close>

text \<open>The name and value a user agent takes from a \<^verbatim>\<open>Set-Cookie\<close> value.\<close>

definition set_cookie_pair :: "string \<Rightarrow> string \<times> string" where
  "set_cookie_pair h =
     (takeWhile (\<lambda>c. c \<noteq> CHR ''='') h,
      takeWhile (\<lambda>c. c \<noteq> CHR '';'') (tl (dropWhile (\<lambda>c. c \<noteq> CHR ''='') h)))"

lemma takeWhile_stop: "c \<notin> set xs \<Longrightarrow> takeWhile (\<lambda>x. x \<noteq> c) (xs @ c # ys) = xs"
  by (induction xs) auto

lemma dropWhile_stop: "c \<notin> set xs \<Longrightarrow> dropWhile (\<lambda>x. x \<noteq> c) (xs @ c # ys) = c # ys"
  by (induction xs) auto

lemma set_cookie_pair_to_string:
  assumes "CHR ''='' \<notin> set (ck_name c)" and "CHR '';'' \<notin> set (ck_value c)"
  shows "set_cookie_pair (Cookie_to_string c) = (ck_name c, ck_value c)"
  using assms by (simp add: set_cookie_pair_def Cookie_to_string_def takeWhile_stop dropWhile_stop)

section \<open>Properties\<close>

text \<open>Assignment through copy and swap makes the target equal to the source, for every
  class that is assigned this way, self-assignment included; swapping twice restores both.\<close>
theorem cookie_assignment:
  "Cookie_assign x y = y \<and> Credentials_assign k l = l \<and> Path_assign p q = q \<and>
   Authority_assign a b = b \<and> Expires_assign e f = f \<and>
   (case Cookie_swap x y of (x', y') \<Rightarrow> Cookie_swap x' y') = (x, y)"
  using path.assign_value [of p q] authority.assign_value [of a b] cookie.swap_twice [of x y]
  by (simp add: Cookie_assign_eq Credentials_assign_eq Path_assign_def Authority_assign_def
      Expires_assign_def Let_def split_beta)

text \<open>No sequence of public operations leaves an expiry time in credentials that do not
  persist: the constructors and the mutable accessor set the flag together.\<close>
theorem credentials_expiry_persists:
  assumes "built c" and "Expires_bool (cr_expires c)"
  shows "cr_persist c"
  using built_expires_persist [OF assms(1)] assms(2) by (simp add: expires_persist_def)

theorem credentials_expiry_persists_witness:
  "cr_persist (Credentials_expires_ref (\<lambda>e. \<lparr>expires_value = ''x''\<rparr>) (Credentials_path \<lparr>path_value = ''/''\<rparr>))"
  by (rule credentials_expiry_persists [OF built_expires_ref [OF built_path]])
    (simp add: Credentials_expires_ref_def Expires_bool_def)



text \<open>The text sent to the client depends on the name, the value, the path and the domain
  only. The expiry time, the persistence and the secure flag of the credentials are never
  printed: every cookie is announced with a fixed lifetime of one year and without
  \<^verbatim>\<open>Secure\<close>.\<close>
theorem Cookie_to_string_ignores_expiry:
  "Cookie_to_string (Cookie_credentials_ref (Credentials_expires_ref fe) c) = Cookie_to_string c \<and>
   Cookie_to_string (Cookie_credentials_ref (Credentials_secure_ref fs) c) = Cookie_to_string c"
  by (simp add: Cookie_to_string_def Credentials_to_string_def Cookie_credentials_ref_def
      Credentials_expires_ref_def Credentials_secure_ref_def Let_def)

end
