(* ===== verification/EBranch.thy ===== *)
theory EBranch
  imports Prelude
begin

text \<open>
  \<^verbatim>\<open>include/EBranch.h\<close>, \<^verbatim>\<open>src/EBranch.cpp\<close>: the logical branches under which an
  offer is chosen and the names under which they are logged.
\<close>

datatype EBranchT = T1 | T2 | T3 | T4 | T5 | TMAX

datatype EBranchL =
  L0 | L1 | L2 | L3 | L4 | L5 | L6 | L7 | L8 | L9 | L10 | L11 | L12 | L13 | L14 | L15
  | L16 | L17 | L18 | L19 | L20 | L21 | L22 | L23 | L24 | L25 | L26 | L27 | L28 | L29
  | L30 | L31 | L32 | L33 | L34 | L35 | L36 | L37 | LMAX

text \<open>The value of an enumerator: its position, as the enumeration gives none explicitly.\<close>

primrec EBranchL_value :: "EBranchL \<Rightarrow> nat" where
  "EBranchL_value L0 = 0"
| "EBranchL_value L1 = 1"
| "EBranchL_value L2 = 2"
| "EBranchL_value L3 = 3"
| "EBranchL_value L4 = 4"
| "EBranchL_value L5 = 5"
| "EBranchL_value L6 = 6"
| "EBranchL_value L7 = 7"
| "EBranchL_value L8 = 8"
| "EBranchL_value L9 = 9"
| "EBranchL_value L10 = 10"
| "EBranchL_value L11 = 11"
| "EBranchL_value L12 = 12"
| "EBranchL_value L13 = 13"
| "EBranchL_value L14 = 14"
| "EBranchL_value L15 = 15"
| "EBranchL_value L16 = 16"
| "EBranchL_value L17 = 17"
| "EBranchL_value L18 = 18"
| "EBranchL_value L19 = 19"
| "EBranchL_value L20 = 20"
| "EBranchL_value L21 = 21"
| "EBranchL_value L22 = 22"
| "EBranchL_value L23 = 23"
| "EBranchL_value L24 = 24"
| "EBranchL_value L25 = 25"
| "EBranchL_value L26 = 26"
| "EBranchL_value L27 = 27"
| "EBranchL_value L28 = 28"
| "EBranchL_value L29 = 29"
| "EBranchL_value L30 = 30"
| "EBranchL_value L31 = 31"
| "EBranchL_value L32 = 32"
| "EBranchL_value L33 = 33"
| "EBranchL_value L34 = 34"
| "EBranchL_value L35 = 35"
| "EBranchL_value L36 = 36"
| "EBranchL_value L37 = 37"
| "EBranchL_value LMAX = 38"

primrec EBranchL2String :: "EBranchL \<Rightarrow> string" where
  "EBranchL2String L0 = ''NL0''"
| "EBranchL2String L1 = ''NL1''"
| "EBranchL2String L2 = ''NL2''"
| "EBranchL2String L3 = ''NL3''"
| "EBranchL2String L4 = ''NL4''"
| "EBranchL2String L5 = ''NL5''"
| "EBranchL2String L6 = ''NL6''"
| "EBranchL2String L7 = ''NL7''"
| "EBranchL2String L8 = ''NL8''"
| "EBranchL2String L9 = ''NL9''"
| "EBranchL2String L10 = ''NL10''"
| "EBranchL2String L11 = ''NL11''"
| "EBranchL2String L12 = ''NL12''"
| "EBranchL2String L13 = ''NL13''"
| "EBranchL2String L14 = ''NL14''"
| "EBranchL2String L15 = ''NL15''"
| "EBranchL2String L16 = ''NL16''"
| "EBranchL2String L17 = ''NL17''"
| "EBranchL2String L18 = ''NL18''"
| "EBranchL2String L19 = ''NL19''"
| "EBranchL2String L20 = ''NL20''"
| "EBranchL2String L21 = ''NL21''"
| "EBranchL2String L22 = ''NL22''"
| "EBranchL2String L23 = ''NL23''"
| "EBranchL2String L24 = ''NL24''"
| "EBranchL2String L25 = ''NL25''"
| "EBranchL2String L26 = ''NL26''"
| "EBranchL2String L27 = ''NL27''"
| "EBranchL2String L28 = ''NL28''"
| "EBranchL2String L29 = ''NL29''"
| "EBranchL2String L30 = ''NL30''"
| "EBranchL2String L31 = ''NL31''"
| "EBranchL2String L32 = ''NL32''"
| "EBranchL2String L33 = ''NL33''"
| "EBranchL2String L34 = ''NL34''"
| "EBranchL2String L35 = ''NL35''"
| "EBranchL2String L36 = ''NL36''"
| "EBranchL2String L37 = ''NL37''"
| "EBranchL2String LMAX = ''NOP''"

lemma EBranchL_value_inject: "EBranchL_value a = EBranchL_value b \<Longrightarrow> a = b"
  by (cases a) (cases b, simp_all)+

text \<open>Enumerators of a scoped enumeration compare by their values.\<close>

instantiation EBranchL :: linorder
begin

definition less_eq_EBranchL :: "EBranchL \<Rightarrow> EBranchL \<Rightarrow> bool" where
  "less_eq_EBranchL a b \<longleftrightarrow> EBranchL_value a \<le> EBranchL_value b"

definition less_EBranchL :: "EBranchL \<Rightarrow> EBranchL \<Rightarrow> bool" where
  "less_EBranchL a b \<longleftrightarrow> EBranchL_value a < EBranchL_value b"

instance
  by standard (auto simp: less_eq_EBranchL_def less_EBranchL_def intro: EBranchL_value_inject)

end

lemma EBranchL2String_decimal:
  "EBranchL2String b = (if b < LMAX then ''NL'' @ dec_nat (EBranchL_value b) else ''NOP'')"
  by (cases b) (simp_all add: less_EBranchL_def, (code_simp)+)

text \<open>Every branch below \<^verbatim>\<open>LMAX\<close> is logged as \<^verbatim>\<open>NL\<close> and the decimal value
  of its enumerator, and no two enumerators share a name, the catch-all \<^verbatim>\<open>NOP\<close> included, so
  a log line identifies its branch.\<close>
theorem EBranchL2String_names:
  "EBranchL2String b = (if b < LMAX then ''NL'' @ dec_nat (EBranchL_value b) else ''NOP'') \<and>
   inj EBranchL2String"
proof
  show "EBranchL2String b = (if b < LMAX then ''NL'' @ dec_nat (EBranchL_value b) else ''NOP'')"
    by (rule EBranchL2String_decimal)
  show "inj EBranchL2String"
  proof (rule injI)
    fix x y assume "EBranchL2String x = EBranchL2String y"
    then show "x = y" by (cases x) (cases y, simp_all)+
  qed
qed

end
