(* ===== verification/Json.thy ===== *)
theory Json
  imports StdMap
begin

text \<open>
  The part of \<^verbatim>\<open>include/json.h\<close> (the JSON library kept in the repository) that the
  worker calls: the values, the element access that builds an object, the serializer with its
  in-place string escaping, and the reading of a string token, which undoes that escaping. How a
  stream prints a non-zero \<^verbatim>\<open>double\<close> is the argument \<open>show_double\<close>.
\<close>

section \<open>Values\<close>

text \<open>
  \<^verbatim>\<open>value_t\<close> with the value it selects. Integers keep their 64 bits, a float is its sign
  bit and its value (infinities and NaN become null when a number is read), an object is its
  \<^verbatim>\<open>std::map\<close>.
\<close>

datatype json =
    JNull
  | JObject "(string \<times> json) list"
  | JArray "json list"
  | JString string
  | JBoolean bool
  | JInteger u64
  | JUnsigned u64
  | JFloat bool rat
  | JDiscarded

fun json_type_name :: "json \<Rightarrow> string" where
  "json_type_name JNull = ''null''"
| "json_type_name (JObject _) = ''object''"
| "json_type_name (JArray _) = ''array''"
| "json_type_name (JString _) = ''string''"
| "json_type_name (JBoolean _) = ''boolean''"
| "json_type_name JDiscarded = ''discarded''"
| "json_type_name _ = ''number''"

text \<open>\<^verbatim>\<open>j[key] = v\<close>: a null value first becomes an empty object.\<close>

definition json_assign :: "json \<Rightarrow> string \<Rightarrow> json \<Rightarrow> json outcome" where
  "json_assign j key v =
     (case (if j = JNull then JObject [] else j) of
        JObject m \<Rightarrow> Ok (JObject (map_put m key v))
      | j' \<Rightarrow> Throw (''cannot use operator[] with '' @ json_type_name j'))"

fun json_assigns :: "json \<Rightarrow> (string \<times> json) list \<Rightarrow> json outcome" where
  "json_assigns j [] = Ok j"
| "json_assigns j ((k, v) # kvs) = obind (json_assign j k v) (\<lambda>j'. json_assigns j' kvs)"

fun json_is_number :: "json \<Rightarrow> bool" where
  "json_is_number (JInteger _) = True"
| "json_is_number (JUnsigned _) = True"
| "json_is_number (JFloat _ _) = True"
| "json_is_number _ = False"

fun json_get_string :: "json \<Rightarrow> string outcome" where
  "json_get_string (JString s) = Ok s"
| "json_get_string j = Throw (''type must be string, but is '' @ json_type_name j)"

fun json_get_bool :: "json \<Rightarrow> bool outcome" where
  "json_get_bool (JBoolean b) = Ok b"
| "json_get_bool j = Throw (''type must be boolean, but is '' @ json_type_name j)"

section \<open>Escaping a string\<close>

definition is_control :: "char \<Rightarrow> bool" where
  "is_control c \<longleftrightarrow> c \<le> CHR 0x1F"

fun extra_space_char :: "char \<Rightarrow> nat" where
  "extra_space_char c =
     (if c \<in> {CHR 0x22, CHR 0x5C, CHR 0x08, CHR 0x0C, CHR 0x0A, CHR 0x0D, CHR 0x09} then 1
      else if is_control c then 5 else 0)"

definition extra_space :: "string \<Rightarrow> nat" where
  "extra_space s = fold (\<lambda>c res. res + extra_space_char c) s 0"

definition hexify :: "nat \<Rightarrow> char" where
  "hexify d = ''0123456789abcdef'' ! d"

text \<open>
  The loop of \<^verbatim>\<open>escape_string\<close>: a buffer that was filled with backslashes is
  overwritten at \<open>pos\<close>, which then advances.
\<close>

fun escape_loop :: "string \<Rightarrow> string \<Rightarrow> nat \<Rightarrow> string" where
  "escape_loop [] result pos = result"
| "escape_loop (c # s) result pos =
    (if c = CHR 0x22 then escape_loop s (result[pos + 1 := CHR 0x22]) (pos + 2)
     else if c = CHR 0x5C then escape_loop s result (pos + 2)
     else if c = CHR 0x08 then escape_loop s (result[pos + 1 := CHR ''b'']) (pos + 2)
     else if c = CHR 0x0C then escape_loop s (result[pos + 1 := CHR ''f'']) (pos + 2)
     else if c = CHR 0x0A then escape_loop s (result[pos + 1 := CHR ''n'']) (pos + 2)
     else if c = CHR 0x0D then escape_loop s (result[pos + 1 := CHR ''r'']) (pos + 2)
     else if c = CHR 0x09 then escape_loop s (result[pos + 1 := CHR ''t'']) (pos + 2)
     else if is_control c then
       escape_loop s
         (result[pos + 1 := CHR ''u'', pos + 2 := CHR ''0'', pos + 3 := CHR ''0'',
                 pos + 4 := hexify (drop_bit 4 (of_char c)), pos + 5 := hexify (of_char c AND 0x0f)])
         (pos + 6)
     else escape_loop s (result[pos := c]) (pos + 1))"

definition escape_string :: "string \<Rightarrow> string" where
  "escape_string s =
     (let space = extra_space s in
      if space = 0 then s else escape_loop s (replicate (length s + space) (CHR 0x5C)) 0)"

section \<open>Serialization\<close>

fun dump_value :: "(rat \<Rightarrow> string) \<Rightarrow> bool \<Rightarrow> nat \<Rightarrow> nat \<Rightarrow> json \<Rightarrow> string"
and dump_members :: "(rat \<Rightarrow> string) \<Rightarrow> bool \<Rightarrow> nat \<Rightarrow> nat \<Rightarrow> bool \<Rightarrow> (string \<times> json) list \<Rightarrow> string"
and dump_elements :: "(rat \<Rightarrow> string) \<Rightarrow> bool \<Rightarrow> nat \<Rightarrow> nat \<Rightarrow> bool \<Rightarrow> json list \<Rightarrow> string" where
  "dump_value sd pretty step cur (JObject m) =
     (if m = [] then ''{}''
      else
        (let new = (if pretty then cur + step else cur) in
         ''{'' @ (if pretty then [CHR 0x0A] else '''') @ dump_members sd pretty step new True m @
         (if pretty then [CHR 0x0A] else '''') @ replicate cur (CHR '' '') @ ''}''))"
| "dump_value sd pretty step cur (JArray a) =
     (if a = [] then ''[]''
      else
        (let new = (if pretty then cur + step else cur) in
         ''['' @ (if pretty then [CHR 0x0A] else '''') @ dump_elements sd pretty step new True a @
         (if pretty then [CHR 0x0A] else '''') @ replicate cur (CHR '' '') @ '']''))"
| "dump_value sd pretty step cur (JString s) = [CHR 0x22] @ escape_string s @ [CHR 0x22]"
| "dump_value sd pretty step cur (JBoolean b) = (if b then ''true'' else ''false'')"
| "dump_value sd pretty step cur (JInteger i) = dec_int (sint i)"
| "dump_value sd pretty step cur (JUnsigned u) = dec_nat (unat u)"
| "dump_value sd pretty step cur (JFloat neg r) =
     (if r = 0 then (if neg then ''-0.0'' else ''0.0'') else sd r)"
| "dump_value sd pretty step cur JDiscarded = ''<discarded>''"
| "dump_value sd pretty step cur JNull = ''null''"
| "dump_members sd pretty step new first [] = ''''"
| "dump_members sd pretty step new first ((k, v) # m) =
     (if first then '''' else if pretty then [CHR '','', CHR 0x0A] else '','') @
     replicate new (CHR '' '') @ [CHR 0x22] @ escape_string k @ [CHR 0x22, CHR '':''] @
     (if pretty then '' '' else '''') @ dump_value sd pretty step new v @
     dump_members sd pretty step new False m"
| "dump_elements sd pretty step new first [] = ''''"
| "dump_elements sd pretty step new first (v # a) =
     (if first then '''' else if pretty then [CHR '','', CHR 0x0A] else '','') @
     replicate new (CHR '' '') @ dump_value sd pretty step new v @
     dump_elements sd pretty step new False a"

text \<open>\<^verbatim>\<open>dump(indent)\<close>; the worker calls it with the default, a negative indent.\<close>

definition json_dump :: "(rat \<Rightarrow> string) \<Rightarrow> int \<Rightarrow> json \<Rightarrow> string" where
  "json_dump sd indent j =
     (if 0 \<le> indent then dump_value sd True (nat indent) 0 j else dump_value sd False 0 0 j)"

section \<open>Reading a string token\<close>

definition utf8_tail :: "nat \<Rightarrow> nat \<Rightarrow> char" where
  "utf8_tail shift codepoint = char_of (0x80 OR (drop_bit shift codepoint AND 0x3F))"

definition to_unicode :: "nat \<Rightarrow> nat \<Rightarrow> string outcome" where
  "to_unicode codepoint1 codepoint2 =
    obind
      (if 0xD800 \<le> codepoint1 \<and> codepoint1 \<le> 0xDBFF then
         (if 0xDC00 \<le> codepoint2 \<and> codepoint2 \<le> 0xDFFF
          then Ok (push_bit 10 codepoint1 + codepoint2 - 0x35FDC00)
          else Throw ''missing or wrong low surrogate'')
       else Ok codepoint1)
      (\<lambda>codepoint.
        if codepoint < 0x80 then Ok [char_of codepoint]
        else if codepoint \<le> 0x7ff then
          Ok [char_of (0xC0 OR (drop_bit 6 codepoint AND 0x1F)), utf8_tail 0 codepoint]
        else if codepoint \<le> 0xffff then
          Ok [char_of (0xE0 OR (drop_bit 12 codepoint AND 0x0F)), utf8_tail 6 codepoint,
              utf8_tail 0 codepoint]
        else if codepoint \<le> 0x10ffff then
          Ok [char_of (0xF0 OR (drop_bit 18 codepoint AND 0x07)), utf8_tail 12 codepoint,
              utf8_tail 6 codepoint, utf8_tail 0 codepoint]
        else Throw ''code points above 0x10FFFF are invalid'')"

text \<open>\<^verbatim>\<open>strtoul(x, nullptr, 16)\<close> on up to four hexadecimal digits.\<close>

definition hex_value :: "char \<Rightarrow> nat option" where
  "hex_value c =
     (if is_digit c then Some (of_char c - 48)
      else if CHR ''a'' \<le> c \<and> c \<le> CHR ''f'' then Some (of_char c - 87)
      else if CHR ''A'' \<le> c \<and> c \<le> CHR ''F'' then Some (of_char c - 55)
      else None)"

fun strtoul16 :: "nat \<Rightarrow> string \<Rightarrow> nat" where
  "strtoul16 acc [] = acc"
| "strtoul16 acc (c # s) =
     (case hex_value c of Some d \<Rightarrow> strtoul16 (16 * acc + d) s | None \<Rightarrow> acc)"

text \<open>
  \<^verbatim>\<open>get_string\<close> on the bytes between the quotes of a string token. The scanner admits a
  token only if every backslash starts a known escape and every \<^verbatim>\<open>u\<close> is followed by four
  hexadecimal digits; on such tokens the reads stay inside it.
\<close>

function get_string_loop :: "string \<Rightarrow> string \<Rightarrow> string outcome" where
  "get_string_loop [] result = Ok result"
| "get_string_loop (c # s) result =
    (if c \<noteq> CHR 0x5C then
       get_string_loop (dropWhile (\<lambda>x. x \<noteq> CHR 0x5C) (c # s))
         (result @ takeWhile (\<lambda>x. x \<noteq> CHR 0x5C) (c # s))
     else case s of
       [] \<Rightarrow> Ok (result @ [CHR 0x22])
     | x # s' \<Rightarrow>
        (if x = CHR ''t'' then get_string_loop s' (result @ [CHR 0x09])
         else if x = CHR ''b'' then get_string_loop s' (result @ [CHR 0x08])
         else if x = CHR ''f'' then get_string_loop s' (result @ [CHR 0x0C])
         else if x = CHR ''n'' then get_string_loop s' (result @ [CHR 0x0A])
         else if x = CHR ''r'' then get_string_loop s' (result @ [CHR 0x0D])
         else if x = CHR 0x5C then get_string_loop s' (result @ [CHR 0x5C])
         else if x = CHR ''/'' then get_string_loop s' (result @ ''/'')
         else if x = CHR 0x22 then get_string_loop s' (result @ [CHR 0x22])
         else if x = CHR ''u'' then
           (let codepoint = strtoul16 0 (take 4 s') in
            if 0xD800 \<le> codepoint \<and> codepoint \<le> 0xDBFF then
              (if take 2 (drop 4 s') \<noteq> [CHR 0x5C, CHR ''u''] then Throw ''missing low surrogate''
               else
                 obind (to_unicode codepoint (strtoul16 0 (take 4 (drop 6 s'))))
                   (\<lambda>u. get_string_loop (drop 10 s') (result @ u)))
            else if 0xDC00 \<le> codepoint \<and> codepoint \<le> 0xDFFF then Throw ''missing high surrogate''
            else obind (to_unicode codepoint 0) (\<lambda>u. get_string_loop (drop 4 s') (result @ u)))
         else get_string_loop s' result))"
  by pat_completeness auto
termination
  by (relation "measure (\<lambda>(s, _). length s)")
    (auto simp: le_imp_less_Suc length_dropWhile_le)

definition get_string :: "string \<Rightarrow> string outcome" where
  "get_string token = get_string_loop token []"

section \<open>Escaping, one character at a time\<close>

text \<open>The reference: every byte is replaced by its escape, independently of the others.\<close>

definition short_escape :: "char \<Rightarrow> char option" where
  "short_escape c =
    (if c \<in> {CHR 0x22, CHR 0x5C} then Some c
     else if c = CHR 0x08 then Some (CHR ''b'')
     else if c = CHR 0x0C then Some (CHR ''f'')
     else if c = CHR 0x0A then Some (CHR ''n'')
     else if c = CHR 0x0D then Some (CHR ''r'')
     else if c = CHR 0x09 then Some (CHR ''t'') else None)"

definition esc_char :: "char \<Rightarrow> string" where
  "esc_char c =
    (case short_escape c of
       Some x \<Rightarrow> [CHR 0x5C, x]
     | None \<Rightarrow>
        if is_control c
        then CHR 0x5C # ''u00'' @ [hexify (of_char c div 16), hexify (of_char c mod 16)]
        else [c])"

lemma short_escape_None:
  "short_escape c = None \<longleftrightarrow> c \<notin> {CHR 0x22, CHR 0x5C, CHR 0x08, CHR 0x0C, CHR 0x0A, CHR 0x0D, CHR 0x09}"
  by (simp add: short_escape_def)

lemma esc_char_cases:
  obtains (short) x where "short_escape c = Some x" "esc_char c = [CHR 0x5C, x]"
    | (control) "c \<notin> {CHR 0x22, CHR 0x5C, CHR 0x08, CHR 0x0C, CHR 0x0A, CHR 0x0D, CHR 0x09}" "is_control c"
        "esc_char c = CHR 0x5C # ''u00'' @ [hexify (of_char c div 16), hexify (of_char c mod 16)]"
    | (plain) "c \<notin> {CHR 0x22, CHR 0x5C, CHR 0x08, CHR 0x0C, CHR 0x0A, CHR 0x0D, CHR 0x09}"
        "\<not> is_control c" "esc_char c = [c]"
  by (cases "short_escape c"; cases "is_control c") (simp_all add: esc_char_def short_escape_None)

lemma extra_space_eq: "extra_space s = sum_list (map extra_space_char s)"
proof -
  have "fold (\<lambda>c res. res + extra_space_char c) s n = n + sum_list (map extra_space_char s)" for n
    by (induction s arbitrary: n) (auto simp del: extra_space_char.simps)
  then show ?thesis by (simp add: extra_space_def)
qed

lemma length_esc_char: "length (esc_char c) = 1 + extra_space_char c"
  by (cases c rule: esc_char_cases) (auto simp: short_escape_def split: if_splits)

lemma nibbles_of_char:
  "drop_bit 4 (of_char c :: nat) = of_char c div 16" "(of_char c :: nat) AND 0x0f = of_char c mod 16"
proof -
  show "drop_bit 4 (of_char c :: nat) = of_char c div 16" by (simp add: drop_bit_eq_div)
  have "(of_char c :: nat) AND mask 4 = of_char c mod 16"
    by (simp only: take_bit_eq_mask [symmetric] take_bit_eq_mod) simp
  then show "(of_char c :: nat) AND 0x0f = of_char c mod 16" by (simp add: mask_eq_exp_minus_1)
qed

lemma escape_loop_short:
  assumes "short_escape c = Some x" and "result ! (pos + 1) = CHR 0x5C"
  shows "escape_loop (c # s) result pos = escape_loop s (result[pos + 1 := x]) (pos + 2)"
proof (cases "c = CHR 0x5C")
  case True
  with assms have "result[pos + 1 := x] = result"
    by (metis list_update_id option.inject short_escape_def insertI1 insert_commute)
  then show ?thesis using True by simp
next
  case False
  with assms(1) show ?thesis unfolding short_escape_def
    by (auto split: if_split_asm)
qed

lemma list_update_six:
  "([b, b, b, b, b, b] @ rest)[1 := u, 2 := v, 3 := w, 4 := x, 5 := y] = [b, u, v, w, x, y] @ rest"
  by (simp add: eval_nat_numeral)

lemma list_update_past: "(xs @ ys)[length xs + k := x] = xs @ ys[k := x]"
  by (simp add: list_update_append)

lemma replicate_six: "replicate 6 b = [b, b, b, b, b, b]"
  by (simp add: eval_nat_numeral)

lemma escape_loop_control:
  assumes "c \<notin> {CHR 0x22, CHR 0x5C, CHR 0x08, CHR 0x0C, CHR 0x0A, CHR 0x0D, CHR 0x09}" and "is_control c"
  shows "escape_loop (c # s) (done @ replicate 6 (CHR 0x5C) @ rest) (length done) =
     escape_loop s ((done @ CHR 0x5C # ''u00'' @ [hexify (of_char c div 16), hexify (of_char c mod 16)]) @ rest)
       (length done + 6)"
proof -
  have "escape_loop (c # s) (done @ replicate 6 (CHR 0x5C) @ rest) (length done) =
      escape_loop s
        (done @ ([CHR 0x5C, CHR 0x5C, CHR 0x5C, CHR 0x5C, CHR 0x5C, CHR 0x5C] @ rest)
          [1 := CHR ''u'', 2 := CHR ''0'', 3 := CHR ''0'', 4 := hexify (of_char c div 16),
           5 := hexify (of_char c mod 16)]) (length done + 6)"
    using assms by (simp only: escape_loop.simps list_update_past replicate_six nibbles_of_char) simp
  then show ?thesis by (simp only: list_update_six) simp
qed

lemma escape_loop_spec:
  "escape_loop s (done @ replicate (length s + extra_space s) (CHR 0x5C)) (length done) =
     done @ concat (map esc_char s)"
proof (induction s arbitrary: "done")
  case Nil
  show ?case by (simp add: extra_space_eq)
next
  case (Cons c s)
  let ?n = "length s + extra_space s"
  let ?m = "length (c # s) + extra_space (c # s)"
  have m: "?m = length (esc_char c) + ?n"
    by (simp add: extra_space_eq length_esc_char del: extra_space_char.simps)
  have IH: "length e = k \<Longrightarrow>
      escape_loop s ((done @ e) @ replicate ?n (CHR 0x5C)) (length done + k) =
        (done @ e) @ concat (map esc_char s)" for e k
    using Cons.IH [of "done @ e"] by simp
  show ?case
  proof (cases c rule: esc_char_cases)
    case (short x)
    have m: "?m = Suc (Suc ?n)" using m short(2) by simp
    have "escape_loop (c # s) (done @ replicate ?m (CHR 0x5C)) (length done) =
        escape_loop s ((done @ replicate ?m (CHR 0x5C))[length done + 1 := x]) (length done + 2)"
      by (rule escape_loop_short [OF short(1)]) (simp only: m, simp add: nth_append)
    also have "\<dots> = escape_loop s ((done @ [CHR 0x5C, x]) @ replicate ?n (CHR 0x5C)) (length done + 2)"
      unfolding m by (simp add: list_update_append)
    finally show ?thesis using IH [of "[CHR 0x5C, x]" 2] short(2) by simp
  next
    case control
    have "?m = 6 + ?n" using m control(3) by simp
    then have "replicate ?m (CHR 0x5C) = replicate 6 (CHR 0x5C) @ replicate ?n (CHR 0x5C)"
      by (simp only: replicate_add)
    then have "escape_loop (c # s) (done @ replicate ?m (CHR 0x5C)) (length done) =
        escape_loop s ((done @ esc_char c) @ replicate ?n (CHR 0x5C)) (length done + 6)"
      by (simp only: control(3) escape_loop_control [OF control(1,2)])
    also have "\<dots> = (done @ esc_char c) @ concat (map esc_char s)"
      by (rule IH) (simp add: control(3))
    finally show ?thesis by simp
  next
    case plain
    have m: "?m = Suc ?n" using m plain(3) by simp
    have "escape_loop (c # s) (done @ replicate ?m (CHR 0x5C)) (length done) =
        escape_loop s ((done @ [c]) @ replicate ?n (CHR 0x5C)) (length done + 1)"
      unfolding m using plain(1,2) by (simp add: list_update_append)
    then show ?thesis using IH [of "[c]" 1] plain(3) by simp
  qed
qed

lemma esc_char_plain: "extra_space_char c = 0 \<Longrightarrow> esc_char c = [c]"
  by (cases c rule: esc_char_cases) (auto simp: short_escape_def split: if_splits)

lemma concat_plain: "extra_space s = 0 \<Longrightarrow> concat (map esc_char s) = s"
  unfolding extra_space_eq by (induction s) (auto simp: esc_char_plain simp del: extra_space_char.simps)

lemma escape_string_eq: "escape_string s = concat (map esc_char s)"
  using escape_loop_spec [of s "[]"] by (simp add: escape_string_def Let_def concat_plain)

section \<open>Reading back what was escaped\<close>

lemma get_string_plain: "c \<noteq> CHR 0x5C \<Longrightarrow> get_string_loop (c # s) r = get_string_loop s (r @ [c])"
proof (cases s)
  case (Cons d s')
  assume "c \<noteq> CHR 0x5C"
  then show ?thesis using Cons by (cases "d = CHR 0x5C") simp_all
qed simp

lemma control_escapes:
  "\<forall>d \<in> set [0..<32]. strtoul16 0 (''00'' @ [hexify (d div 16), hexify (d mod 16)]) = d"
  by code_simp

lemma get_string_control:
  assumes "is_control c"
  shows "get_string_loop (CHR 0x5C # ''u00'' @ [hexify (of_char c div 16), hexify (of_char c mod 16)] @ t) r =
     get_string_loop t (r @ [c])"
proof -
  let ?d = "of_char c :: nat"
  have d: "?d < 32" using assms by (simp add: is_control_def less_eq_char_def)
  then have v: "strtoul16 0 (''00'' @ [hexify (?d div 16), hexify (?d mod 16)]) = ?d"
    using control_escapes by simp
  have take: "take 4 (''00'' @ [hexify (?d div 16), hexify (?d mod 16)] @ t) =
      ''00'' @ [hexify (?d div 16), hexify (?d mod 16)]"
    and drop: "drop 4 (''00'' @ [hexify (?d div 16), hexify (?d mod 16)] @ t) = t"
    by simp_all
  have "to_unicode ?d 0 = Ok [c]"
    using d by (simp add: to_unicode_def)
  then show ?thesis
    using d v take drop by (simp add: Let_def)
qed

lemma get_string_esc_char: "get_string_loop (esc_char c @ t) r = get_string_loop t (r @ [c])"
proof (cases c rule: esc_char_cases)
  case (short x)
  then show ?thesis unfolding short(2) by (auto simp: short_escape_def split: if_split_asm)
next
  case control
  show ?thesis unfolding control(3) using get_string_control [OF control(2)] by simp
next
  case plain
  then show ?thesis by (simp add: get_string_plain del: get_string_loop.simps)
qed

lemma get_string_concat: "get_string_loop (concat (map esc_char s)) r = Ok (r @ s)"
proof (induction s arbitrary: r)
  case Nil
  then show ?case by simp
next
  case (Cons c s)
  then show ?case by (simp add: get_string_esc_char del: get_string_loop.simps)
qed

lemma get_string_escape: "get_string (escape_string s) = Ok s"
  using get_string_concat [of s "[]"] by (simp add: get_string_def escape_string_eq)

text \<open>Where the string token ends: the index of the first quote that no backslash escapes.\<close>

fun token_end :: "string \<Rightarrow> nat option" where
  "token_end [] = None"
| "token_end (c # s) =
    (if c = CHR 0x22 then Some 0
     else if c = CHR 0x5C then
       (case s of [] \<Rightarrow> None | d # s' \<Rightarrow> map_option (\<lambda>n. n + 2) (token_end s'))
     else map_option Suc (token_end s))"

lemma hexify_not_special:
  "\<forall>d \<in> set [0..<16]. hexify d \<notin> {CHR 0x22, CHR 0x5C} \<and> \<not> is_control (hexify d)"
  by code_simp

lemma hexify_chars:
  assumes "d < 16"
  shows "hexify d \<noteq> CHR 0x22" "hexify d \<noteq> CHR 0x5C" "\<not> is_control (hexify d)"
  using hexify_not_special assms by auto

lemma esc_digits: "(of_char c :: nat) div 16 < 16" "(of_char c :: nat) mod 16 < 16"
  using nat_of_char_less_256 [of c] by linarith+

lemma token_end_esc_char:
  "token_end (esc_char c @ t) = map_option (\<lambda>n. length (esc_char c) + n) (token_end t)"
proof (cases c rule: esc_char_cases)
  case (short x)
  then show ?thesis by (simp add: option.map_comp o_def add.commute)
next
  case control
  have "token_end (hexify (of_char c div 16) # hexify (of_char c mod 16) # t) =
      map_option (\<lambda>n. n + 2) (token_end t)"
    using hexify_chars [OF esc_digits(1) [of c]] hexify_chars [OF esc_digits(2) [of c]]
    by (simp add: option.map_comp o_def)
  then show ?thesis unfolding control(3) by (simp add: option.map_comp o_def add.commute)
next
  case plain
  then show ?thesis by simp
qed

lemma token_end_escape:
  "token_end (escape_string s @ CHR 0x22 # rest) = Some (length (escape_string s))"
proof -
  have "token_end (concat (map esc_char s) @ CHR 0x22 # rest) = Some (length (concat (map esc_char s)))"
    by (induction s) (simp_all add: token_end_esc_char)
  then show ?thesis by (simp add: escape_string_eq)
qed

lemma escape_no_control: "x \<in> set (escape_string s) \<Longrightarrow> \<not> is_control x"
proof -
  have "x \<in> set (esc_char c) \<Longrightarrow> \<not> is_control x" for c
  proof (cases c rule: esc_char_cases)
    case (short y)
    assume "x \<in> set (esc_char c)"
    with short show ?thesis
      by (auto simp: short_escape_def is_control_def less_eq_char_def split: if_split_asm)
  next
    case control
    assume "x \<in> set (esc_char c)"
    with control(3) show ?thesis
      using hexify_chars(3) [OF esc_digits(1) [of c]] hexify_chars(3) [OF esc_digits(2) [of c]]
      by (auto simp: is_control_def less_eq_char_def)
  next
    case plain
    assume "x \<in> set (esc_char c)"
    with plain show ?thesis by simp
  qed
  moreover assume "x \<in> set (escape_string s)"
  ultimately show ?thesis by (auto simp: escape_string_eq)
qed

lemma length_escape_string: "length (escape_string s) = length s + extra_space s"
proof -
  have "length (concat (map esc_char s)) = length s + sum_list (map extra_space_char s)"
    by (induction s) (simp_all add: length_esc_char del: extra_space_char.simps)
  then show ?thesis by (simp add: escape_string_eq extra_space_eq)
qed

interpretation json_str: codec escape_string
  "\<lambda>t. case get_string t of Ok s \<Rightarrow> s | _ \<Rightarrow> ''''" "\<lambda>s. True"
  by unfold_locales (simp add: get_string_escape)

section \<open>Objects built by assignment\<close>

lemma json_assigns_object:
  "json_assigns (JObject m) kvs = Ok (JObject (fold (\<lambda>(k, v) m. map_put m k v) kvs m))"
  by (induction kvs arbitrary: m) (auto simp: json_assign_def)

lemma json_assigns_null:
  "kvs \<noteq> [] \<Longrightarrow> json_assigns JNull kvs = Ok (JObject (fold (\<lambda>(k, v) m. map_put m k v) kvs []))"
  by (cases kvs) (auto simp: json_assign_def json_assigns_object)

text \<open>A member of the compact text: its quoted key and a value.\<close>

definition json_member :: "string \<Rightarrow> string \<Rightarrow> string" where
  "json_member key text = CHR 0x22 # key @ [CHR 0x22, CHR '':''] @ text"

definition json_quoted :: "string \<Rightarrow> string" where
  "json_quoted s = CHR 0x22 # escape_string s @ [CHR 0x22]"

section \<open>Properties\<close>

text \<open>C17: the in-place escaping of a string, which overwrites a buffer of precomputed size, is the
  byte-by-byte escaping, so no write leaves the buffer. The result holds no control character, ends
  exactly where the closing quote is put, whatever follows, and is read back as the original; so a
  value can never close its own quotes, and distinct strings have distinct texts.\<close>
theorem json_string_escaping:
  "escape_string s = concat (map esc_char s) \<and> length (escape_string s) = length s + extra_space s \<and>
   list_all (\<lambda>c. \<not> is_control c) (escape_string s) \<and>
   token_end (escape_string s @ CHR 0x22 # rest) = Some (length (escape_string s)) \<and>
   get_string (escape_string s) = Ok s \<and> inj escape_string"
proof (intro conjI)
  show "escape_string s = concat (map esc_char s)" by (rule escape_string_eq)
  show "length (escape_string s) = length s + extra_space s"
    by (rule length_escape_string)
  show "list_all (\<lambda>c. \<not> is_control c) (escape_string s)"
    using escape_no_control by (auto simp: list_all_iff)
  show "token_end (escape_string s @ CHR 0x22 # rest) = Some (length (escape_string s))"
    by (rule token_end_escape)
  show "get_string (escape_string s) = Ok s" by (rule get_string_escape)
  show "inj escape_string" using json_str.enc_inj_on by simp
qed

text \<open>An object built from null by assignments serializes its members in ascending key order
  with the value last assigned to each key: the text depends on what was assigned, not on the
  order of assignments to different keys.\<close>
theorem json_object_assignments:
  "kvs \<noteq> [] \<Longrightarrow> \<exists>m. json_assigns JNull kvs = Ok (JObject m) \<and> map_sorted m \<and>
     (\<forall>k. map_find m k = map_of (rev kvs) k)"
proof -
  assume "kvs \<noteq> []"
  then have "json_assigns JNull kvs = Ok (JObject (fold (\<lambda>(k, v) m. map_put m k v) kvs []))"
    by (rule json_assigns_null)
  moreover have "map_sorted (fold (\<lambda>(k, v) m. map_put m k v) kvs [])"
    by (rule std_map.good_assigns [OF map_sorted_Nil])
  moreover have "map_find (fold (\<lambda>(k, v) m. map_put m k v) kvs []) k = map_of (rev kvs) k" for k
    using std_map.search_assigns [OF map_sorted_Nil, of kvs k] by (simp split: option.splits)
  ultimately show ?thesis by blast
qed

theorem json_object_assignments_witness:
  "\<exists>m. json_assigns JNull [(''b'', JNull), (''a'', JBoolean True), (''b'', JString ''x'')] = Ok (JObject m) \<and>
     map_find m ''b'' = Some (JString ''x'') \<and> map_find m ''a'' = Some (JBoolean True)"
  using json_object_assignments [of "[(''b'', JNull), (''a'', JBoolean True), (''b'', JString ''x'')]"]
  by auto

end
