(* ===== verification/JsonScan.thy ===== *)
theory JsonScan
  imports Json
begin

text \<open>
  The scanner of \<^verbatim>\<open>include/json.h\<close>: the automaton behind \<^verbatim>\<open>lexer::scan\<close>,
  label by label, and what it reads of a serialized value. The buffer is the list of the bytes that
  are left; behind its end the lexer finds the zero byte that \<^verbatim>\<open>fill_line_buffer\<close>
  appends, and no token but the end of the input takes that byte in.
\<close>

section \<open>Tokens\<close>

datatype token =
    LiteralTrue | LiteralFalse | LiteralNull | ValueString | ValueNumber | BeginArray | BeginObject
  | EndArray | EndObject | NameSeparator | ValueSeparator | ParseError | EndOfInput

primrec token_type_name :: "token \<Rightarrow> string" where
  "token_type_name LiteralTrue = ''true literal''"
| "token_type_name LiteralFalse = ''false literal''"
| "token_type_name LiteralNull = ''null literal''"
| "token_type_name ValueString = ''string literal''"
| "token_type_name ValueNumber = ''number literal''"
| "token_type_name BeginArray = [CHR 0x27, CHR ''['', CHR 0x27]"
| "token_type_name BeginObject = [CHR 0x27, CHR ''{'', CHR 0x27]"
| "token_type_name EndArray = [CHR 0x27, CHR '']'', CHR 0x27]"
| "token_type_name EndObject = [CHR 0x27, CHR ''}'', CHR 0x27]"
| "token_type_name NameSeparator = [CHR 0x27, CHR '':'', CHR 0x27]"
| "token_type_name ValueSeparator = [CHR 0x27, CHR '','', CHR 0x27]"
| "token_type_name ParseError = ''<parse error>''"
| "token_type_name EndOfInput = ''end of input''"

section \<open>The automaton\<close>

text \<open>
  A state is a label \<^verbatim>\<open>basic_json_parser_N\<close> of the scanner, entered when the byte that
  leads to it has been taken. On the next byte a state goes on to a label, takes the byte as the
  last of a token, stops before it with a token, or falls back to the marker (label 32).
\<close>

datatype label =
    P9 | P12 | P13 | P15 | P23 | P24 | P25 | P30 | P35 | P36 | P37 | P38 | P39 | P40 | P41 | P42 | P43 | P44
  | P45 | P46 | P47 | P48 | P49 | P51 | P52 | P54 | P55 | P56 | P57 | P58 | P63 | P66

datatype move = Goto label | Take token | Stop token | Back

definition in_string_move :: "nat \<Rightarrow> move" where
  "in_string_move v =
    (if v = 32 \<or> v = 33 \<or> 35 \<le> v \<and> v \<le> 91 \<or> 93 \<le> v \<and> v \<le> 127 then Goto P30
     else if v \<le> 0x1F then Back
     else if v = 34 then Take ValueString
     else if v = 92 then Goto P35
     else if v \<le> 0xC1 then Back
     else if v \<le> 0xDF then Goto P36
     else if v = 0xE0 then Goto P37
     else if v = 0xED then Goto P39
     else if v \<le> 0xEF then Goto P38
     else if v = 0xF0 then Goto P40
     else if v \<le> 0xF3 then Goto P41
     else if v = 0xF4 then Goto P42
     else Back)"

definition string_start_move :: "nat \<Rightarrow> move" where
  "string_start_move v =
    (if v \<le> 0x1F then Stop ParseError
     else if v \<le> 0x7F then in_string_move v
     else if v \<le> 0xC1 then Stop ParseError
     else if v \<le> 0xF4 then in_string_move v
     else Stop ParseError)"

definition escape_move :: "nat \<Rightarrow> move" where
  "escape_move v =
    (if v \<in> {34, 47, 92, 98, 102, 110, 114, 116} then Goto P30
     else if v = 117 then Goto P48
     else Back)"

definition between :: "nat \<Rightarrow> nat \<Rightarrow> label \<Rightarrow> nat \<Rightarrow> move" where
  "between lo hi next v = (if lo \<le> v \<and> v \<le> hi then Goto next else Back)"

fun utf8_move :: "label \<Rightarrow> nat \<Rightarrow> move" where
  "utf8_move P36 v = between 0x80 0xBF P30 v"
| "utf8_move P37 v = between 0xA0 0xBF P36 v"
| "utf8_move P38 v = between 0x80 0xBF P36 v"
| "utf8_move P39 v = between 0x80 0x9F P36 v"
| "utf8_move P40 v = between 0x90 0xBF P38 v"
| "utf8_move P41 v = between 0x80 0xBF P38 v"
| "utf8_move P42 v = between 0x80 0x8F P38 v"
| "utf8_move _ v = Back"

definition hex_move :: "label \<Rightarrow> nat \<Rightarrow> move" where
  "hex_move next v =
    (if 48 \<le> v \<and> v \<le> 57 \<or> 65 \<le> v \<and> v \<le> 70 \<or> 97 \<le> v \<and> v \<le> 102 then Goto next else Back)"

definition digit_byte :: "nat \<Rightarrow> bool" where
  "digit_byte v \<longleftrightarrow> 48 \<le> v \<and> v \<le> 57"

definition exponent_byte :: "nat \<Rightarrow> bool" where
  "exponent_byte v \<longleftrightarrow> v = 69 \<or> v = 101"

fun number_move :: "label \<Rightarrow> nat \<Rightarrow> move" where
  "number_move P12 v =
    (if v = 48 then Goto P13 else if digit_byte v then Goto P15 else Stop ParseError)"
| "number_move P13 v =
    (if v = 46 then Goto P43 else if exponent_byte v then Goto P44 else Stop ValueNumber)"
| "number_move P15 v =
    (if digit_byte v then Goto P15 else if v = 46 then Goto P43 else if exponent_byte v then Goto P44
     else Stop ValueNumber)"
| "number_move P43 v = (if digit_byte v then Goto P49 else Back)"
| "number_move P44 v = (if v = 43 \<or> v = 45 then Goto P51 else if digit_byte v then Goto P52 else Back)"
| "number_move P49 v =
    (if digit_byte v then Goto P49 else if exponent_byte v then Goto P44 else Stop ValueNumber)"
| "number_move P51 v = (if digit_byte v then Goto P52 else Back)"
| "number_move P52 v = (if digit_byte v then Goto P52 else Stop ValueNumber)"
| "number_move _ v = Back"

definition only :: "char \<Rightarrow> move \<Rightarrow> move \<Rightarrow> nat \<Rightarrow> move" where
  "only c yes no v = (if v = of_char c then yes else no)"

fun literal_move :: "label \<Rightarrow> nat \<Rightarrow> move" where
  "literal_move P23 v = only (CHR ''a'') (Goto P45) (Stop ParseError) v"
| "literal_move P45 v = only (CHR ''l'') (Goto P54) Back v"
| "literal_move P54 v = only (CHR ''s'') (Goto P58) Back v"
| "literal_move P58 v = only (CHR ''e'') (Take LiteralFalse) Back v"
| "literal_move P24 v = only (CHR ''u'') (Goto P46) (Stop ParseError) v"
| "literal_move P46 v = only (CHR ''l'') (Goto P55) Back v"
| "literal_move P55 v = only (CHR ''l'') (Take LiteralNull) Back v"
| "literal_move P25 v = only (CHR ''r'') (Goto P47) (Stop ParseError) v"
| "literal_move P47 v = only (CHR ''u'') (Goto P56) Back v"
| "literal_move P56 v = only (CHR ''e'') (Take LiteralTrue) Back v"
| "literal_move _ v = Back"

fun move_on :: "label \<Rightarrow> nat \<Rightarrow> move" where
  "move_on P9 v = string_start_move v"
| "move_on P30 v = in_string_move v"
| "move_on P35 v = escape_move v"
| "move_on P48 v = hex_move P57 v"
| "move_on P57 v = hex_move P63 v"
| "move_on P63 v = hex_move P66 v"
| "move_on P66 v = hex_move P30 v"
| "move_on l v =
    (if l \<in> {P36, P37, P38, P39, P40, P41, P42} then utf8_move l v
     else if l \<in> {P12, P13, P15, P43, P44, P49, P51, P52} then number_move l v
     else literal_move l v)"

text \<open>The first byte of a token (white space is skipped before).\<close>

definition start_move :: "nat \<Rightarrow> move" where
  "start_move v =
    (if v = 0 then Take EndOfInput
     else if v = of_char (CHR 0x22) then Goto P9
     else if v = of_char (CHR '','') then Take ValueSeparator
     else if v = of_char (CHR ''-'') then Goto P12
     else if v = of_char (CHR ''0'') then Goto P13
     else if digit_byte v then Goto P15
     else if v = of_char (CHR '':'') then Take NameSeparator
     else if v = of_char (CHR ''['') then Take BeginArray
     else if v = of_char (CHR '']'') then Take EndArray
     else if v = of_char (CHR ''f'') then Goto P23
     else if v = of_char (CHR ''n'') then Goto P24
     else if v = of_char (CHR ''t'') then Goto P25
     else if v = of_char (CHR ''{'') then Take BeginObject
     else if v = of_char (CHR ''}'') then Take EndObject
     else Take ParseError)"

text \<open>
  The run from a label: \<open>mark\<close> is what label 32 falls back to, the token of
  \<^verbatim>\<open>yyaccept\<close> and the bytes behind the marker.
\<close>

definition new_mark :: "label \<Rightarrow> string \<Rightarrow> token \<times> string \<Rightarrow> token \<times> string" where
  "new_mark l s mark =
    (if l \<in> {P9, P23, P24, P25} then (ParseError, s)
     else if l \<in> {P13, P15, P49} then (ValueNumber, s)
     else mark)"

fun scan_run :: "label \<Rightarrow> token \<times> string \<Rightarrow> string \<Rightarrow> token \<times> string" where
  "scan_run l mark [] =
    (case move_on l 0 of Stop t \<Rightarrow> (t, []) | _ \<Rightarrow> new_mark l [] mark)"
| "scan_run l mark (c # s) =
    (let mark' = new_mark l (c # s) mark in
     case move_on l (of_char c) of
       Goto l' \<Rightarrow> scan_run l' mark' s
     | Take t \<Rightarrow> (t, s)
     | Stop t \<Rightarrow> (t, c # s)
     | Back \<Rightarrow> mark')"

definition is_json_space :: "char \<Rightarrow> bool" where
  "is_json_space c \<longleftrightarrow> c \<in> {CHR 0x20, CHR 0x09, CHR 0x0A, CHR 0x0D}"

text \<open>\<^verbatim>\<open>scan\<close>: the token, its bytes (\<^verbatim>\<open>m_start\<close> to \<^verbatim>\<open>m_cursor\<close>), the rest.\<close>

definition scan :: "string \<Rightarrow> token \<times> string \<times> string" where
  "scan s =
    (case dropWhile is_json_space s of
       [] \<Rightarrow> (EndOfInput, [], [])
     | c # r \<Rightarrow>
         (case (case start_move (of_char c) of
                  Goto l \<Rightarrow> scan_run l (ParseError, r) r
                | Take t \<Rightarrow> (t, r)
                | Stop t \<Rightarrow> (t, r)
                | Back \<Rightarrow> (ParseError, r)) of
            (t, rest) \<Rightarrow> (t, take (length (c # r) - length rest) (c # r), rest)))"

section \<open>Progress\<close>

lemma scan_run_length:
  "length (snd mark) \<le> n \<Longrightarrow> length s \<le> n \<Longrightarrow> length (snd (scan_run l mark s)) \<le> n"
proof (induction l mark s rule: scan_run.induct)
  case (1 l mark)
  then show ?case by (auto simp: new_mark_def split: move.split)
next
  case (2 l mark c s)
  have m: "length (snd (new_mark l (c # s) mark)) \<le> n" using 2(2,3) by (simp add: new_mark_def)
  show ?case
  proof (cases "move_on l (of_char c)")
    case (Goto l')
    then show ?thesis using 2(1) [OF refl Goto m] 2(3) by (simp add: Let_def)
  qed (use m 2(3) in \<open>simp_all add: Let_def\<close>)
qed

text \<open>Every token but the end of the input takes a byte.\<close>

lemma scan_shrinks:
  assumes "scan s = (t, txt, rest)"
  shows "length rest \<le> length s \<and> (t \<noteq> EndOfInput \<longrightarrow> length rest < length s)"
proof (cases "dropWhile is_json_space s")
  case Nil
  have "scan s = (EndOfInput, [], [])" unfolding scan_def Nil by simp
  then show ?thesis using assms by simp
next
  case (Cons c r)
  then have r: "length r < length s"
    using length_dropWhile_le [of is_json_space s] unfolding Cons by simp
  have "length (snd (scan_run l (ParseError, r) r)) \<le> length r" for l
    by (rule scan_run_length) simp_all
  moreover have "rest = r \<or> (\<exists>l. rest = snd (scan_run l (ParseError, r) r))"
    using assms Cons by (auto simp: scan_def split: move.splits prod.splits) (metis snd_conv)+
  ultimately have "length rest \<le> length r" by auto
  then show ?thesis using r by simp
qed

declare scan_run.simps [simp del]

section \<open>Reading strings\<close>

text \<open>UTF-8 as RFC 3629 defines it.\<close>

definition cont :: "nat \<Rightarrow> nat \<Rightarrow> char \<Rightarrow> bool" where
  "cont lo hi c \<longleftrightarrow> lo \<le> of_char c \<and> of_char c \<le> hi"

definition lead2 :: "char \<Rightarrow> char \<Rightarrow> bool" where
  "lead2 c a \<longleftrightarrow> cont 0xC2 0xDF c \<and> cont 0x80 0xBF a"

definition lead3 :: "char \<Rightarrow> char \<Rightarrow> bool" where
  "lead3 c a \<longleftrightarrow>
     of_char c = (0xE0 :: nat) \<and> cont 0xA0 0xBF a \<or> cont 0xE1 0xEC c \<and> cont 0x80 0xBF a
     \<or> of_char c = (0xED :: nat) \<and> cont 0x80 0x9F a \<or> cont 0xEE 0xEF c \<and> cont 0x80 0xBF a"

definition lead4 :: "char \<Rightarrow> char \<Rightarrow> bool" where
  "lead4 c a \<longleftrightarrow>
     of_char c = (0xF0 :: nat) \<and> cont 0x90 0xBF a \<or> cont 0xF1 0xF3 c \<and> cont 0x80 0xBF a
     \<or> of_char c = (0xF4 :: nat) \<and> cont 0x80 0x8F a"

fun utf8 :: "string \<Rightarrow> bool" where
  "utf8 [] = True"
| "utf8 (c # s) =
    (of_char c < (0x80 :: nat) \<and> utf8 s
     \<or> (case s of a # s1 \<Rightarrow> lead2 c a \<and> utf8 s1 | _ \<Rightarrow> False)
     \<or> (case s of a # b # s2 \<Rightarrow> lead3 c a \<and> cont 0x80 0xBF b \<and> utf8 s2 | _ \<Rightarrow> False)
     \<or> (case s of a # b # d # s3 \<Rightarrow> lead4 c a \<and> cont 0x80 0xBF b \<and> cont 0x80 0xBF d \<and> utf8 s3 | _ \<Rightarrow> False))"

text \<open>One step that goes on, from a label that leaves the marker alone.\<close>

lemma run_goto:
  "move_on l (of_char c) = Goto l' \<Longrightarrow> l \<notin> {P9, P13, P15, P23, P24, P25, P49} \<Longrightarrow>
     scan_run l mark (c # s) = scan_run l' mark s"
  by (simp add: scan_run.simps new_mark_def)

lemma run_plain:
  "in_string_move (of_char c) = Goto P30 \<Longrightarrow> scan_run P30 mark (c # s) = scan_run P30 mark s"
  by (rule run_goto) simp_all

lemma run_backslash: "scan_run P30 mark (CHR 0x5C # s) = scan_run P35 mark s"
  by (rule run_goto) (simp_all add: in_string_move_def)

lemma run_escape:
  "move_on P35 (of_char x) = Goto P30 \<Longrightarrow> scan_run P30 mark (CHR 0x5C # x # s) = scan_run P30 mark s"
  unfolding run_backslash by (rule run_goto) simp_all

lemma hexify_moves: "\<forall>d \<in> set [0..<16]. hex_move l (of_char (hexify d)) = Goto l"
  by (simp add: hexify_def hex_move_def upt_rec)

lemma hexify_move: "d < 16 \<Longrightarrow> hex_move l (of_char (hexify d)) = Goto l"
  using hexify_moves by simp

lemma run_unicode:
  assumes "d < 16" and "e < 16"
  shows "scan_run P30 mark (CHR 0x5C # ''u00'' @ [hexify d, hexify e] @ s) = scan_run P30 mark s"
proof -
  have "scan_run P35 mark (CHR ''u'' # r) = scan_run P48 mark r" for r
    by (rule run_goto) (simp_all add: escape_move_def)
  moreover have "scan_run P48 mark (CHR ''0'' # r) = scan_run P57 mark r" for r
    by (rule run_goto) (simp_all add: hex_move_def)
  moreover have "scan_run P57 mark (CHR ''0'' # r) = scan_run P63 mark r" for r
    by (rule run_goto) (simp_all add: hex_move_def)
  moreover have "scan_run P63 mark (hexify d # r) = scan_run P66 mark r" for r
    by (rule run_goto) (simp_all add: hexify_move assms(1))
  moreover have "scan_run P66 mark (hexify e # r) = scan_run P30 mark r" for r
    by (rule run_goto) (simp_all add: hexify_move assms(2))
  ultimately show ?thesis by (simp only: run_backslash append_Cons append_Nil)
qed

lemma run_esc_char:
  assumes "of_char c < (0x80 :: nat)"
  shows "scan_run P30 mark (esc_char c @ s) = scan_run P30 mark s"
proof (cases c rule: esc_char_cases)
  case (short x)
  have "move_on P35 (of_char x) = Goto P30"
    using short(1) by (auto simp: short_escape_def escape_move_def split: if_splits)
  then show ?thesis using short(2) run_escape by simp
next
  case control
  then show ?thesis using run_unicode [OF esc_digits(1) [of c] esc_digits(2) [of c], of mark s] by simp
next
  case plain
  have "(of_char c :: nat) \<noteq> of_char (CHR 0x22)" "(of_char c :: nat) \<noteq> of_char (CHR 0x5C)"
    unfolding of_char_eq_iff using plain(1) by simp_all
  then have "(of_char c :: nat) \<noteq> 34" "(of_char c :: nat) \<noteq> 92" by simp_all
  moreover have "31 < (of_char c :: nat)" using plain(2) by (simp add: is_control_def less_eq_char_def)
  ultimately have "in_string_move (of_char c) = Goto P30" using assms unfolding in_string_move_def by auto
  then show ?thesis using plain(3) by (simp add: run_plain)
qed

text \<open>Bytes from 80 on are not escaped, and the automaton follows the definition of UTF-8.\<close>

lemma esc_char_high: "(0x80 :: nat) \<le> of_char c \<Longrightarrow> esc_char c = [c]"
proof (cases c rule: esc_char_cases)
  case (short x)
  assume h: "(0x80 :: nat) \<le> of_char c"
  have "c \<in> {CHR 0x22, CHR 0x5C, CHR 0x08, CHR 0x0C, CHR 0x0A, CHR 0x0D, CHR 0x09}"
    using short(1) short_escape_None [of c] by auto
  then show ?thesis using h by auto
qed (simp_all add: is_control_def less_eq_char_def)

lemma cont_high: "cont lo hi c \<Longrightarrow> 0x80 \<le> lo \<Longrightarrow> esc_char c = [c]"
  by (rule esc_char_high) (simp add: cont_def)

lemma run_between:
  assumes "cont lo hi c" and "move_on l (of_char c) = between lo hi l' (of_char c)"
    and "l \<notin> {P9, P13, P15, P23, P24, P25, P49}"
  shows "scan_run l mark (c # s) = scan_run l' mark s"
  by (rule run_goto) (use assms in \<open>auto simp: between_def cont_def\<close>)

lemma run_tail:
  "cont 0x80 0xBF c \<Longrightarrow> scan_run P36 mark (c # s) = scan_run P30 mark s"
  "cont 0xA0 0xBF c \<Longrightarrow> scan_run P37 mark (c # s) = scan_run P36 mark s"
  "cont 0x80 0xBF c \<Longrightarrow> scan_run P38 mark (c # s) = scan_run P36 mark s"
  "cont 0x80 0x9F c \<Longrightarrow> scan_run P39 mark (c # s) = scan_run P36 mark s"
  "cont 0x90 0xBF c \<Longrightarrow> scan_run P40 mark (c # s) = scan_run P38 mark s"
  "cont 0x80 0xBF c \<Longrightarrow> scan_run P41 mark (c # s) = scan_run P38 mark s"
  "cont 0x80 0x8F c \<Longrightarrow> scan_run P42 mark (c # s) = scan_run P38 mark s"
  by (erule run_between; simp)+

lemma run_lead:
  "in_string_move (of_char c) = Goto l \<Longrightarrow> scan_run P30 mark (c # s) = scan_run l mark s"
  by (rule run_goto) simp_all

abbreviation escaped :: "string \<Rightarrow> string" where
  "escaped s \<equiv> concat (map esc_char s)"

lemma run_two:
  assumes "lead2 c a"
  shows "scan_run P30 mark (escaped (c # a # s) @ t) = scan_run P30 mark (escaped s @ t)"
proof -
  have a: "cont 0x80 0xBF a" and "in_string_move (of_char c) = Goto P36" and "esc_char c = [c]"
    using assms by (auto simp: lead2_def cont_def in_string_move_def intro: esc_char_high)
  then show ?thesis by (simp add: cont_high [OF a] run_lead run_tail)
qed

lemma run_three:
  assumes "lead3 c a" and "cont 0x80 0xBF b"
  shows "scan_run P30 mark (escaped (c # a # b # s) @ t) = scan_run P30 mark (escaped s @ t)"
proof -
  have "in_string_move (of_char c) = Goto P37 \<and> cont 0xA0 0xBF a
      \<or> in_string_move (of_char c) = Goto P39 \<and> cont 0x80 0x9F a
      \<or> in_string_move (of_char c) = Goto P38 \<and> cont 0x80 0xBF a"
    using assms(1) by (auto simp: lead3_def cont_def in_string_move_def)
  then have "scan_run P30 mark (c # a # r) = scan_run P36 mark r" for r
    by (elim disjE conjE) (simp_all only: run_lead run_tail)
  moreover have "esc_char c = [c]" "esc_char a = [a]"
    using assms(1) by (auto simp: lead3_def cont_def intro: esc_char_high)
  ultimately show ?thesis by (simp add: cont_high [OF assms(2)] run_tail assms(2))
qed

lemma run_four:
  assumes "lead4 c a" and "cont 0x80 0xBF b" and "cont 0x80 0xBF d"
  shows "scan_run P30 mark (escaped (c # a # b # d # s) @ t) = scan_run P30 mark (escaped s @ t)"
proof -
  have "in_string_move (of_char c) = Goto P40 \<and> cont 0x90 0xBF a
      \<or> in_string_move (of_char c) = Goto P41 \<and> cont 0x80 0xBF a
      \<or> in_string_move (of_char c) = Goto P42 \<and> cont 0x80 0x8F a"
    using assms(1) by (auto simp: lead4_def cont_def in_string_move_def)
  then have "scan_run P30 mark (c # a # r) = scan_run P38 mark r" for r
    by (elim disjE conjE) (simp_all only: run_lead run_tail)
  moreover have "esc_char c = [c]" "esc_char a = [a]"
    using assms(1) by (auto simp: lead4_def cont_def intro: esc_char_high)
  ultimately show ?thesis
    by (simp add: cont_high [OF assms(2)] cont_high [OF assms(3)] run_tail assms(2,3))
qed

lemma utf8_lead:
  assumes "utf8 (c # k)"
  obtains (one) "of_char c < (0x80 :: nat)" "utf8 k"
    | (two) a k' where "k = a # k'" "utf8 k'" "lead2 c a"
    | (three) a b k' where "k = a # b # k'" "utf8 k'" "lead3 c a" "cont 0x80 0xBF b"
    | (four) a b d k' where "k = a # b # d # k'" "utf8 k'" "lead4 c a" "cont 0x80 0xBF b" "cont 0x80 0xBF d"
proof -
  from assms consider
      "of_char c < (0x80 :: nat) \<and> utf8 k"
    | "case k of a # s1 \<Rightarrow> lead2 c a \<and> utf8 s1 | _ \<Rightarrow> False"
    | "case k of a # b # s2 \<Rightarrow> lead3 c a \<and> cont 0x80 0xBF b \<and> utf8 s2 | _ \<Rightarrow> False"
    | "case k of a # b # d # s3 \<Rightarrow> lead4 c a \<and> cont 0x80 0xBF b \<and> cont 0x80 0xBF d \<and> utf8 s3 | _ \<Rightarrow> False"
    unfolding utf8.simps by blast
  then show thesis
  proof cases
    case 1
    then show thesis using one by blast
  next
    case 2
    then show thesis using two by (cases k) simp_all
  next
    case 3
    then show thesis using three by (simp split: list.splits)
  next
    case 4
    then show thesis using four by (simp split: list.splits)
  qed
qed

lemma run_string: "utf8 k \<Longrightarrow> scan_run P30 mark (escaped k @ CHR 0x22 # s) = (ValueString, s)"
proof (induction k rule: length_induct)
  case (1 k)
  show ?case
  proof (cases k)
    case Nil
    then show ?thesis by (simp add: scan_run.simps in_string_move_def)
  next
    case (Cons c k1)
    have IH: "utf8 k' \<Longrightarrow> length k' < length k \<Longrightarrow> scan_run P30 mark (escaped k' @ CHR 0x22 # s) = (ValueString, s)" for k'
      using 1(1) by blast
    from 1(2) have "utf8 (c # k1)" by (simp add: Cons)
    then show ?thesis
    proof (cases rule: utf8_lead)
      case one
      then show ?thesis using IH [of k1] by (simp add: Cons run_esc_char)
    next
      case (two a k')
      then show ?thesis using IH [of k'] run_two [OF two(3)] by (simp only: Cons) simp
    next
      case (three a b k')
      then show ?thesis using IH [of k'] run_three [OF three(3,4)] by (simp only: Cons) simp
    next
      case (four a b d k')
      then show ?thesis using IH [of k'] run_four [OF four(3-5)] by (simp only: Cons) simp
    qed
  qed
qed

section \<open>What is scanned of a serialized value\<close>

lemma scan_take:
  "start_move (of_char c) = Take t \<Longrightarrow> \<not> is_json_space c \<Longrightarrow> scan (c # s) = (t, [c], s)"
  by (simp add: scan_def)

lemma scan_goto:
  assumes "start_move (of_char c) = Goto l" and "\<not> is_json_space c"
    and "scan_run l (ParseError, txt @ rest) (txt @ rest) = (t, rest)"
  shows "scan (c # txt @ rest) = (t, c # txt, rest)"
  using assms by (simp add: scan_def)

lemmas scan_punctuation =
  scan_take [of "CHR ''{''" BeginObject] scan_take [of "CHR ''}''" EndObject]
  scan_take [of "CHR ''[''" BeginArray] scan_take [of "CHR '']''" EndArray]
  scan_take [of "CHR '':''" NameSeparator] scan_take [of "CHR '',''" ValueSeparator]

lemma scan_marks [simp]:
  "scan (CHR ''{'' # s) = (BeginObject, ''{'', s)" "scan (CHR ''}'' # s) = (EndObject, ''}'', s)"
  "scan (CHR ''['' # s) = (BeginArray, ''['', s)" "scan (CHR '']'' # s) = (EndArray, '']'', s)"
  "scan (CHR '':'' # s) = (NameSeparator, '':'', s)" "scan (CHR '','' # s) = (ValueSeparator, '','', s)"
  by (rule scan_punctuation; simp add: start_move_def digit_byte_def is_json_space_def)+

lemma scan_nothing [simp]: "scan [] = (EndOfInput, [], [])"
  by (simp add: scan_def)

lemma scan_literals:
  "scan (''null'' @ s) = (LiteralNull, ''null'', s)"
  "scan (''true'' @ s) = (LiteralTrue, ''true'', s)"
  "scan (''false'' @ s) = (LiteralFalse, ''false'', s)"
  using scan_goto [of "CHR ''n''" P24 "''ull''" s] scan_goto [of "CHR ''t''" P25 "''rue''" s]
    scan_goto [of "CHR ''f''" P23 "''alse''" s]
  by (simp_all add: start_move_def digit_byte_def is_json_space_def scan_run.simps only_def Let_def)

text \<open>The first byte behind the opening quote goes the way of the bytes that follow.\<close>

lemma string_first:
  assumes "utf8 k"
  shows "\<exists>c r. escaped k @ CHR 0x22 # s = c # r \<and> string_start_move (of_char c) = in_string_move (of_char c)"
proof (cases k)
  case Nil
  then show ?thesis by (simp add: string_start_move_def)
next
  case (Cons c k1)
  have high: "string_start_move (of_char c) = in_string_move (of_char c)" "esc_char c = [c]"
    if "cont 0xC2 0xF4 c"
    using that by (auto simp: cont_def string_start_move_def intro: esc_char_high)
  have low: "string_start_move v = in_string_move v" if "0x1F < v" "v \<le> 0x7F" for v
    using that by (simp add: string_start_move_def)
  from assms have "utf8 (c # k1)" by (simp add: Cons)
  then show ?thesis
  proof (cases rule: utf8_lead)
    case one
    show ?thesis
    proof (cases c rule: esc_char_cases)
      case plain
      then show ?thesis using one by (simp add: Cons low is_control_def less_eq_char_def)
    qed (simp_all add: Cons low)
  qed (use high in \<open>auto simp: Cons lead2_def lead3_def lead4_def cont_def\<close>)
qed

lemma scan_string:
  assumes "utf8 k"
  shows "scan (CHR 0x22 # escaped k @ CHR 0x22 # s) = (ValueString, CHR 0x22 # escaped k @ [CHR 0x22], s)"
proof -
  obtain c r where c: "escaped k @ CHR 0x22 # s = c # r"
    and m: "string_start_move (of_char c) = in_string_move (of_char c)"
    using string_first [OF assms] by blast
  have "scan_run P9 mark (c # r) = scan_run P30 (ParseError, c # r) (c # r)" for mark
    using m by (simp add: scan_run.simps new_mark_def Let_def)
  then have "scan_run P9 mark (escaped k @ CHR 0x22 # s) = (ValueString, s)" for mark
    using run_string [OF assms] by (simp add: c [symmetric])
  then show ?thesis
    using scan_goto [of "CHR 0x22" P9 "escaped k @ [CHR 0x22]" s ValueString]
    by (simp add: start_move_def is_json_space_def)
qed

text \<open>A number is read up to its end, if what follows does not go on with it.\<close>

definition ends_number :: "string \<Rightarrow> bool" where
  "ends_number s \<longleftrightarrow> (case s of [] \<Rightarrow> True | c # _ \<Rightarrow> \<not> is_digit c \<and> c \<notin> set ''.eE'')"

lemma is_digit_byte: "is_digit c \<longleftrightarrow> digit_byte (of_char c)"
  by (simp add: is_digit_def digit_byte_def less_eq_char_def)

lemma ends_number_bytes:
  assumes "ends_number (c # s)"
  shows "\<not> digit_byte (of_char c)" "(of_char c :: nat) \<noteq> 46" "\<not> exponent_byte (of_char c)"
proof -
  have "(of_char c :: nat) \<noteq> of_char (CHR ''.'')" "(of_char c :: nat) \<noteq> of_char (CHR ''e'')"
    "(of_char c :: nat) \<noteq> of_char (CHR ''E'')"
    unfolding of_char_eq_iff using assms by (simp_all add: ends_number_def)
  then show "(of_char c :: nat) \<noteq> 46" "\<not> exponent_byte (of_char c)" by (simp_all add: exponent_byte_def)
  show "\<not> digit_byte (of_char c)" using assms by (simp add: ends_number_def is_digit_byte)
qed

lemma number_stops:
  assumes "ends_number s" and "l \<in> {P13, P15}"
  shows "scan_run l mark s = (ValueNumber, s)"
proof (cases s)
  case Nil
  then show ?thesis using assms(2) by (auto simp: scan_run.simps digit_byte_def exponent_byte_def)
next
  case (Cons c s')
  then show ?thesis using assms ends_number_bytes [of c s'] by (auto simp: scan_run.simps Let_def)
qed

lemma run_digits:
  "\<forall>c \<in> set ds. is_digit c \<Longrightarrow> ends_number s \<Longrightarrow> scan_run P15 mark (ds @ s) = (ValueNumber, s)"
proof (induction ds arbitrary: mark)
  case Nil
  then show ?case by (simp add: number_stops)
next
  case (Cons c ds)
  then show ?case by (simp add: scan_run.simps is_digit_byte Let_def)
qed

lemma dec_nat_lead: "0 < n \<Longrightarrow> hd (dec_nat n) \<noteq> CHR ''0''"
proof (induction n rule: dec_nat.induct)
  case (1 n)
  show ?case
  proof (cases "n < 10")
    case True
    have "\<forall>d \<in> set [1..<10]. digit_char d \<noteq> CHR ''0''" by code_simp
    then show ?thesis using True 1(2) by (subst dec_nat.simps) simp
  next
    case False
    then show ?thesis using 1(1) by (subst dec_nat.simps) (simp add: hd_append)
  qed
qed

lemma dec_nat_zero: "dec_nat 0 = ''0''"
  by code_simp

text \<open>A digit first (behind a minus sign or not): zero alone, or the digits of a number.\<close>

lemma run_dec_nat:
  assumes "ends_number s" and "l = (if n = 0 then P13 else P15)"
  shows "scan_run l mark (tl (dec_nat n) @ s) = (ValueNumber, s)"
proof (cases "n = 0")
  case True
  then show ?thesis using assms number_stops [of s P13] by (simp add: dec_nat_zero)
next
  case False
  have "\<forall>c \<in> set (tl (dec_nat n)). is_digit c"
    using dec_nat_digits [of n] by (meson list.set_sel(2) dec_nat_not_empty)
  then show ?thesis using run_digits [OF _ assms(1)] False assms(2) by simp
qed

lemma dec_nat_first:
  obtains c where "dec_nat n = c # tl (dec_nat n)" "is_digit c" "n \<noteq> 0 \<longrightarrow> c \<noteq> CHR ''0''" "n = 0 \<longrightarrow> c = CHR ''0''"
proof -
  obtain c ds where c: "dec_nat n = c # ds" by (cases "dec_nat n") simp_all
  have "is_digit c" using dec_nat_digits [of n] by (simp add: c)
  moreover have "n \<noteq> 0 \<longrightarrow> c \<noteq> CHR ''0''" using dec_nat_lead [of n] by (simp add: c)
  moreover have "n = 0 \<longrightarrow> c = CHR ''0''" using c dec_nat_zero by auto
  ultimately show thesis using that c by simp
qed

lemma digit_start:
  assumes "is_digit c"
  shows "start_move (of_char c) = Goto (if c = CHR ''0'' then P13 else P15)"
    and "number_move P12 (of_char c) = Goto (if c = CHR ''0'' then P13 else P15)"
    and "\<not> is_json_space c"
proof -
  have d: "48 \<le> (of_char c :: nat)" "(of_char c :: nat) \<le> 57"
    using assms by (simp_all add: is_digit_def less_eq_char_def)
  have z: "(of_char c :: nat) = 48 \<longleftrightarrow> c = CHR ''0''"
    using of_char_eq_iff [of c "CHR ''0''", where 'a = nat] by simp
  show "start_move (of_char c) = Goto (if c = CHR ''0'' then P13 else P15)"
    using d z by (simp add: start_move_def digit_byte_def)
  show "number_move P12 (of_char c) = Goto (if c = CHR ''0'' then P13 else P15)"
    using d z by (simp add: digit_byte_def)
  show "\<not> is_json_space c" using d by (auto simp: is_json_space_def)
qed

lemma scan_number:
  assumes "ends_number s"
  shows "scan (dec_nat n @ s) = (ValueNumber, dec_nat n, s)"
proof -
  obtain c where c: "dec_nat n = c # tl (dec_nat n)" "is_digit c" "n \<noteq> 0 \<longrightarrow> c \<noteq> CHR ''0''" "n = 0 \<longrightarrow> c = CHR ''0''"
    by (rule dec_nat_first)
  have "scan (c # tl (dec_nat n) @ s) = (ValueNumber, c # tl (dec_nat n), s)"
    using c(3,4) by (intro scan_goto [OF digit_start(1,3) [OF c(2)]] run_dec_nat [OF assms]) auto
  then show ?thesis using c(1) by (metis append_Cons)
qed

lemma scan_negative:
  assumes "ends_number s"
  shows "scan (CHR ''-'' # dec_nat n @ s) = (ValueNumber, CHR ''-'' # dec_nat n, s)"
proof -
  obtain c where c: "dec_nat n = c # tl (dec_nat n)" "is_digit c" "n \<noteq> 0 \<longrightarrow> c \<noteq> CHR ''0''" "n = 0 \<longrightarrow> c = CHR ''0''"
    by (rule dec_nat_first)
  have "scan_run P12 mark (c # r) = scan_run (if n = 0 then P13 else P15) mark r" for mark r
    by (rule run_goto) (use digit_start(2) [OF c(2)] c(3,4) in auto)
  then have "scan_run P12 mark ((c # tl (dec_nat n)) @ s) = (ValueNumber, s)" for mark
    using run_dec_nat [OF assms refl] by simp
  then have "scan_run P12 mark (dec_nat n @ s) = (ValueNumber, s)" for mark
    by (simp only: c(1) [symmetric])
  then show ?thesis
    using scan_goto [of "CHR ''-''" P12 "dec_nat n" s ValueNumber]
    by (simp add: start_move_def digit_byte_def is_json_space_def)
qed

end
