(* ===== verification/JsonText.thy ===== *)
theory JsonText
  imports JsonScan
begin

text \<open>
  What the scanner lets through as a string token, and what \<^verbatim>\<open>get_string\<close> makes of it:
  the bytes between the quotes are characters in UTF-8 and complete escapes, so no read of
  \<^verbatim>\<open>get_string\<close> leaves the token, and the string it delivers is UTF-8 again.
\<close>

section \<open>UTF-8\<close>

lemma utf8_intros:
  "of_char c < (0x80 :: nat) \<Longrightarrow> utf8 s \<Longrightarrow> utf8 (c # s)"
  "lead2 c a \<Longrightarrow> utf8 s \<Longrightarrow> utf8 (c # a # s)"
  "lead3 c a \<Longrightarrow> cont 0x80 0xBF b \<Longrightarrow> utf8 s \<Longrightarrow> utf8 (c # a # b # s)"
  "lead4 c a \<Longrightarrow> cont 0x80 0xBF b \<Longrightarrow> cont 0x80 0xBF d \<Longrightarrow> utf8 s \<Longrightarrow> utf8 (c # a # b # d # s)"
  by simp_all

declare utf8.simps(2) [simp del]

lemma utf8_append: "utf8 s \<Longrightarrow> utf8 t \<Longrightarrow> utf8 (s @ t)"
proof (induction "length s" arbitrary: s rule: less_induct)
  case less
  show ?case
  proof (cases s)
    case Nil
    then show ?thesis using less.prems by simp
  next
    case (Cons c k)
    with less.prems(1) have "utf8 (c # k)" by simp
    then show ?thesis
      by (cases rule: utf8_lead)
        (use Cons less in \<open>simp_all add: utf8_intros\<close>)
  qed
qed

text \<open>The encoder of \<^verbatim>\<open>to_unicode\<close> on code points that are not surrogates.\<close>

lemma byte_marks:
  "y < 64 \<Longrightarrow> (0x80 :: nat) OR y = 0x80 + y" "y < 32 \<Longrightarrow> (0xC0 :: nat) OR y = 0xC0 + y"
  "y < 16 \<Longrightarrow> (0xE0 :: nat) OR y = 0xE0 + y" "y < 8 \<Longrightarrow> (0xF0 :: nat) OR y = 0xF0 + y"
proof -
  have "\<forall>y \<in> set [0..<64]. (0x80 :: nat) OR y = 0x80 + y" "\<forall>y \<in> set [0..<32]. (0xC0 :: nat) OR y = 0xC0 + y"
    "\<forall>y \<in> set [0..<16]. (0xE0 :: nat) OR y = 0xE0 + y" "\<forall>y \<in> set [0..<8]. (0xF0 :: nat) OR y = 0xF0 + y"
    by code_simp+
  then show "y < 64 \<Longrightarrow> (0x80 :: nat) OR y = 0x80 + y" "y < 32 \<Longrightarrow> (0xC0 :: nat) OR y = 0xC0 + y"
    "y < 16 \<Longrightarrow> (0xE0 :: nat) OR y = 0xE0 + y" "y < 8 \<Longrightarrow> (0xF0 :: nat) OR y = 0xF0 + y"
    by simp_all
qed

lemma low_bits: "(x :: nat) AND 0x3F = x mod 64" "(x :: nat) AND 0x1F = x mod 32"
  "(x :: nat) AND 0x0F = x mod 16" "(x :: nat) AND 0x07 = x mod 8"
proof -
  have m: "x AND mask n = x mod 2 ^ n" for n by (simp only: take_bit_eq_mask [symmetric] take_bit_eq_mod)
  show "x AND 0x3F = x mod 64" "x AND 0x1F = x mod 32" "x AND 0x0F = x mod 16" "x AND 0x07 = x mod 8"
    using m [of 6] m [of 5] m [of 4] m [of 3] by (simp_all add: mask_eq_exp_minus_1)
qed

lemma of_char_of: "n < 256 \<Longrightarrow> of_char (char_of n) = (n :: nat)"
  by simp

lemma utf8_tail_byte: "of_char (utf8_tail k n) = 0x80 + n div 2 ^ k mod (64 :: nat)"
proof -
  have m: "n div 2 ^ k mod 64 < (64 :: nat)" by simp
  then have "0x80 + n div 2 ^ k mod 64 < (256 :: nat)" by linarith
  then show ?thesis unfolding utf8_tail_def low_bits drop_bit_eq_div byte_marks(1) [OF m] by (rule of_char_of)
qed

lemma utf8_heads:
  "n < 2048 \<Longrightarrow> of_char (char_of (0xC0 OR (drop_bit 6 n AND 0x1F))) = 0xC0 + n div (64 :: nat)"
  "n < 65536 \<Longrightarrow> of_char (char_of (0xE0 OR (drop_bit 12 n AND 0x0F))) = 0xE0 + n div (4096 :: nat)"
  "n < 2097152 \<Longrightarrow> of_char (char_of (0xF0 OR (drop_bit 18 n AND 0x07))) = 0xF0 + n div (262144 :: nat)"
proof -
  show "of_char (char_of (0xC0 OR (drop_bit 6 n AND 0x1F))) = 0xC0 + n div (64 :: nat)" if "n < 2048"
  proof -
    have b: "n div 64 < 32" using that by simp
    then have "0xC0 + n div 64 < 256" by linarith
    moreover have "n div 2 ^ 6 mod 32 = n div 64" using b by simp
    ultimately show ?thesis unfolding low_bits drop_bit_eq_div by (simp only: byte_marks(2) [OF b] of_char_of)
  qed
  show "of_char (char_of (0xE0 OR (drop_bit 12 n AND 0x0F))) = 0xE0 + n div (4096 :: nat)" if "n < 65536"
  proof -
    have b: "n div 4096 < 16" using that by simp
    then have "0xE0 + n div 4096 < 256" by linarith
    moreover have "n div 2 ^ 12 mod 16 = n div 4096" using b by simp
    ultimately show ?thesis unfolding low_bits drop_bit_eq_div by (simp only: byte_marks(3) [OF b] of_char_of)
  qed
  show "of_char (char_of (0xF0 OR (drop_bit 18 n AND 0x07))) = 0xF0 + n div (262144 :: nat)" if "n < 2097152"
  proof -
    have b: "n div 262144 < 8" using that by simp
    then have "0xF0 + n div 262144 < 256" by linarith
    moreover have "n div 2 ^ 18 mod 8 = n div 262144" using b by simp
    ultimately show ?thesis unfolding low_bits drop_bit_eq_div by (simp only: byte_marks(4) [OF b] of_char_of)
  qed
qed

lemma tail_cont: "cont 0x80 0xBF (utf8_tail k n)"
proof -
  have "n div 2 ^ k mod 64 < (64 :: nat)" by simp
  then show ?thesis unfolding cont_def utf8_tail_byte by linarith
qed

lemma encoded_two:
  assumes "0x80 \<le> n" and "n \<le> 0x7FF"
  shows "lead2 (char_of (0xC0 OR (drop_bit 6 n AND 0x1F))) (utf8_tail 0 n)"
proof -
  have "2 \<le> n div 64" "n div 64 < 32" using assms by (simp_all add: div_less_iff_less_mult less_eq_div_iff_mult_less_eq)
  moreover have "of_char (char_of (0xC0 OR (drop_bit 6 n AND 0x1F))) = 0xC0 + n div 64"
    by (rule utf8_heads(1)) (use assms(2) in simp)
  ultimately show ?thesis using tail_cont [of 0 n] unfolding lead2_def cont_def by simp
qed

lemma encoded_three:
  assumes "0x800 \<le> n" and "n \<le> 0xFFFF" and "n < 0xD800 \<or> 0xDFFF < n"
  shows "lead3 (char_of (0xE0 OR (drop_bit 12 n AND 0x0F))) (utf8_tail 6 n)"
proof -
  let ?q = "n div 64" and ?h = "n div 4096"
  have h: "?h = ?q div 64" by (simp add: div_mult2_eq [symmetric])
  have q: "?q = 64 * ?h + ?q mod 64" unfolding h by simp
  have b: "32 \<le> ?q" "?q < 1024" "?q < 864 \<or> 896 \<le> ?q"
    using assms by (auto simp: div_less_iff_less_mult less_eq_div_iff_mult_less_eq)
  have m: "?q mod 64 < 64" by simp
  have c: "?h = 0 \<and> 32 \<le> ?q mod 64 \<or> 1 \<le> ?h \<and> ?h \<le> 12 \<or> ?h = 13 \<and> ?q mod 64 < 32 \<or> 14 \<le> ?h \<and> ?h < 16"
    using q b m by linarith
  have f: "of_char (char_of (0xE0 OR (drop_bit 12 n AND 0x0F))) = 0xE0 + ?h"
    by (rule utf8_heads(2)) (use assms(2) in simp)
  have t: "of_char (utf8_tail 6 n) = 0x80 + ?q mod 64" using utf8_tail_byte [of 6 n] by simp
  show ?thesis using c m unfolding lead3_def cont_def f t by (elim disjE) simp_all
qed

lemma encoded_four:
  assumes "0x10000 \<le> n" and "n \<le> 0x10FFFF"
  shows "lead4 (char_of (0xF0 OR (drop_bit 18 n AND 0x07))) (utf8_tail 12 n)"
proof -
  let ?q = "n div 4096" and ?h = "n div 262144"
  have h: "?h = ?q div 64" by (simp add: div_mult2_eq [symmetric])
  have q: "?q = 64 * ?h + ?q mod 64" unfolding h by simp
  have b: "16 \<le> ?q" "?q < 272"
    using assms by (auto simp: div_less_iff_less_mult less_eq_div_iff_mult_less_eq)
  have m: "?q mod 64 < 64" by simp
  have c: "?h = 0 \<and> 16 \<le> ?q mod 64 \<or> 1 \<le> ?h \<and> ?h \<le> 3 \<or> ?h = 4 \<and> ?q mod 64 < 16"
    using q b m by linarith
  have f: "of_char (char_of (0xF0 OR (drop_bit 18 n AND 0x07))) = 0xF0 + ?h"
    by (rule utf8_heads(3)) (use assms(2) in simp)
  have t: "of_char (utf8_tail 12 n) = 0x80 + ?q mod 64" using utf8_tail_byte [of 12 n] by simp
  show ?thesis using c m unfolding lead4_def cont_def f t by (elim disjE) simp_all
qed

lemma to_unicode_utf8:
  assumes "to_unicode n1 n2 = Ok u" and "n1 \<le> 0xFFFF" and "n1 < 0xDC00 \<or> 0xDFFF < n1"
  shows "utf8 u"
proof -
  obtain n where n: "n < 0xD800 \<or> 0xDFFF < n"
    and u: "(if n < 0x80 then Ok [char_of n]
        else if n \<le> 0x7ff then Ok [char_of (0xC0 OR (drop_bit 6 n AND 0x1F)), utf8_tail 0 n]
        else if n \<le> 0xffff then Ok [char_of (0xE0 OR (drop_bit 12 n AND 0x0F)), utf8_tail 6 n, utf8_tail 0 n]
        else if n \<le> 0x10ffff then
          Ok [char_of (0xF0 OR (drop_bit 18 n AND 0x07)), utf8_tail 12 n, utf8_tail 6 n, utf8_tail 0 n]
        else Throw ''code points above 0x10FFFF are invalid'') = Ok u"
  proof (cases "0xD800 \<le> n1 \<and> n1 \<le> 0xDBFF")
    case True
    let ?n = "push_bit 10 n1 + n2 - 0x35FDC00"
    from True assms(1) have low: "0xDC00 \<le> n2" "n2 \<le> 0xDFFF" by (auto simp: to_unicode_def split: if_splits)
    then have "0xDFFF < ?n" using True by (simp add: push_bit_eq_mult less_diff_conv)
    with that [of ?n] show thesis using assms(1) True low by (simp add: to_unicode_def)
  next
    case False
    with that [of n1] show thesis using assms by (auto simp: to_unicode_def)
  qed
  consider "n < 0x80" | "0x80 \<le> n" "n \<le> 0x7FF" | "0x800 \<le> n" "n \<le> 0xFFFF" | "0x10000 \<le> n" "n \<le> 0x10FFFF"
    using u by (auto split: if_splits)
  then show ?thesis
  proof cases
    case 1
    then have "u = [char_of n]" using u by simp
    then show ?thesis using 1 by (simp add: utf8_intros)
  next
    case 2
    then have "u = [char_of (0xC0 OR (drop_bit 6 n AND 0x1F)), utf8_tail 0 n]" using u by (simp split: if_splits)
    then show ?thesis using encoded_two [OF 2] utf8_intros(2) by (simp only: utf8.simps(1))
  next
    case 3
    then have "u = [char_of (0xE0 OR (drop_bit 12 n AND 0x0F)), utf8_tail 6 n, utf8_tail 0 n]"
      using u by (simp split: if_splits)
    then show ?thesis using encoded_three [OF 3 n] tail_cont utf8_intros(3) by (simp only: utf8.simps(1))
  next
    case 4
    then have "u = [char_of (0xF0 OR (drop_bit 18 n AND 0x07)), utf8_tail 12 n, utf8_tail 6 n, utf8_tail 0 n]"
      using u by (simp split: if_splits)
    then show ?thesis using encoded_four [OF 4] tail_cont utf8_intros(4) by (simp only: utf8.simps(1))
  qed
qed

section \<open>String tokens\<close>

text \<open>The bytes between the quotes: characters in UTF-8, none of them a control, and escapes.\<close>

definition plain_char :: "char \<Rightarrow> bool" where
  "plain_char c \<longleftrightarrow> 0x20 \<le> (of_char c :: nat) \<and> of_char c < (0x80 :: nat) \<and> c \<noteq> CHR 0x22 \<and> c \<noteq> CHR 0x5C"

definition escape_char :: "char \<Rightarrow> bool" where
  "escape_char c \<longleftrightarrow> c \<in> {CHR 0x22, CHR ''/'', CHR 0x5C, CHR ''b'', CHR ''f'', CHR ''n'', CHR ''r'', CHR ''t''}"

inductive str_body :: "string \<Rightarrow> bool" where
  empty: "str_body []"
| plain: "plain_char c \<Longrightarrow> str_body s \<Longrightarrow> str_body (c # s)"
| two: "lead2 c a \<Longrightarrow> str_body s \<Longrightarrow> str_body (c # a # s)"
| three: "lead3 c a \<Longrightarrow> cont 0x80 0xBF b \<Longrightarrow> str_body s \<Longrightarrow> str_body (c # a # b # s)"
| four: "lead4 c a \<Longrightarrow> cont 0x80 0xBF b \<Longrightarrow> cont 0x80 0xBF d \<Longrightarrow> str_body s \<Longrightarrow> str_body (c # a # b # d # s)"
| escape: "escape_char x \<Longrightarrow> str_body s \<Longrightarrow> str_body (CHR 0x5C # x # s)"
| code: "length hs = 4 \<Longrightarrow> \<forall>h \<in> set hs. hex_value h \<noteq> None \<Longrightarrow> str_body s \<Longrightarrow> str_body (CHR 0x5C # CHR ''u'' # hs @ s)"

text \<open>The steps backwards: a run that ends in a string token can only have gone on.\<close>

definition marker_labels :: "label set" where
  "marker_labels = {P9, P13, P15, P23, P24, P25, P49}"

lemma run_must_go:
  assumes "scan_run l mark s = (ValueString, rest)" and "fst mark \<noteq> ValueString" and "l \<notin> marker_labels"
    and "\<And>v. (\<exists>l'. move_on l v = Goto l') \<or> move_on l v = Back" and "move_on l 0 = Back"
  obtains c s' l' where "s = c # s'" "move_on l (of_char c) = Goto l'" "scan_run l' mark s' = (ValueString, rest)"
proof (cases s)
  case Nil
  then show thesis using assms(1-3,5) by (auto simp: scan_run.simps new_mark_def marker_labels_def)
next
  case (Cons c s')
  then show thesis using assms(1-3) assms(4) [of "of_char c"] that
    by (auto simp: scan_run.simps new_mark_def marker_labels_def)
qed

lemma run_between_back:
  assumes "scan_run l mark s = (ValueString, rest)" and "fst mark \<noteq> ValueString" and "l \<notin> marker_labels"
    and "move_on l = between lo hi l'" and "0 < lo"
  obtains c s' where "s = c # s'" "cont lo hi c" "scan_run l' mark s' = (ValueString, rest)"
  by (rule run_must_go [OF assms(1-3)]) (use assms(4,5) that in \<open>auto simp: between_def cont_def split: if_splits\<close>)

lemma moves_between:
  "move_on P36 = between 0x80 0xBF P30" "move_on P37 = between 0xA0 0xBF P36" "move_on P38 = between 0x80 0xBF P36"
  "move_on P39 = between 0x80 0x9F P36" "move_on P40 = between 0x90 0xBF P38" "move_on P41 = between 0x80 0xBF P38"
  "move_on P42 = between 0x80 0x8F P38"
  by (simp_all add: fun_eq_iff)

lemma hex_move_value: "hex_move l (of_char c) = Goto l' \<Longrightarrow> l' = l \<and> hex_value c \<noteq> None"
  by (auto simp: hex_move_def hex_value_def is_digit_def less_eq_char_def split: if_splits)

lemma run_hex_back:
  assumes "scan_run l mark s = (ValueString, rest)" and "fst mark \<noteq> ValueString" and "l \<notin> marker_labels"
    and "move_on l = hex_move l'"
  obtains c s' where "s = c # s'" "hex_value c \<noteq> None" "scan_run l' mark s' = (ValueString, rest)"
proof -
  have moves: "(\<exists>l'. move_on l v = Goto l') \<or> move_on l v = Back" "move_on l 0 = Back" for v
    using assms(4) by (simp_all add: hex_move_def)
  obtain c s' l'' where "s = c # s'" "move_on l (of_char c) = Goto l''" "scan_run l'' mark s' = (ValueString, rest)"
    by (rule run_must_go [OF assms(1-3) moves])
  then show thesis using that [of c s'] assms(4) hex_move_value [of l' c l''] by simp
qed

lemma run_code_back:
  assumes "scan_run P48 mark s = (ValueString, rest)" and m: "fst mark \<noteq> ValueString"
  obtains hs s' where "s = hs @ s'" "length hs = 4" "\<forall>h \<in> set hs. hex_value h \<noteq> None"
    "scan_run P30 mark s' = (ValueString, rest)"
proof -
  note step = run_hex_back [OF _ m]
  obtain a s1 where r1: "s = a # s1" "hex_value a \<noteq> None" "scan_run P57 mark s1 = (ValueString, rest)"
    by (rule step [OF assms(1), of P57]) (simp_all add: marker_labels_def fun_eq_iff)
  obtain b s2 where r2: "s1 = b # s2" "hex_value b \<noteq> None" "scan_run P63 mark s2 = (ValueString, rest)"
    by (rule step [OF r1(3), of P63]) (simp_all add: marker_labels_def fun_eq_iff)
  obtain c s3 where r3: "s2 = c # s3" "hex_value c \<noteq> None" "scan_run P66 mark s3 = (ValueString, rest)"
    by (rule step [OF r2(3), of P66]) (simp_all add: marker_labels_def fun_eq_iff)
  obtain d s4 where r4: "s3 = d # s4" "hex_value d \<noteq> None" "scan_run P30 mark s4 = (ValueString, rest)"
    by (rule step [OF r3(3), of P30]) (simp_all add: marker_labels_def fun_eq_iff)
  show thesis by (rule that [of "[a, b, c, d]" s4]) (use r1 r2 r3 r4 in simp_all)
qed

lemma escape_char_codes: "n \<in> {34, 47, 92, 98, 102, 110, 114, 116 :: nat} \<Longrightarrow> escape_char (char_of n)"
proof -
  have "\<forall>n \<in> {34, 47, 92, 98, 102, 110, 114, 116 :: nat}. escape_char (char_of n)" by code_simp
  then show "n \<in> {34, 47, 92, 98, 102, 110, 114, 116} \<Longrightarrow> escape_char (char_of n)" by blast
qed

lemma char_of_117: "char_of (117 :: nat) = CHR ''u''"
  by code_simp

lemma run_escape_back:
  assumes "scan_run P35 mark s = (ValueString, rest)" and m: "fst mark \<noteq> ValueString"
  obtains (escape) x s' where "s = x # s'" "escape_char x" "scan_run P30 mark s' = (ValueString, rest)"
    | (code) hs s' where "s = CHR ''u'' # hs @ s'" "length hs = 4" "\<forall>h \<in> set hs. hex_value h \<noteq> None"
        "scan_run P30 mark s' = (ValueString, rest)"
proof -
  have moves: "(\<exists>l'. move_on P35 v = Goto l') \<or> move_on P35 v = Back" "move_on P35 0 = Back" for v
    by (simp_all add: escape_move_def)
  obtain x s' l' where x: "s = x # s'" "move_on P35 (of_char x) = Goto l'" "scan_run l' mark s' = (ValueString, rest)"
    by (rule run_must_go [OF assms _ moves]) (simp_all add: marker_labels_def)
  have "(of_char x :: nat) \<in> {34, 47, 92, 98, 102, 110, 114, 116} \<and> l' = P30 \<or> (of_char x :: nat) = 117 \<and> l' = P48"
    using x(2) by (auto simp: escape_move_def split: if_splits)
  moreover have "x = char_of (of_char x :: nat)" by simp
  ultimately have "escape_char x \<and> l' = P30 \<or> x = CHR ''u'' \<and> l' = P48"
    by (metis (no_types) escape_char_codes char_of_117)
  then show thesis
  proof (elim disjE conjE)
    assume "escape_char x" "l' = P30"
    then show thesis using x by (intro escape) simp_all
  next
    assume u: "x = CHR ''u''" "l' = P48"
    then have "scan_run P48 mark s' = (ValueString, rest)" using x(3) by simp
    then show thesis using m by (rule run_code_back) (use x u code in blast)
  qed
qed

lemma char_of_code: "(of_char c :: nat) = of_char d \<longleftrightarrow> c = d"
  by simp

lemma in_string_cases:
  assumes "in_string_move (of_char c) = Goto l"
  obtains "l = P30" "plain_char c" | "l = P35" "c = CHR 0x5C" | "l = P36" "cont 0xC2 0xDF c"
    | "l = P37" "of_char c = (0xE0 :: nat)" | "l = P38" "cont 0xE1 0xEC c \<or> cont 0xEE 0xEF c"
    | "l = P39" "of_char c = (0xED :: nat)" | "l = P40" "of_char c = (0xF0 :: nat)" | "l = P41" "cont 0xF1 0xF3 c"
    | "l = P42" "of_char c = (0xF4 :: nat)"
proof -
  let ?v = "of_char c :: nat"
  have bs: "c = CHR 0x5C \<longleftrightarrow> ?v = 92" and qu: "c = CHR 0x22 \<longleftrightarrow> ?v = 34"
    using char_of_code [of c "CHR 0x5C"] char_of_code [of c "CHR 0x22"] by simp_all
  have "l = P30 \<and> plain_char c \<or> l = P35 \<and> ?v = 92 \<or> l = P36 \<and> cont 0xC2 0xDF c
      \<or> l = P37 \<and> ?v = 0xE0 \<or> l = P38 \<and> (cont 0xE1 0xEC c \<or> cont 0xEE 0xEF c)
      \<or> l = P39 \<and> ?v = 0xED \<or> l = P40 \<and> ?v = 0xF0 \<or> l = P41 \<and> cont 0xF1 0xF3 c \<or> l = P42 \<and> ?v = 0xF4"
    using assms unfolding in_string_move_def plain_char_def cont_def bs qu by (auto split: if_split_asm)
  then show thesis using that bs by blast
qed

text \<open>The rest of a character of two, three or four bytes.\<close>

lemma two_back:
  assumes "scan_run P36 mark s = (ValueString, rest)" and "fst mark \<noteq> ValueString"
  obtains a s' where "s = a # s'" "cont 0x80 0xBF a" "scan_run P30 mark s' = (ValueString, rest)"
  by (rule run_between_back [OF assms _ moves_between(1)]) (use that in \<open>simp_all add: marker_labels_def\<close>)

lemma three_back:
  assumes "scan_run l mark s = (ValueString, rest)" and m: "fst mark \<noteq> ValueString" and "l \<notin> marker_labels"
    and "move_on l = between lo hi P36" and "0 < lo"
  obtains a b s' where "s = a # b # s'" "cont lo hi a" "cont 0x80 0xBF b" "scan_run P30 mark s' = (ValueString, rest)"
proof -
  obtain a s1 where a: "s = a # s1" "cont lo hi a" "scan_run P36 mark s1 = (ValueString, rest)"
    by (rule run_between_back [OF assms])
  obtain b s2 where "s1 = b # s2" "cont 0x80 0xBF b" "scan_run P30 mark s2 = (ValueString, rest)"
    using a(3) m by (rule two_back)
  with a that show thesis by simp
qed

lemma four_back:
  assumes "scan_run l mark s = (ValueString, rest)" and m: "fst mark \<noteq> ValueString" and "l \<notin> marker_labels"
    and "move_on l = between lo hi P38" and "0 < lo"
  obtains a b d s' where "s = a # b # d # s'" "cont lo hi a" "cont 0x80 0xBF b" "cont 0x80 0xBF d"
    "scan_run P30 mark s' = (ValueString, rest)"
proof -
  obtain a s1 where a: "s = a # s1" "cont lo hi a" "scan_run P38 mark s1 = (ValueString, rest)"
    by (rule run_between_back [OF assms])
  obtain b d s2 where "s1 = b # d # s2" "cont 0x80 0xBF b" "cont 0x80 0xBF d" "scan_run P30 mark s2 = (ValueString, rest)"
    by (rule three_back [OF a(3) m _ moves_between(3)]) (simp_all add: marker_labels_def)
  with a that show thesis by simp
qed

text \<open>So a run through a string passes whole characters and escapes only.\<close>

lemma run_body_step:
  assumes "scan_run P30 mark s = (ValueString, rest)" and m: "fst mark \<noteq> ValueString"
  obtains (end_quote) "s = CHR 0x22 # rest"
    | (more) pre s' where "s = pre @ s'" "pre \<noteq> []" "\<And>t. str_body t \<Longrightarrow> str_body (pre @ t)"
        "scan_run P30 mark s' = (ValueString, rest)"
proof -
  obtain c s' where c: "s = c # s'"
    using assms by (cases s) (auto simp: scan_run.simps in_string_move_def new_mark_def)
  show thesis
  proof (cases "in_string_move (of_char c)")
    case (Goto l)
    have run: "scan_run l mark s' = (ValueString, rest)"
      using assms(1) Goto by (simp add: c scan_run.simps new_mark_def)
    have three: thesis if l: "move_on l = between lo hi P36" "l \<notin> marker_labels" "0 < lo"
      and ok: "\<And>a. cont lo hi a \<Longrightarrow> lead3 c a" for lo hi
    proof -
      obtain a b s1 where "s' = a # b # s1" "cont lo hi a" "cont 0x80 0xBF b" "scan_run P30 mark s1 = (ValueString, rest)"
        using run m l(2,1,3) by (rule three_back)
      then show thesis using ok [of a] by (intro more [of "[c, a, b]" s1]) (simp_all add: c str_body.three)
    qed
    have four: thesis if l: "move_on l = between lo hi P38" "l \<notin> marker_labels" "0 < lo"
      and ok: "\<And>a. cont lo hi a \<Longrightarrow> lead4 c a" for lo hi
    proof -
      obtain a b d s1 where "s' = a # b # d # s1" "cont lo hi a" "cont 0x80 0xBF b" "cont 0x80 0xBF d"
          "scan_run P30 mark s1 = (ValueString, rest)"
        using run m l(2,1,3) by (rule four_back)
      then show thesis using ok [of a] by (intro more [of "[c, a, b, d]" s1]) (simp_all add: c str_body.four)
    qed
    from Goto show thesis
    proof (cases rule: in_string_cases)
      case 1
      then show thesis using run by (intro more [of "[c]" s']) (simp_all add: c str_body.plain)
    next
      case 2
      then have "scan_run P35 mark s' = (ValueString, rest)" using run by simp
      from this m show thesis
      proof (cases rule: run_escape_back)
        case (escape x s1)
        then show thesis using 2 by (intro more [of "[c, x]" s1]) (simp_all add: c str_body.escape)
      next
        case (code hs s1)
        then show thesis using 2 str_body.code [of hs] by (intro more [of "c # CHR ''u'' # hs" s1]) (simp_all add: c)
      qed
    next
      case 3
      obtain a s1 where "s' = a # s1" "cont 0x80 0xBF a" "scan_run P30 mark s1 = (ValueString, rest)"
        using run m unfolding 3(1) by (rule two_back)
      then show thesis using 3(2) by (intro more [of "[c, a]" s1]) (simp_all add: c str_body.two lead2_def)
    next
      case 4
      show thesis by (rule three [of "0xA0" "0xBF"])
          (use 4 moves_between(2) in \<open>simp_all add: marker_labels_def lead3_def\<close>)
    next
      case 5
      show thesis by (rule three [of "0x80" "0xBF"])
          (use 5 moves_between(3) in \<open>auto simp: marker_labels_def lead3_def\<close>)
    next
      case 6
      show thesis by (rule three [of "0x80" "0x9F"])
          (use 6 moves_between(4) in \<open>simp_all add: marker_labels_def lead3_def\<close>)
    next
      case 7
      show thesis by (rule four [of "0x90" "0xBF"])
          (use 7 moves_between(5) in \<open>simp_all add: marker_labels_def lead4_def\<close>)
    next
      case 8
      show thesis by (rule four [of "0x80" "0xBF"])
          (use 8 moves_between(6) in \<open>simp_all add: marker_labels_def lead4_def\<close>)
    next
      case 9
      show thesis by (rule four [of "0x80" "0x8F"])
          (use 9 moves_between(7) in \<open>simp_all add: marker_labels_def lead4_def\<close>)
    qed
  next
    case (Take t)
    then have "(of_char c :: nat) = 34" "t = ValueString" by (auto simp: in_string_move_def split: if_splits)
    then have "c = CHR 0x22" using char_of_code [of c "CHR 0x22"] by simp
    then show thesis using assms(1) Take end_quote by (simp add: c scan_run.simps)
  next
    case (Stop t)
    then show thesis by (auto simp: in_string_move_def split: if_splits)
  next
    case Back
    then show thesis using assms by (simp add: c scan_run.simps new_mark_def)
  qed
qed

lemma run_body:
  "scan_run P30 mark s = (ValueString, rest) \<Longrightarrow> fst mark \<noteq> ValueString \<Longrightarrow>
     \<exists>body. s = body @ CHR 0x22 # rest \<and> str_body body"
proof (induction "length s" arbitrary: s rule: less_induct)
  case less
  from less.prems show ?case
  proof (cases rule: run_body_step)
    case end_quote
    then show ?thesis by (intro exI [of _ "[]"]) (simp add: str_body.empty)
  next
    case (more pre s')
    then obtain body where "s' = body @ CHR 0x22 # rest" "str_body body"
      using less.hyps [of s'] less.prems(2) by auto
    then show ?thesis using more by (intro exI [of _ "pre @ body"]) simp
  qed
qed

section \<open>What \<^verbatim>\<open>get_string\<close> makes of a token\<close>

lemma high_not_backslash: "(0x80 :: nat) \<le> of_char c \<Longrightarrow> c \<noteq> CHR 0x5C"
  by auto

lemma cont_not_backslash: "cont lo hi c \<Longrightarrow> 0x80 \<le> lo \<Longrightarrow> c \<noteq> CHR 0x5C"
  by (rule high_not_backslash) (simp add: cont_def)

lemma lead_not_backslash:
  "lead2 c a \<Longrightarrow> c \<noteq> CHR 0x5C \<and> a \<noteq> CHR 0x5C" "lead3 c a \<Longrightarrow> c \<noteq> CHR 0x5C \<and> a \<noteq> CHR 0x5C"
  "lead4 c a \<Longrightarrow> c \<noteq> CHR 0x5C \<and> a \<noteq> CHR 0x5C"
  by (auto simp: lead2_def lead3_def lead4_def cont_def)

lemma hex_value_bound: "hex_value h = Some d \<Longrightarrow> d < 16"
  by (auto simp: hex_value_def is_digit_def less_eq_char_def split: if_splits)

lemma strtoul16_bound:
  "\<forall>h \<in> set hs. hex_value h \<noteq> None \<Longrightarrow> strtoul16 acc hs < 16 ^ length hs * (acc + 1)"
proof (induction hs arbitrary: acc)
  case (Cons h hs)
  then obtain d where d: "hex_value h = Some d" by auto
  have "16 * acc + d + 1 \<le> 16 * (acc + 1)" using hex_value_bound [OF d] by simp
  then have "16 ^ length hs * (16 * acc + d + 1) \<le> 16 ^ length hs * (16 * (acc + 1))" by (rule mult_le_mono2)
  moreover have "strtoul16 (16 * acc + d) hs < 16 ^ length hs * (16 * acc + d + 1)"
    using Cons.IH [of "16 * acc + d"] Cons.prems by simp
  ultimately have "strtoul16 (16 * acc + d) hs < 16 ^ length hs * (16 * (acc + 1))" by linarith
  then show ?case using d by (simp add: algebra_simps)
qed simp

lemma four_digits:
  assumes "length hs = 4" and "\<forall>h \<in> set hs. hex_value h \<noteq> None"
  shows "strtoul16 0 (take 4 (hs @ s)) \<le> 0xFFFF" "drop 4 (hs @ s) = s"
  using strtoul16_bound [OF assms(2), of 0] assms(1) by simp_all

lemma get_string_code:
  "get_string_loop (CHR 0x5C # CHR ''u'' # t) r =
     (let codepoint = strtoul16 0 (take 4 t) in
      if 0xD800 \<le> codepoint \<and> codepoint \<le> 0xDBFF then
        (if take 2 (drop 4 t) \<noteq> [CHR 0x5C, CHR ''u''] then Throw ''missing low surrogate''
         else obind (to_unicode codepoint (strtoul16 0 (take 4 (drop 6 t))))
           (\<lambda>u. get_string_loop (drop 10 t) (r @ u)))
      else if 0xDC00 \<le> codepoint \<and> codepoint \<le> 0xDFFF then Throw ''missing high surrogate''
      else obind (to_unicode codepoint 0) (\<lambda>u. get_string_loop (drop 4 t) (r @ u)))"
  by simp

definition unescaped :: "char \<Rightarrow> char" where
  "unescaped x =
     (if x = CHR ''b'' then CHR 0x08 else if x = CHR ''f'' then CHR 0x0C else if x = CHR ''n'' then CHR 0x0A
      else if x = CHR ''r'' then CHR 0x0D else if x = CHR ''t'' then CHR 0x09 else x)"

lemma get_string_escape_char:
  assumes "escape_char x"
  shows "get_string_loop (CHR 0x5C # x # s) r = get_string_loop s (r @ [unescaped x])"
    and "of_char (unescaped x) < (0x80 :: nat)"
proof -
  from assms have "x = CHR 0x22 \<or> x = CHR ''/'' \<or> x = CHR 0x5C \<or> x = CHR ''b'' \<or> x = CHR ''f'' \<or>
      x = CHR ''n'' \<or> x = CHR ''r'' \<or> x = CHR ''t''"
    by (simp add: escape_char_def)
  then show "get_string_loop (CHR 0x5C # x # s) r = get_string_loop s (r @ [unescaped x])"
    "of_char (unescaped x) < (0x80 :: nat)"
    by (elim disjE; simp add: unescaped_def get_string_loop.simps(2) [of "CHR 0x5C"] del: get_string_loop.simps)+
qed

declare get_string_loop.simps(2) [simp del]

text \<open>One character or escape at a time; an escaped high surrogate takes the next escape with it.\<close>

lemma get_string_step:
  assumes "str_body s" and "s \<noteq> []" and "get_string_loop s r = Ok r'"
  obtains u s' where "str_body s'" "length s' < length s" "utf8 u" "get_string_loop s' (r @ u) = Ok r'"
  using assms(1)
proof cases
  case empty
  then show thesis using assms(2) by simp
next
  case (plain c s1)
  then show thesis using assms(3) by (intro that [of s1 "[c]"]) (simp_all add: plain_char_def get_string_plain utf8_intros)
next
  case (two c a s1)
  then show thesis using assms(3) lead_not_backslash(1)
    by (intro that [of s1 "[c, a]"]) (simp_all add: get_string_plain utf8_intros)
next
  case (three c a b s1)
  then show thesis using assms(3) lead_not_backslash(2) cont_not_backslash [of "0x80" "0xBF"]
    by (intro that [of s1 "[c, a, b]"]) (simp_all add: get_string_plain utf8_intros)
next
  case (four c a b d s1)
  then show thesis using assms(3) lead_not_backslash(3) cont_not_backslash [of "0x80" "0xBF"]
    by (intro that [of s1 "[c, a, b, d]"]) (simp_all add: get_string_plain utf8_intros)
next
  case (escape x s1)
  then show thesis using assms(3) get_string_escape_char [OF escape(2)]
    by (intro that [of s1 "[unescaped x]"]) (simp_all add: utf8_intros)
next
  case (code hs s1)
  let ?n = "strtoul16 0 (take 4 (hs @ s1))"
  note digits = four_digits [OF code(2,3), of s1]
  note run = assms(3) [unfolded code(1) get_string_code Let_def]
  show thesis
  proof (cases "0xD800 \<le> ?n \<and> ?n \<le> 0xDBFF")
    case False
    with run obtain u where "to_unicode ?n 0 = Ok u" "get_string_loop s1 (r @ u) = Ok r'" "?n < 0xDC00 \<or> 0xDFFF < ?n"
      unfolding digits(2) by (auto simp: obind_eq_Ok split: if_splits)
    then show thesis using digits(1) code(1,4) by (intro that [of s1 u]) (simp_all add: to_unicode_utf8)
  next
    case True
    with run have next2: "take 2 s1 = [CHR 0x5C, CHR ''u'']"
      unfolding digits(2) by (simp split: if_splits)
    from code(4) obtain hs2 s2 where 2: "s1 = CHR 0x5C # CHR ''u'' # hs2 @ s2" "length hs2 = 4" "str_body s2"
      by (cases rule: str_body.cases) (use next2 in \<open>auto simp: plain_char_def escape_char_def lead2_def lead3_def lead4_def cont_def\<close>)
    have "drop 10 (hs @ s1) = s2" using code(2) 2(1,2) by simp
    with run True next2 obtain u n2 where "to_unicode ?n n2 = Ok u" "get_string_loop s2 (r @ u) = Ok r'"
      unfolding digits(2) by (auto simp: obind_eq_Ok split: if_splits)
    then show thesis using digits(1) True 2 code(1,2) by (intro that [of s2 u]) (simp_all add: to_unicode_utf8)
  qed
qed

lemma get_string_utf8: "str_body s \<Longrightarrow> utf8 r \<Longrightarrow> get_string_loop s r = Ok r' \<Longrightarrow> utf8 r'"
proof (induction "length s" arbitrary: s r rule: less_induct)
  case less
  show ?case
  proof (cases "s = []")
    case False
    then obtain u s' where "str_body s'" "length s' < length s" "utf8 u" "get_string_loop s' (r @ u) = Ok r'"
      using get_string_step [OF less.prems(1) _ less.prems(3)] by blast
    then show ?thesis using less.hyps [of s' "r @ u"] utf8_append [OF less.prems(2)] by simp
  qed (use less.prems in simp)
qed

section \<open>What \<^verbatim>\<open>scan\<close> delivers as a string\<close>

definition other_labels :: "label set" where
  "other_labels = {P12, P13, P15, P23, P24, P25, P43, P44, P45, P46, P47, P49, P51, P52, P54, P55, P56, P58}"

lemma other_moves:
  "l \<in> other_labels \<Longrightarrow>
     (case move_on l v of Goto l' \<Rightarrow> l' \<in> other_labels | Take t \<Rightarrow> t \<noteq> ValueString | Stop t \<Rightarrow> t \<noteq> ValueString | Back \<Rightarrow> True)"
  unfolding other_labels_def by (elim insertE; simp add: only_def)

lemma run_no_string:
  "l \<in> other_labels \<Longrightarrow> fst mark \<noteq> ValueString \<Longrightarrow> fst (scan_run l mark s) \<noteq> ValueString"
proof (induction l mark s rule: scan_run.induct)
  case (1 l mark)
  then show ?case using other_moves [OF 1(1), of 0]
    by (auto simp: scan_run.simps new_mark_def split: move.splits)
next
  case (2 l mark c s)
  have m: "fst (new_mark l (c # s) mark) \<noteq> ValueString" using 2(3) by (simp add: new_mark_def)
  show ?case
  proof (cases "move_on l (of_char c)")
    case (Goto l')
    then have "l' \<in> other_labels" using other_moves [OF 2(2), of "of_char c"] by simp
    then show ?thesis using 2(1) [OF refl Goto _ m] Goto by (simp add: scan_run.simps)
  qed (use m other_moves [OF 2(2), of "of_char c"] in \<open>simp_all add: scan_run.simps\<close>)
qed

lemma run_string_start:
  assumes "scan_run P9 mark s = (ValueString, rest)"
  shows "scan_run P30 (ParseError, s) s = (ValueString, rest)"
proof (cases s)
  case Nil
  then show ?thesis using assms by (simp add: scan_run.simps string_start_move_def new_mark_def)
next
  case (Cons c s')
  have "string_start_move (of_char c) = in_string_move (of_char c) \<or> string_start_move (of_char c) = Stop ParseError"
    by (simp add: string_start_move_def)
  then show ?thesis using assms by (auto simp: Cons scan_run.simps new_mark_def split: move.splits)
qed

lemma start_moves:
  "start_move v = Goto l \<Longrightarrow> v = 34 \<and> l = P9 \<or> l \<in> other_labels" "start_move v \<noteq> Take ValueString"
  "start_move v \<noteq> Stop t" "start_move v \<noteq> Back"
  by (auto simp: start_move_def other_labels_def split: if_splits)

lemma scan_string_token:
  assumes "scan s = (ValueString, txt, rest)"
  shows "\<exists>body. txt = CHR 0x22 # body @ [CHR 0x22] \<and> str_body body"
proof (cases "dropWhile is_json_space s")
  case Nil
  have "scan s = (EndOfInput, [], [])" unfolding scan_def Nil by simp
  then show ?thesis using assms by simp
next
  case (Cons c r)
  show ?thesis
  proof (cases "start_move (of_char c)")
    case (Goto l)
    then have run: "scan_run l (ParseError, r) r = (ValueString, rest)"
      and shape: "txt = take (length (c # r) - length rest) (c # r)"
      using assms Cons by (auto simp: scan_def split: prod.splits)
    have "l \<notin> other_labels" using run_no_string [of l "(ParseError, r)" r] run by auto
    then have c: "(of_char c :: nat) = 34" "l = P9" using start_moves(1) [OF Goto] by auto
    then obtain body where "r = body @ CHR 0x22 # rest" "str_body body"
      using run_body [of "(ParseError, r)" r rest] run_string_start [of "(ParseError, r)" r rest] run by auto
    moreover have "c = CHR 0x22" using c(1) char_of_code [of c "CHR 0x22"] by simp
    ultimately show ?thesis using shape by simp
  qed (use assms Cons start_moves in \<open>auto simp: scan_def split: prod.splits\<close>)
qed

text \<open>The bytes between the quotes of any string token, read by \<^verbatim>\<open>get_string\<close>, are UTF-8.\<close>

lemma scanned_string_utf8:
  assumes "scan s = (ValueString, txt, rest)" and "get_string (butlast (tl txt)) = Ok k"
  shows "utf8 k"
proof -
  obtain body where "txt = CHR 0x22 # body @ [CHR 0x22]" "str_body body" using scan_string_token [OF assms(1)] by blast
  then show ?thesis using assms(2) get_string_utf8 [of body "[]" k] by (simp add: get_string_def)
qed

end
