(* ===== verification/JsonParse.thy ===== *)
theory JsonParse
  imports JsonText
begin

text \<open>
  The parser of \<^verbatim>\<open>include/json.h\<close> without callback, as the worker calls it
  (\<^verbatim>\<open>json::parse(text)\<close>), and the value of a number token. A parser state is the last
  token, its bytes and the bytes left. How \<^verbatim>\<open>strtod\<close> reads a token is the argument
  \<open>read_double\<close>: its sign and value, or \<open>None\<close> where the result is not finite. The
  recursion is cut by fuel; \<open>None\<close> is a run that needed more, and the fuel
  \<open>json_parse\<close> gives is shown to be enough for every text. The depth of the C++ stack is
  not modelled.
\<close>

section \<open>Numbers\<close>

fun number_loop :: "u64 \<Rightarrow> string \<Rightarrow> bool \<Rightarrow> u64 \<Rightarrow> bool \<times> u64" where
  "number_loop max_val [] is_float val = (is_float, val)"
| "number_loop max_val (c # s) is_float val =
    (if \<not> is_digit c then (if c = CHR ''.'' then number_loop max_val s True val else (True, val))
     else if \<not> is_float then
       (let digit = word_of_nat (of_char c - 48) in
        if val > (max_val - digit) div 10 then number_loop max_val s True val
        else number_loop max_val s False (val * 10 + digit))
     else number_loop max_val s is_float val)"

definition get_number :: "(string \<Rightarrow> (bool \<times> rat) option) \<Rightarrow> string \<Rightarrow> json" where
  "get_number read_double txt =
    (let negative = (txt \<noteq> [] \<and> hd txt = CHR ''-'');
         max_val = (if negative then 0x7FFFFFFFFFFFFFFF + 1 else 0xFFFFFFFFFFFFFFFF) in
     case number_loop max_val (if negative then tl txt else txt) False 0 of
       (is_float, val) \<Rightarrow>
         if is_float then (case read_double txt of Some (neg, r) \<Rightarrow> JFloat neg r | None \<Rightarrow> JNull)
         else if negative then JInteger (if val = max_val then 0x8000000000000000 else - val)
         else JUnsigned val)"

section \<open>Parser\<close>

type_synonym pstate = "token \<times> string \<times> string"

definition get_token :: "pstate \<Rightarrow> pstate" where
  "get_token st = scan (snd (snd st))"

definition unexpected :: "pstate \<Rightarrow> string" where
  "unexpected st =
     ''parse error - unexpected '' @
     (if fst st = ParseError then [CHR 0x27] @ fst (snd st) @ [CHR 0x27] else token_type_name (fst st))"

definition expect :: "token \<Rightarrow> pstate \<Rightarrow> unit outcome" where
  "expect t st = (if t \<noteq> fst st then Throw (unexpected st @ ''; expected '' @ token_type_name t) else Ok ())"

definition unexpect :: "token \<Rightarrow> pstate \<Rightarrow> unit outcome" where
  "unexpect t st = (if t = fst st then Throw (unexpected st) else Ok ())"

definition string_of_token :: "pstate \<Rightarrow> string outcome" where
  "string_of_token st = get_string (butlast (tl (fst (snd st))))"

text \<open>A call that needs no fuel, before one that does.\<close>

definition after :: "'a outcome \<Rightarrow> ('a \<Rightarrow> 'b outcome option) \<Rightarrow> 'b outcome option" where
  "after m f = (case m of Ok a \<Rightarrow> f a | Throw e \<Rightarrow> Some (Throw e) | Fault x \<Rightarrow> Some (Fault x))"

definition pbind :: "'a outcome option \<Rightarrow> ('a \<Rightarrow> 'b outcome option) \<Rightarrow> 'b outcome option" where
  "pbind m f = (case m of None \<Rightarrow> None | Some r \<Rightarrow> after r f)"

definition push_back :: "json \<Rightarrow> json \<Rightarrow> json" where
  "push_back j v = (case j of JArray a \<Rightarrow> JArray (a @ [v]) | _ \<Rightarrow> j)"

text \<open>
  The three parts of \<^verbatim>\<open>parse_internal\<close>: a value, the members of an object, the elements
  of an array; \<open>pv\<close>, \<open>pm\<close> and \<open>pe\<close> stand for the calls with the fuel that is left.
\<close>

type_synonym parse_result = "(json \<times> pstate) outcome option"

definition value_step ::
  "(string \<Rightarrow> (bool \<times> rat) option) \<Rightarrow> (json \<Rightarrow> pstate \<Rightarrow> parse_result) \<Rightarrow> (json \<Rightarrow> pstate \<Rightarrow> parse_result) \<Rightarrow>
     pstate \<Rightarrow> parse_result" where
  "value_step rd pm pe st =
    (case fst st of
       BeginObject \<Rightarrow>
         (let st1 = get_token st in
          if fst st1 = EndObject then Some (Ok (JObject [], get_token st1))
          else after (unexpect ValueSeparator st1) (\<lambda>_. pm (JObject []) st1))
     | BeginArray \<Rightarrow>
         (let st1 = get_token st in
          if fst st1 = EndArray then Some (Ok (JArray [], get_token st1))
          else after (unexpect ValueSeparator st1) (\<lambda>_. pe (JArray []) st1))
     | LiteralNull \<Rightarrow> Some (Ok (JNull, get_token st))
     | ValueString \<Rightarrow> after (string_of_token st) (\<lambda>s. Some (Ok (JString s, get_token st)))
     | LiteralTrue \<Rightarrow> Some (Ok (JBoolean True, get_token st))
     | LiteralFalse \<Rightarrow> Some (Ok (JBoolean False, get_token st))
     | ValueNumber \<Rightarrow> Some (Ok (get_number rd (fst (snd st)), get_token st))
     | t \<Rightarrow> after (unexpect t st) (\<lambda>_. Some (Ok (JDiscarded, st))))"

definition members_step ::
  "(pstate \<Rightarrow> parse_result) \<Rightarrow> (json \<Rightarrow> pstate \<Rightarrow> parse_result) \<Rightarrow> json \<Rightarrow> pstate \<Rightarrow> parse_result" where
  "members_step pv pm result st0 =
    (let st = (if fst st0 = ValueSeparator then get_token st0 else st0) in
     after (expect ValueString st) (\<lambda>_. after (string_of_token st) (\<lambda>key.
       (let st1 = get_token st in
        after (expect NameSeparator st1) (\<lambda>_.
          pbind (pv (get_token st1)) (\<lambda>(v, st2).
            after (if v \<noteq> JDiscarded then json_assign result key v else Ok result) (\<lambda>result'.
              if fst st2 = ValueSeparator then pm result' st2
              else after (expect EndObject st2) (\<lambda>_. Some (Ok (result', get_token st2))))))))))"

definition elements_step ::
  "(pstate \<Rightarrow> parse_result) \<Rightarrow> (json \<Rightarrow> pstate \<Rightarrow> parse_result) \<Rightarrow> json \<Rightarrow> pstate \<Rightarrow> parse_result" where
  "elements_step pv pe result st0 =
    (let st = (if fst st0 = ValueSeparator then get_token st0 else st0) in
     pbind (pv st) (\<lambda>(v, st2).
       (let result' = (if v \<noteq> JDiscarded then push_back result v else result) in
        if fst st2 = ValueSeparator then pe result' st2
        else after (expect EndArray st2) (\<lambda>_. Some (Ok (result', get_token st2))))))"

fun parse_value :: "(string \<Rightarrow> (bool \<times> rat) option) \<Rightarrow> nat \<Rightarrow> pstate \<Rightarrow> parse_result"
and parse_members :: "(string \<Rightarrow> (bool \<times> rat) option) \<Rightarrow> nat \<Rightarrow> json \<Rightarrow> pstate \<Rightarrow> parse_result"
and parse_elements :: "(string \<Rightarrow> (bool \<times> rat) option) \<Rightarrow> nat \<Rightarrow> json \<Rightarrow> pstate \<Rightarrow> parse_result"
where
  "parse_value rd 0 st = None"
| "parse_value rd (Suc n) st = value_step rd (parse_members rd n) (parse_elements rd n) st"
| "parse_members rd 0 result st = None"
| "parse_members rd (Suc n) result st = members_step (parse_value rd n) (parse_members rd n) result st"
| "parse_elements rd 0 result st = None"
| "parse_elements rd (Suc n) result st = elements_step (parse_value rd n) (parse_elements rd n) result st"

definition json_parse :: "(string \<Rightarrow> (bool \<times> rat) option) \<Rightarrow> string \<Rightarrow> json outcome option" where
  "json_parse rd doc =
     pbind (parse_value rd (2 * length doc + 3) (scan doc))
       (\<lambda>(result, st). after (expect EndOfInput st) (\<lambda>_. Some (Ok (if result = JDiscarded then JNull else result))))"

section \<open>Lemmas\<close>

lemmas parse_value_Suc [simp] = parse_value.simps(2) [unfolded value_step_def]
lemmas parse_members_Suc [simp] = parse_members.simps(2) [unfolded members_step_def]
lemmas parse_elements_Suc [simp] = parse_elements.simps(2) [unfolded elements_step_def]

declare parse_value.simps(2) [simp del] parse_members.simps(2) [simp del] parse_elements.simps(2) [simp del]

lemma after_Ok [simp]: "after (Ok a) f = f a"
  by (simp add: after_def)

lemma after_eq_Ok: "after m f = Some (Ok b) \<longleftrightarrow> (\<exists>a. m = Ok a \<and> f a = Some (Ok b))"
  by (cases m) (simp_all add: after_def)

lemma after_eq_None: "after m f = None \<longleftrightarrow> (\<exists>a. m = Ok a \<and> f a = None)"
  by (cases m) (simp_all add: after_def)

lemma pbind_Some [simp]: "pbind (Some r) f = after r f"
  by (simp add: pbind_def)

lemma pbind_eq_Ok: "pbind m f = Some (Ok b) \<longleftrightarrow> (\<exists>a. m = Some (Ok a) \<and> f a = Some (Ok b))"
  by (cases m) (simp_all add: pbind_def after_eq_Ok)

lemma pbind_eq_None: "pbind m f = None \<longleftrightarrow> m = None \<or> (\<exists>a. m = Some (Ok a) \<and> f a = None)"
  by (cases m) (simp_all add: pbind_def after_eq_None)

lemma expect_Ok: "expect t st = Ok u \<longleftrightarrow> fst st = t"
  by (auto simp: expect_def)

lemma unexpect_Ok: "unexpect t st = Ok u \<longleftrightarrow> fst st \<noteq> t"
  by (auto simp: unexpect_def)

lemmas parse_steps = after_eq_Ok after_eq_None pbind_eq_Ok pbind_eq_None expect_Ok unexpect_Ok

subsection \<open>Progress and termination\<close>

definition psize :: "pstate \<Rightarrow> nat" where
  "psize st = length (snd (snd st)) + (if fst st = EndOfInput then 0 else 1)"

lemma get_token_size:
  "psize (get_token st) \<le> psize st" "fst st \<noteq> EndOfInput \<Longrightarrow> psize (get_token st) < psize st"
  using scan_shrinks [of "snd (snd st)"] by (cases "scan (snd (snd st))"; auto simp: get_token_def psize_def)+

lemma skip_comma_size:
  "psize (if fst st = ValueSeparator then get_token st else st) \<le> psize st"
  using get_token_size(1) by simp

text \<open>A value that was parsed took at least its first token.\<close>

lemma parse_smaller:
  "(\<forall>st v st'. parse_value rd n st = Some (Ok (v, st')) \<longrightarrow> psize st' < psize st) \<and>
   (\<forall>r st v st'. parse_members rd n r st = Some (Ok (v, st')) \<longrightarrow> psize st' < psize st) \<and>
   (\<forall>r st v st'. parse_elements rd n r st = Some (Ok (v, st')) \<longrightarrow> psize st' < psize st)"
proof (induction n)
  case 0
  then show ?case by simp
next
  case (Suc n)
  have V: "psize st' < psize st" if "parse_value rd n st = Some (Ok (v, st'))" for st v st'
    using Suc that by blast
  have M: "psize st' < psize st" if "parse_members rd n r st = Some (Ok (v, st'))" for r st v st'
    using Suc that by blast
  have E: "psize st' < psize st" if "parse_elements rd n r st = Some (Ok (v, st'))" for r st v st'
    using Suc that by blast
  have "psize st' < psize st" if "parse_value rd (Suc n) st = Some (Ok (v, st'))" for st v st'
  proof -
    have t: "fst st \<noteq> EndOfInput" using that by (auto simp: parse_steps)
    have "psize st' \<le> psize (get_token st)"
      using that less_imp_le [OF M [of "JObject []" "get_token st" v st']]
        less_imp_le [OF E [of "JArray []" "get_token st" v st']] get_token_size(1) [of "get_token st"]
      by (cases "fst st") (auto simp: parse_steps Let_def less_imp_le split: if_splits)
    then show ?thesis using get_token_size(2) [OF t] by simp
  qed
  moreover have "psize st' < psize st0" if h: "parse_members rd (Suc n) r st0 = Some (Ok (v, st'))" for r st0 v st'
  proof -
    let ?st = "if fst st0 = ValueSeparator then get_token st0 else st0"
    obtain x st2 r' where x: "parse_value rd n (get_token (get_token ?st)) = Some (Ok (x, st2))"
      and r: "(if fst st2 = ValueSeparator then parse_members rd n r' st2
              else after (expect EndObject st2) (\<lambda>_. Some (Ok (r', get_token st2)))) = Some (Ok (v, st'))"
      using h by (auto simp: Let_def parse_steps simp del: parse_value_Suc)
    have "psize st' \<le> psize st2"
      using r M get_token_size(1) [of st2] by (auto simp: parse_steps less_imp_le split: if_splits)
    also have "\<dots> < psize (get_token (get_token ?st))" by (rule V [OF x])
    also have "\<dots> \<le> psize st0"
      using get_token_size(1) skip_comma_size by (metis order_trans)
    finally show ?thesis .
  qed
  moreover have "psize st' < psize st0" if h: "parse_elements rd (Suc n) r st0 = Some (Ok (v, st'))" for r st0 v st'
  proof -
    let ?st = "if fst st0 = ValueSeparator then get_token st0 else st0"
    obtain x st2 r' where x: "parse_value rd n ?st = Some (Ok (x, st2))"
      and r: "(if fst st2 = ValueSeparator then parse_elements rd n r' st2
              else after (expect EndArray st2) (\<lambda>_. Some (Ok (r', get_token st2)))) = Some (Ok (v, st'))"
      using h by (auto simp: Let_def parse_steps simp del: parse_value_Suc)
    have "psize st' \<le> psize st2"
      using r E get_token_size(1) [of st2] by (auto simp: parse_steps less_imp_le split: if_splits)
    also have "\<dots> < psize ?st" by (rule V [OF x])
    also have "\<dots> \<le> psize st0" by (rule skip_comma_size)
    finally show ?thesis .
  qed
  ultimately show ?case by blast
qed

lemma parse_value_smaller: "parse_value rd n st = Some (Ok (v, st')) \<Longrightarrow> psize st' < psize st"
  using parse_smaller by blast

text \<open>
  Fuel beyond twice the size of the state is enough: an array uses two calls for the first token of
  an element.
\<close>

lemma parse_enough:
  "(\<forall>st. 2 * psize st < n \<longrightarrow> parse_value rd n st \<noteq> None) \<and>
   (\<forall>r st. 2 * psize st + 1 < n \<longrightarrow> parse_members rd n r st \<noteq> None) \<and>
   (\<forall>r st. 2 * psize st + 1 < n \<longrightarrow> parse_elements rd n r st \<noteq> None)"
proof (induction n)
  case 0
  then show ?case by simp
next
  case (Suc n)
  have V: "parse_value rd n st \<noteq> None" if "2 * psize st < n" for st using Suc that by blast
  have M: "parse_members rd n r st \<noteq> None" if "2 * psize st + 1 < n" for r st using Suc that by blast
  have E: "parse_elements rd n r st \<noteq> None" if "2 * psize st + 1 < n" for r st using Suc that by blast
  have "parse_value rd (Suc n) st \<noteq> None" if s: "2 * psize st < Suc n" for st
  proof
    assume none: "parse_value rd (Suc n) st = None"
    then have "fst st \<noteq> EndOfInput" by (auto simp: parse_steps)
    then have "2 * psize (get_token st) + 1 < n" using get_token_size(2) s by fastforce
    with none M [of "get_token st" "JObject []"] E [of "get_token st" "JArray []"] show False
      by (cases "fst st") (auto simp: parse_steps Let_def split: if_splits)
  qed
  moreover have "parse_members rd (Suc n) r st0 \<noteq> None" if s: "2 * psize st0 + 1 < Suc n" for r st0
  proof
    assume none: "parse_members rd (Suc n) r st0 = None"
    let ?st = "if fst st0 = ValueSeparator then get_token st0 else st0"
    let ?in = "get_token (get_token ?st)"
    have i: "2 * psize ?in < n"
      using get_token_size(1) [of ?st] get_token_size(1) [of "get_token ?st"] skip_comma_size [of st0] s
      by linarith
    have "parse_value rd n ?in = None
        \<or> (\<exists>x st2 r'. parse_value rd n ?in = Some (Ok (x, st2)) \<and> parse_members rd n r' st2 = None)"
      using none
      by (auto simp: Let_def parse_steps split: if_splits simp del: parse_value_Suc not_None_eq)
    then show False
    proof (elim disjE exE conjE)
      fix x st2 r'
      assume x: "parse_value rd n ?in = Some (Ok (x, st2))" and m: "parse_members rd n r' st2 = None"
      from parse_value_smaller [OF x] i have "2 * psize st2 + 1 < n" by simp
      then show False using M m by blast
    qed (use V [OF i] in contradiction)
  qed
  moreover have "parse_elements rd (Suc n) r st0 \<noteq> None" if s: "2 * psize st0 + 1 < Suc n" for r st0
  proof
    assume none: "parse_elements rd (Suc n) r st0 = None"
    let ?st = "if fst st0 = ValueSeparator then get_token st0 else st0"
    have i: "2 * psize ?st < n" using skip_comma_size [of st0] s by linarith
    have "parse_value rd n ?st = None
        \<or> (\<exists>x st2 r'. parse_value rd n ?st = Some (Ok (x, st2)) \<and> parse_elements rd n r' st2 = None)"
      using none
      by (auto simp: Let_def parse_steps split: if_splits simp del: parse_value_Suc not_None_eq)
    then show False
    proof (elim disjE exE conjE)
      fix x st2 r'
      assume x: "parse_value rd n ?st = Some (Ok (x, st2))" and m: "parse_elements rd n r' st2 = None"
      from parse_value_smaller [OF x] i have "2 * psize st2 + 1 < n" by simp
      then show False using E m by blast
    qed (use V [OF i] in contradiction)
  qed
  ultimately show ?case by blast
qed

text \<open>More fuel does not change a result.\<close>

definition extends :: "'a option \<Rightarrow> 'a option \<Rightarrow> bool" where
  "extends m m' \<longleftrightarrow> (\<forall>r. m = Some r \<longrightarrow> m' = Some r)"

lemma extends_refl: "extends m m"
  by (simp add: extends_def)

lemma extends_after: "(\<And>a. extends (f a) (g a)) \<Longrightarrow> extends (after m f) (after m g)"
  by (cases m) (simp_all add: after_def extends_def)

lemma extends_pbind: "extends m m' \<Longrightarrow> (\<And>a. extends (f a) (g a)) \<Longrightarrow> extends (pbind m f) (pbind m' g)"
proof (cases m)
  case (Some x)
  assume "extends m m'" and "\<And>a. extends (f a) (g a)"
  then show ?thesis using Some extends_after [of f g x] by (simp add: extends_def)
qed (simp add: extends_def pbind_def)

lemma extends_if: "extends x x' \<Longrightarrow> extends y y' \<Longrightarrow> extends (if b then x else y) (if b then x' else y')"
  by simp

lemmas extends_intros = extends_after extends_pbind extends_if

definition all_extend :: "(string \<Rightarrow> (bool \<times> rat) option) \<Rightarrow> nat \<Rightarrow> nat \<Rightarrow> bool" where
  "all_extend rd n m \<longleftrightarrow>
     (\<forall>st. extends (parse_value rd n st) (parse_value rd m st)) \<and>
     (\<forall>j st. extends (parse_members rd n j st) (parse_members rd m j st)) \<and>
     (\<forall>j st. extends (parse_elements rd n j st) (parse_elements rd m j st))"

lemma all_extend_step:
  assumes "all_extend rd n m"
  shows "all_extend rd (Suc n) (Suc m)"
proof -
  have V: "extends (parse_value rd n st) (parse_value rd m st)" for st
    using assms unfolding all_extend_def by blast
  have M: "extends (parse_members rd n j st) (parse_members rd m j st)" for j st
    using assms unfolding all_extend_def by blast
  have E: "extends (parse_elements rd n j st) (parse_elements rd m j st)" for j st
    using assms unfolding all_extend_def by blast
  have "extends (parse_value rd (Suc n) st) (parse_value rd (Suc m) st)" for st
    unfolding parse_value_Suc Let_def
    by (cases "fst st"; simp only: token.case; (intro extends_intros M E)?; rule extends_refl)
  moreover have "extends (parse_members rd (Suc n) j st) (parse_members rd (Suc m) j st)" for j st
    unfolding parse_members_Suc Let_def split_beta
    by (intro extends_intros V M) (rule extends_refl)+
  moreover have "extends (parse_elements rd (Suc n) j st) (parse_elements rd (Suc m) j st)" for j st
    unfolding parse_elements_Suc Let_def split_beta
    by (intro extends_intros V E) (rule extends_refl)+
  ultimately show ?thesis unfolding all_extend_def by blast
qed

lemma parse_extends: "all_extend rd n (Suc n)"
proof (induction n)
  case 0
  then show ?case by (simp add: all_extend_def extends_def)
qed (rule all_extend_step)

lemma extends_trans: "extends a b \<Longrightarrow> extends b c \<Longrightarrow> extends a c"
  by (simp add: extends_def)

lemma all_extend_le: "n \<le> k \<Longrightarrow> all_extend rd n k"
proof (induction rule: dec_induct)
  case base
  then show ?case by (simp add: all_extend_def extends_refl)
next
  case (step i)
  then show ?case using parse_extends [of rd i] unfolding all_extend_def by (blast intro: extends_trans)
qed

lemma parse_more:
  "parse_value rd n st = Some r \<Longrightarrow> n \<le> k \<Longrightarrow> parse_value rd k st = Some r"
  "parse_members rd n j st = Some r \<Longrightarrow> n \<le> k \<Longrightarrow> parse_members rd k j st = Some r"
  "parse_elements rd n j st = Some r \<Longrightarrow> n \<le> k \<Longrightarrow> parse_elements rd k j st = Some r"
  using all_extend_le [of n k rd] unfolding all_extend_def extends_def by blast+

subsection \<open>Numbers read back\<close>

lemma digits_value_append: "digits_value v (s @ t) = digits_value (digits_value v s) t"
  by (simp add: digits_value_def)

lemma digits_value_ge: "v \<le> digits_value v s"
proof (induction s arbitrary: v)
  case (Cons c s)
  have "v \<le> 10 * v + (of_char c - 48)" by simp
  also have "\<dots> \<le> digits_value (10 * v + (of_char c - 48)) s" by (rule Cons.IH)
  finally show ?case by simp
qed simp

lemma digit_char_value: "d < 10 \<Longrightarrow> of_char (digit_char d) = d + (48 :: nat)"
proof -
  assume "d < 10"
  moreover have "\<forall>d \<in> set [0..<10]. of_char (digit_char d) = d + (48 :: nat)" by code_simp
  ultimately show ?thesis by simp
qed

lemma digits_value_dec_nat: "digits_value 0 (dec_nat n) = n"
proof (induction n rule: dec_nat.induct)
  case (1 n)
  show ?case
  proof (cases "n < 10")
    case True
    then show ?thesis by (subst dec_nat.simps) (simp add: digit_char_value)
  next
    case False
    then show ?thesis using 1
      by (subst dec_nat.simps) (simp add: digits_value_append digit_char_value)
  qed
qed

lemma number_loop_float: "\<forall>c \<in> set ds. is_digit c \<Longrightarrow> fst (number_loop m ds True v)"
  by (induction ds) auto

lemma number_step:
  fixes val max_val :: u64
  assumes "is_digit c" and "9 \<le> unat max_val"
  defines "d \<equiv> of_char c - 48 :: nat"
  shows "val > (max_val - word_of_nat d) div 10 \<longleftrightarrow> unat max_val < 10 * unat val + d"
    and "10 * unat val + d \<le> unat max_val \<Longrightarrow> unat (val * 10 + word_of_nat d) = 10 * unat val + d"
proof -
  have d: "d < 10" using assms(1) by (auto simp: d_def is_digit_def less_eq_char_def)
  have b: "unat max_val < 2 ^ 64" using unsigned_less [of max_val, where ?'a = nat] by simp
  have ud: "unat (word_of_nat d :: u64) = d" using d by (simp add: unat_of_nat take_bit_eq_mod)
  have "unat (max_val - word_of_nat d) = unat max_val - d"
    using assms(2) d ud by (simp add: unat_sub word_le_nat_alt)
  then have "unat ((max_val - word_of_nat d) div 10) = (unat max_val - d) div 10"
    by (simp add: unat_div)
  then show "val > (max_val - word_of_nat d) div 10 \<longleftrightarrow> unat max_val < 10 * unat val + d"
    using assms(2) d by (simp add: word_less_nat_alt less_eq_div_iff_mult_less_eq flip: not_le) linarith
  show "unat (val * 10 + word_of_nat d) = 10 * unat val + d" if "10 * unat val + d \<le> unat max_val"
    using that b ud by (simp add: unat_word_ariths mult.commute)
qed

text \<open>The test before each digit finds exactly the numbers that do not fit.\<close>

lemma number_loop_digits:
  assumes "\<forall>c \<in> set ds. is_digit c" and "9 \<le> unat max_val"
  shows "digits_value (unat val) ds \<le> unat max_val \<Longrightarrow>
      number_loop max_val ds False val = (False, word_of_nat (digits_value (unat val) ds))"
    and "unat val \<le> unat max_val \<Longrightarrow> unat max_val < digits_value (unat val) ds \<Longrightarrow>
      fst (number_loop max_val ds False val)"
  using assms(1)
proof (induction ds arbitrary: val)
  case (Cons c ds)
  let ?d = "of_char c - 48 :: nat"
  {
    case (1 val)
    note step = number_step [OF _ assms(2), of c val]
    have le: "10 * unat val + ?d \<le> unat max_val"
      using digits_value_ge [of "10 * unat val + ?d" ds] 1(1) by simp
    then have "\<not> val > (max_val - word_of_nat ?d) div 10"
      using step(1) 1(2) by (metis list.set_intros(1) not_less)
    then show ?case using Cons.IH(1) [of "val * 10 + word_of_nat ?d"] 1 step(2) le by (simp add: Let_def)
  next
    case (2 val)
    note step = number_step [OF _ assms(2), of c val]
    show ?case
    proof (cases "10 * unat val + ?d \<le> unat max_val")
      case True
      then have "\<not> val > (max_val - word_of_nat ?d) div 10"
        using step(1) 2(3) by (metis list.set_intros(1) not_less)
      then show ?thesis
        using Cons.IH(2) [of "val * 10 + word_of_nat ?d"] 2(2,3) step(2) True by (simp add: Let_def)
    next
      case False
      with step(1) 2(3) have "val > (max_val - word_of_nat ?d) div 10" by simp
      then show ?thesis using number_loop_float [of ds] 2(3) by (simp add: Let_def)
    qed
  }
qed simp_all

lemma get_number_positive:
  assumes "ds \<noteq> []" and "\<forall>c \<in> set ds. is_digit c"
  shows "get_number rd ds =
      (if digits_value 0 ds < 2 ^ 64 then JUnsigned (word_of_nat (digits_value 0 ds))
       else case rd ds of Some (neg, r) \<Rightarrow> JFloat neg r | None \<Rightarrow> JNull)"
proof -
  have "hd ds \<noteq> CHR ''-''" using assms is_digit_not_sign by (metis hd_in_set)
  then show ?thesis
    using number_loop_digits [OF assms(2), of "0xFFFFFFFFFFFFFFFF" 0]
    by (cases "number_loop 0xFFFFFFFFFFFFFFFF ds False 0") (auto simp: get_number_def not_less)
qed

lemma get_number_minus:
  assumes "\<forall>c \<in> set ds. is_digit c"
  shows "get_number rd (CHR ''-'' # ds) =
      (if digits_value 0 ds \<le> 2 ^ 63 then JInteger (word_of_int (- int (digits_value 0 ds)))
       else case rd (CHR ''-'' # ds) of Some (neg, r) \<Rightarrow> JFloat neg r | None \<Rightarrow> JNull)"
proof -
  let ?v = "digits_value 0 ds"
  have neg: "- word_of_nat ?v = (word_of_int (- int ?v) :: u64)" by simp
  then have "word_of_int (- int ?v) = (0x8000000000000000 :: u64)"
    if "word_of_nat ?v = (0x7FFFFFFFFFFFFFFF + 1 :: u64)"
    using that by simp
  then show ?thesis
    using number_loop_digits [OF assms, of "0x7FFFFFFFFFFFFFFF + 1" 0] neg
    by (cases "number_loop (0x7FFFFFFFFFFFFFFF + 1) ds False 0") (auto simp: get_number_def not_less not_le)
qed

lemma get_number_unsigned: "get_number rd (dec_nat (unat u)) = JUnsigned u"
  using get_number_positive [OF dec_nat_not_empty dec_nat_digits, of rd "unat u"]
    unsigned_less [of u, where ?'a = nat]
  by (simp add: digits_value_dec_nat)

lemma get_number_negative:
  assumes "sint i < 0"
  shows "get_number rd (CHR ''-'' # dec_nat (nat (- sint i))) = JInteger i"
proof -
  have "nat (- sint i) \<le> 2 ^ 63" using sint_ge [of i] by simp
  then show ?thesis
    using get_number_minus [OF dec_nat_digits, of rd "nat (- sint i)"] assms
    by (simp add: digits_value_dec_nat)
qed

subsection \<open>Values read back\<close>

text \<open>
  The values whose text stands for them: strings in UTF-8, signed integers below zero (others are
  read as unsigned), objects with ascending keys as \<^verbatim>\<open>std::map\<close> keeps them. Floats
  depend on how they are printed and are left out.
\<close>

fun json_plain :: "json \<Rightarrow> bool" where
  "json_plain JNull = True"
| "json_plain (JObject m) = (map_sorted m \<and> (\<forall>kv \<in> set m. utf8 (fst kv) \<and> json_plain (snd kv)))"
| "json_plain (JArray a) = (\<forall>v \<in> set a. json_plain v)"
| "json_plain (JString s) = utf8 s"
| "json_plain (JBoolean b) = True"
| "json_plain (JInteger i) = (sint i < 0)"
| "json_plain (JUnsigned u) = True"
| "json_plain (JFloat n r) = False"
| "json_plain JDiscarded = False"

abbreviation dumped :: "(rat \<Rightarrow> string) \<Rightarrow> json \<Rightarrow> string" where
  "dumped sd j \<equiv> dump_value sd False 0 0 j"

definition reads_back :: "(string \<Rightarrow> (bool \<times> rat) option) \<Rightarrow> (rat \<Rightarrow> string) \<Rightarrow> json \<Rightarrow> bool" where
  "reads_back rd sd j \<longleftrightarrow>
     (\<forall>s. ends_number s \<longrightarrow> (\<exists>n. parse_value rd n (scan (dumped sd j @ s)) = Some (Ok (j, scan s))))"

definition value_tokens :: "token set" where
  "value_tokens = {BeginObject, BeginArray, LiteralNull, LiteralTrue, LiteralFalse, ValueString, ValueNumber}"

lemma ends_number_marks [simp]:
  "ends_number []" "ends_number (CHR '','' # s)" "ends_number (CHR ''}'' # s)" "ends_number (CHR '']'' # s)"
  by (simp_all add: ends_number_def is_digit_def less_eq_char_def)

lemma compact_negative: "sint i < 0 \<Longrightarrow> dumped sd (JInteger i) = CHR ''-'' # dec_nat (nat (- sint i))"
  by (simp add: dec_int_def)

lemma scan_quoted:
  "utf8 k \<Longrightarrow> scan (CHR 0x22 # escape_string k @ CHR 0x22 # s) = (ValueString, CHR 0x22 # escape_string k @ [CHR 0x22], s)"
  unfolding escape_string_eq by (rule scan_string)

lemma string_of_quoted: "string_of_token (t, CHR 0x22 # escape_string k @ [CHR 0x22], s) = Ok k"
  by (simp add: string_of_token_def butlast_append get_string_escape)

lemma value_token:
  assumes "json_plain j" and "ends_number s"
  shows "fst (scan (dumped sd j @ s)) \<in> value_tokens"
proof (cases j)
  case (JInteger i)
  then show ?thesis using assms scan_negative [OF assms(2)] compact_negative [of i sd]
    by (simp add: value_tokens_def)
next
  case (JBoolean b)
  then show ?thesis using scan_literals [of s] by (cases b) (simp_all add: value_tokens_def)
qed (use assms scan_literals [of s] scan_number [OF assms(2)] scan_quoted in \<open>auto simp: value_tokens_def\<close>)

lemma parse_scalar:
  assumes "json_plain j" and "ends_number s" and "\<forall>m. j \<noteq> JObject m" and "\<forall>a. j \<noteq> JArray a"
  shows "parse_value rd (Suc n) (scan (dumped sd j @ s)) = Some (Ok (j, scan s))"
proof (cases j)
  case (JInteger i)
  then have i: "sint i < 0" using assms(1) by simp
  then show ?thesis
    using scan_negative [OF assms(2), of "nat (- sint i)"] get_number_negative [OF i, of rd]
    by (simp add: JInteger compact_negative [OF i] get_token_def del: dump_value.simps)
next
  case (JBoolean b)
  then show ?thesis using scan_literals [of s] by (cases b) (simp_all add: get_token_def)
next
  case (JString k)
  then show ?thesis using assms(1) scan_quoted [of k s]
    by (simp add: get_token_def string_of_quoted)
next
  case (JUnsigned u)
  then show ?thesis using scan_number [OF assms(2)] by (simp add: get_token_def get_number_unsigned)
qed (use assms scan_literals [of s] in \<open>auto simp: get_token_def\<close>)

lemma scalar_reads_back:
  "json_plain j \<Longrightarrow> \<forall>m. j \<noteq> JObject m \<Longrightarrow> \<forall>a. j \<noteq> JArray a \<Longrightarrow> reads_back rd sd j"
  unfolding reads_back_def using parse_scalar by blast

text \<open>A comma before an element or a member is skipped.\<close>

lemma parse_elements_comma:
  "fst (scan s) \<noteq> ValueSeparator \<Longrightarrow> parse_elements rd n j (ValueSeparator, x, s) = parse_elements rd n j (scan s)"
  by (cases n) (simp_all add: get_token_def)

lemma parse_members_comma:
  "fst (scan s) \<noteq> ValueSeparator \<Longrightarrow> parse_members rd n j (ValueSeparator, x, s) = parse_members rd n j (scan s)"
  by (cases n) (simp_all add: get_token_def)

lemma dump_elements_rest: "a \<noteq> [] \<Longrightarrow> dump_elements sd False 0 0 False a = CHR '','' # dump_elements sd False 0 0 True a"
  by (cases a) simp_all

lemma dump_members_rest: "m \<noteq> [] \<Longrightarrow> dump_members sd False 0 0 False m = CHR '','' # dump_members sd False 0 0 True m"
  by (cases m) (auto split: prod.splits)

lemma elements_start:
  assumes "a \<noteq> []" and "\<forall>v \<in> set a. json_plain v"
  shows "fst (scan (dump_elements sd False 0 0 True a @ CHR '']'' # s)) \<in> value_tokens"
proof -
  obtain v a' where a: "a = v # a'" using assms(1) by (cases a) auto
  have "ends_number (dump_elements sd False 0 0 False a' @ CHR '']'' # s)"
    by (cases "a' = []") (simp_all add: dump_elements_rest)
  then show ?thesis using value_token [of v _ sd] assms(2) by (simp add: a)
qed

lemma parse_dumped_elements:
  "a \<noteq> [] \<Longrightarrow> \<forall>v \<in> set a. json_plain v \<and> reads_back rd sd v \<Longrightarrow>
     \<exists>n. parse_elements rd n (JArray res) (scan (dump_elements sd False 0 0 True a @ CHR '']'' # s)) =
       Some (Ok (JArray (res @ a), scan s))"
proof (induction a arbitrary: res)
  case (Cons v a)
  let ?tail = "dump_elements sd False 0 0 False a @ CHR '']'' # s"
  let ?start = "scan (dumped sd v @ ?tail)"
  have start: "scan (dump_elements sd False 0 0 True (v # a) @ CHR '']'' # s) = ?start" by simp
  have e: "ends_number ?tail" by (cases "a = []") (simp_all add: dump_elements_rest)
  obtain n1 where n1: "parse_value rd n1 ?start = Some (Ok (v, scan ?tail))"
    using Cons.prems(2) e unfolding reads_back_def by (metis list.set_intros(1))
  have "fst ?start \<in> value_tokens" by (rule value_token [OF _ e]) (use Cons.prems in simp)
  then have t: "fst ?start \<noteq> ValueSeparator" by (auto simp: value_tokens_def)
  have d: "v \<noteq> JDiscarded" using Cons.prems(2) by auto
  show ?case
  proof (cases "a = []")
    case True
    then have "parse_elements rd (Suc n1) (JArray res) ?start = Some (Ok (JArray (res @ v # a), scan s))"
      using n1 t d by (simp add: push_back_def expect_def get_token_def)
    then show ?thesis unfolding start by (rule exI)
  next
    case False
    let ?next = "dump_elements sd False 0 0 True a @ CHR '']'' # s"
    have "\<forall>v \<in> set a. json_plain v \<and> reads_back rd sd v" using Cons.prems(2) by simp
    from Cons.IH [OF False this, of "res @ [v]"]
    obtain n2 where n2: "parse_elements rd n2 (JArray (res @ [v])) (scan ?next) =
        Some (Ok (JArray ((res @ [v]) @ a), scan s))" by (rule exE)
    have "fst (scan ?next) \<in> value_tokens" by (rule elements_start [OF False]) (use Cons.prems in simp)
    then have "fst (scan ?next) \<noteq> ValueSeparator" by (auto simp: value_tokens_def)
    then have tail: "parse_elements rd k j (scan ?tail) = parse_elements rd k j (scan ?next)" "fst (scan ?tail) = ValueSeparator" for k j
      using False by (simp_all add: dump_elements_rest parse_elements_comma)
    let ?k = "n1 + n2"
    have "parse_value rd ?k ?start = Some (Ok (v, scan ?tail))" by (rule parse_more(1) [OF n1]) simp
    moreover have "parse_elements rd ?k (JArray (res @ [v])) (scan ?next) = Some (Ok (JArray (res @ v # a), scan s))"
      by (rule parse_more(3) [OF n2 [simplified]]) simp
    ultimately have "parse_elements rd (Suc ?k) (JArray res) ?start = Some (Ok (JArray (res @ v # a), scan s))"
      using t d tail by (simp add: push_back_def split_beta)
    then show ?thesis unfolding start by (rule exI)
  qed
qed simp

text \<open>Members: the keys come in ascending order, so each is put behind those before.\<close>

lemma map_put_last: "\<forall>k' \<in> set (map fst m). k' < k \<Longrightarrow> map_put m k v = m @ [(k, v)]"
  by (induction m k v rule: map_put.induct) auto

definition member_text :: "(rat \<Rightarrow> string) \<Rightarrow> string \<times> json \<Rightarrow> string" where
  "member_text sd kv = CHR 0x22 # escape_string (fst kv) @ CHR 0x22 # CHR '':'' # dumped sd (snd kv)"

lemma dump_members_first:
  "dump_members sd False 0 0 True (kv # m) = member_text sd kv @ dump_members sd False 0 0 False m"
  by (cases kv) (simp add: member_text_def)

lemma parse_dumped_members:
  "m \<noteq> [] \<Longrightarrow> \<forall>kv \<in> set m. utf8 (fst kv) \<and> json_plain (snd kv) \<and> reads_back rd sd (snd kv) \<Longrightarrow>
   map_sorted (res @ m) \<Longrightarrow>
     \<exists>n. parse_members rd n (JObject res) (scan (dump_members sd False 0 0 True m @ CHR ''}'' # s)) =
       Some (Ok (JObject (res @ m), scan s))"
proof (induction m arbitrary: res)
  case (Cons kv m)
  obtain k v where kv: "kv = (k, v)" by (cases kv)
  let ?tail = "dump_members sd False 0 0 False m @ CHR ''}'' # s"
  let ?start = "scan (dumped sd v @ ?tail)"
  have e: "ends_number ?tail" by (cases "m = []") (simp_all add: dump_members_rest)
  have p: "utf8 k" "json_plain v" "reads_back rd sd v" using Cons.prems(2) by (simp_all add: kv)
  obtain n1 where n1: "parse_value rd n1 ?start = Some (Ok (v, scan ?tail))"
    using p(3) e unfolding reads_back_def by blast
  have first: "scan (dump_members sd False 0 0 True (kv # m) @ CHR ''}'' # s) =
      (ValueString, CHR 0x22 # escape_string k @ [CHR 0x22], CHR '':'' # dumped sd v @ ?tail)"
    using scan_quoted [OF p(1)] by (simp add: dump_members_first member_text_def kv del: dump_members.simps)
  have d: "v \<noteq> JDiscarded" using p(2) by auto
  have put: "json_assign (JObject res) k v = Ok (JObject (res @ [(k, v)]))"
    using Cons.prems(3) by (simp add: json_assign_def kv map_put_last map_sorted_def sorted_wrt_append)
  show ?case
  proof (cases "m = []")
    case True
    then have "parse_members rd (Suc n1) (JObject res)
        (scan (dump_members sd False 0 0 True (kv # m) @ CHR ''}'' # s)) =
        Some (Ok (JObject (res @ kv # m), scan s))"
      using n1 d put unfolding first
      by (simp add: get_token_def string_of_quoted expect_def kv)
    then show ?thesis by (rule exI)
  next
    case False
    let ?next = "dump_members sd False 0 0 True m @ CHR ''}'' # s"
    have "\<forall>kv \<in> set m. utf8 (fst kv) \<and> json_plain (snd kv) \<and> reads_back rd sd (snd kv)"
      and "map_sorted ((res @ [(k, v)]) @ m)" using Cons.prems(2,3) by (simp_all add: kv)
    from Cons.IH [OF False this]
    obtain n2 where n2: "parse_members rd n2 (JObject (res @ [(k, v)])) (scan ?next) =
        Some (Ok (JObject ((res @ [(k, v)]) @ m), scan s))" by (rule exE)
    obtain kv' m' where m: "m = kv' # m'" using False by (cases m) auto
    have "fst (scan ?next) = ValueString"
      using scan_quoted [of "fst kv'"] Cons.prems(2)
      by (simp add: m dump_members_first member_text_def del: dump_members.simps)
    then have tail: "parse_members rd k j (scan ?tail) = parse_members rd k j (scan ?next)" "fst (scan ?tail) = ValueSeparator" for k j
      using False by (simp_all add: dump_members_rest parse_members_comma)
    let ?k = "n1 + n2"
    have "parse_value rd ?k ?start = Some (Ok (v, scan ?tail))" by (rule parse_more(1) [OF n1]) simp
    moreover have "parse_members rd ?k (JObject (res @ [(k, v)])) (scan ?next) = Some (Ok (JObject (res @ kv # m), scan s))"
      using parse_more(2) [OF n2, of ?k] by (simp only: le_add2 append_assoc append.simps kv)
    ultimately have "parse_members rd (Suc ?k) (JObject res)
        (scan (dump_members sd False 0 0 True (kv # m) @ CHR ''}'' # s)) =
        Some (Ok (JObject (res @ kv # m), scan s))"
      using d put tail unfolding first
      by (simp add: get_token_def string_of_quoted expect_def split_beta)
    then show ?thesis by (rule exI)
  qed
qed simp

lemma plain_reads_back: "json_plain j \<Longrightarrow> reads_back rd sd j"
proof (induction j rule: json_plain.induct)
  case (2 m)
  then have m: "\<forall>kv \<in> set m. utf8 (fst kv) \<and> json_plain (snd kv) \<and> reads_back rd sd (snd kv)"
    and o: "map_sorted ([] @ m)" by auto
  show ?case unfolding reads_back_def
  proof (intro allI impI)
    fix s
    show "\<exists>n. parse_value rd n (scan (dumped sd (JObject m) @ s)) = Some (Ok (JObject m, scan s))"
    proof (cases "m = []")
      case True
      then have "parse_value rd (Suc 0) (scan (dumped sd (JObject m) @ s)) = Some (Ok (JObject m, scan s))"
        by (simp add: get_token_def)
      then show ?thesis by (rule exI)
    next
      case False
      from parse_dumped_members [OF False m o, where s = s]
      obtain n where n: "parse_members rd n (JObject []) (scan (dump_members sd False 0 0 True m @ CHR ''}'' # s)) =
          Some (Ok (JObject m, scan s))" by auto
      obtain kv m' where "m = kv # m'" using False by (cases m) auto
      then have "fst (scan (dump_members sd False 0 0 True m @ CHR ''}'' # s)) = ValueString"
        using scan_quoted [of "fst kv"] m
        by (simp add: dump_members_first member_text_def del: dump_members.simps)
      with n False have "parse_value rd (Suc n) (scan (dumped sd (JObject m) @ s)) = Some (Ok (JObject m, scan s))"
        by (simp add: get_token_def unexpect_def)
      then show ?thesis by (rule exI)
    qed
  qed
next
  case (3 a)
  then have a: "\<forall>v \<in> set a. json_plain v \<and> reads_back rd sd v" by auto
  show ?case unfolding reads_back_def
  proof (intro allI impI)
    fix s
    show "\<exists>n. parse_value rd n (scan (dumped sd (JArray a) @ s)) = Some (Ok (JArray a, scan s))"
    proof (cases "a = []")
      case True
      then have "parse_value rd (Suc 0) (scan (dumped sd (JArray a) @ s)) = Some (Ok (JArray a, scan s))"
        by (simp add: get_token_def)
      then show ?thesis by (rule exI)
    next
      case False
      from parse_dumped_elements [OF False a, where s = s and res = "[]"]
      obtain n where n: "parse_elements rd n (JArray []) (scan (dump_elements sd False 0 0 True a @ CHR '']'' # s)) =
          Some (Ok (JArray a, scan s))" by auto
      have "fst (scan (dump_elements sd False 0 0 True a @ CHR '']'' # s)) \<in> value_tokens"
        by (rule elements_start [OF False]) (use a in simp)
      with n False have "parse_value rd (Suc n) (scan (dumped sd (JArray a) @ s)) = Some (Ok (JArray a, scan s))"
        by (auto simp: get_token_def unexpect_def value_tokens_def)
      then show ?thesis by (rule exI)
    qed
  qed
qed (rule scalar_reads_back; simp; fail)+

text \<open>
  A signed integer that is not negative is printed like an unsigned one and read as one; everything
  else in a value without floats is read as it was.
\<close>

fun json_printable :: "json \<Rightarrow> bool" where
  "json_printable (JObject m) = (map_sorted m \<and> (\<forall>kv \<in> set m. utf8 (fst kv) \<and> json_printable (snd kv)))"
| "json_printable (JArray a) = (\<forall>v \<in> set a. json_printable v)"
| "json_printable (JString s) = utf8 s"
| "json_printable (JFloat n r) = False"
| "json_printable JDiscarded = False"
| "json_printable _ = True"

fun as_read :: "json \<Rightarrow> json" where
  "as_read (JObject m) = JObject (map (map_prod id as_read) m)"
| "as_read (JArray a) = JArray (map as_read a)"
| "as_read (JInteger i) = (if sint i < 0 then JInteger i else JUnsigned i)"
| "as_read j = j"

lemma as_read_plain: "json_printable j \<Longrightarrow> json_plain (as_read j)"
  by (induction j rule: json_printable.induct)
    (auto simp: map_sorted_def comp_def)

lemma dec_int_unsigned: "0 \<le> sint (i :: u64) \<Longrightarrow> dec_int (sint i) = dec_nat (unat i)"
  using uint_sint [of i] take_bit_int_eq_self [of "sint i" 64] sint_lt [of i]
  by (simp add: dec_int_def unat_eq_nat_uint)

lemma dump_as_read:
  "dump_value sd pretty step cur (as_read j) = dump_value sd pretty step cur j"
  "dump_members sd pretty step new first (map (map_prod id as_read) m) = dump_members sd pretty step new first m"
  "dump_elements sd pretty step new first (map as_read a) = dump_elements sd pretty step new first a"
  by (induction sd pretty step cur j and sd pretty step new first m and sd pretty step new first a
      rule: dump_value_dump_members_dump_elements.induct)
    (simp_all add: dec_int_unsigned id_def)

subsection \<open>The values the parser makes\<close>

text \<open>
  Objects keep their keys in ascending order, each once; every string and key is UTF-8; an integer is
  not positive (others are unsigned); no discarded value stays.
\<close>

fun json_wf :: "json \<Rightarrow> bool" where
  "json_wf (JObject m) = (map_sorted m \<and> (\<forall>kv \<in> set m. utf8 (fst kv) \<and> json_wf (snd kv)))"
| "json_wf (JArray a) = (\<forall>v \<in> set a. json_wf v)"
| "json_wf (JString s) = utf8 s"
| "json_wf (JInteger i) = (sint i \<le> 0)"
| "json_wf JDiscarded = False"
| "json_wf _ = True"

lemma map_put_value: "(k', v') \<in> set (map_put m k v) \<Longrightarrow> k' = k \<and> v' = v \<or> (k', v') \<in> set m"
  by (induction m k v rule: map_put.induct) (auto split: if_splits)

lemma json_wf_assign:
  "json_wf j \<Longrightarrow> utf8 k \<Longrightarrow> json_wf v \<Longrightarrow> json_assign j k v = Ok j' \<Longrightarrow> json_wf j'"
  by (cases j) (auto simp: json_assign_def map_sorted_put map_sorted_def [of "[_]"] dest!: map_put_value)

lemma json_wf_push_back: "json_wf j \<Longrightarrow> json_wf v \<Longrightarrow> json_wf (push_back j v)"
  by (cases j) (auto simp: push_back_def)

text \<open>A number that stays an integer never passed its limit.\<close>

lemma number_loop_bound:
  assumes "9 \<le> unat max_val"
  shows "number_loop max_val s is_float val = (False, v) \<Longrightarrow> val \<le> max_val \<Longrightarrow> v \<le> max_val"
proof (induction s arbitrary: is_float val)
  case (Cons c s)
  show ?case
  proof (cases "is_digit c \<and> \<not> is_float \<and> \<not> val > (max_val - word_of_nat (of_char c - 48)) div 10")
    case True
    note step = number_step [OF conjunct1 [OF True] assms, of val]
    have "val * 10 + word_of_nat (of_char c - 48) \<le> max_val"
      using True step by (simp add: word_le_nat_alt not_less)
    then show ?thesis using Cons.IH [of False] Cons.prems(1) True by simp
  next
    case False
    then show ?thesis using Cons.IH [of True val] Cons.prems by (auto simp: Let_def split: if_splits)
  qed
qed simp

lemma sint_uminus_le:
  assumes "(v :: u64) \<le> 0x8000000000000000"
  shows "sint (- v) \<le> 0"
proof -
  have "uint v \<le> 2 ^ 63" using assms by (simp add: word_le_def)
  moreover have "sint (- v) = signed_take_bit 63 (- uint v)"
    using signed_of_int [of "- uint v", where ?'b = 64 and ?'a = int] by (simp flip: wi_hom_neg)
  ultimately have "sint (- v) = - uint v"
    using signed_take_bit_int_eq_self [of 63 "- uint v"] uint_ge_0 [of v] by simp
  then show ?thesis by simp
qed

lemma json_wf_number: "json_wf (get_number rd txt)"
  using number_loop_bound [of "0x7FFFFFFFFFFFFFFF + 1" "tl txt" False 0]
  by (auto simp: get_number_def Let_def sint_uminus_le split: prod.split option.split)

text \<open>A state that comes from the scanner, and the strings read in such states.\<close>

definition scanned :: "pstate \<Rightarrow> bool" where
  "scanned st \<longleftrightarrow> (\<exists>s. st = scan s)"

lemma scanned_simps [simp]: "scanned (scan s)" "scanned (get_token st)"
  by (auto simp: scanned_def get_token_def)

lemma scanned_skip: "scanned st \<Longrightarrow> scanned (if fst st = ValueSeparator then get_token st else st)"
  by simp

lemma scanned_string: "scanned st \<Longrightarrow> fst st = ValueString \<Longrightarrow> string_of_token st = Ok k \<Longrightarrow> utf8 k"
  using scanned_string_utf8 [of _ "fst (snd st)" "snd (snd st)" k]
  by (auto simp: scanned_def string_of_token_def) (metis prod.collapse)

lemma parse_wf:
  "(\<forall>st v st'. parse_value rd n st = Some (Ok (v, st')) \<longrightarrow> scanned st \<longrightarrow> json_wf v \<and> scanned st') \<and>
   (\<forall>r st v st'. parse_members rd n r st = Some (Ok (v, st')) \<longrightarrow> scanned st \<longrightarrow> json_wf r \<longrightarrow> json_wf v \<and> scanned st') \<and>
   (\<forall>r st v st'. parse_elements rd n r st = Some (Ok (v, st')) \<longrightarrow> scanned st \<longrightarrow> json_wf r \<longrightarrow> json_wf v \<and> scanned st')"
proof (induction n)
  case 0
  then show ?case by simp
next
  case (Suc n)
  have V: "json_wf v \<and> scanned st'" if "parse_value rd n st = Some (Ok (v, st'))" "scanned st" for st v st'
    using Suc that by blast
  have M: "json_wf v \<and> scanned st'" if "parse_members rd n r st = Some (Ok (v, st'))" "scanned st" "json_wf r" for r st v st'
    using Suc that by blast
  have E: "json_wf v \<and> scanned st'" if "parse_elements rd n r st = Some (Ok (v, st'))" "scanned st" "json_wf r" for r st v st'
    using Suc that by blast
  have "json_wf v \<and> scanned st'" if "parse_value rd (Suc n) st = Some (Ok (v, st'))" "scanned st" for st v st'
    using that M [of "JObject []" "get_token st" v st'] E [of "JArray []" "get_token st" v st']
    by (cases "fst st")
      (auto simp: parse_steps Let_def json_wf_number map_sorted_Nil scanned_string split: if_splits)
  moreover have "json_wf v \<and> scanned st'"
    if h: "parse_members rd (Suc n) r st0 = Some (Ok (v, st'))" "scanned st0" "json_wf r" for r st0 v st'
  proof -
    let ?st = "if fst st0 = ValueSeparator then get_token st0 else st0"
    obtain key x st2 r' where k: "fst ?st = ValueString" "string_of_token ?st = Ok key"
      and x: "parse_value rd n (get_token (get_token ?st)) = Some (Ok (x, st2))"
      and r': "(if x \<noteq> JDiscarded then json_assign r key x else Ok r) = Ok r'"
      and v: "(if fst st2 = ValueSeparator then parse_members rd n r' st2
              else after (expect EndObject st2) (\<lambda>_. Some (Ok (r', get_token st2)))) = Some (Ok (v, st'))"
      using h(1)
      by (auto simp: Let_def parse_steps
          simp del: parse_value_Suc split_paired_Ex cong: if_cong)
    note Vx = V [OF x scanned_simps(2)]
    have "utf8 key" using scanned_string [OF scanned_skip [OF h(2)] k] .
    then have "json_wf r'" using r' h(3) json_wf_assign [of r key x r'] Vx by (auto split: if_splits)
    then show ?thesis using v M [of r' st2 v st'] Vx by (auto simp: parse_steps split: if_splits)
  qed
  moreover have "json_wf v \<and> scanned st'"
    if h: "parse_elements rd (Suc n) r st0 = Some (Ok (v, st'))" "scanned st0" "json_wf r" for r st0 v st'
  proof -
    let ?st = "if fst st0 = ValueSeparator then get_token st0 else st0"
    obtain x st2 where x: "parse_value rd n ?st = Some (Ok (x, st2))"
      and v: "(let r' = if x \<noteq> JDiscarded then push_back r x else r in
              if fst st2 = ValueSeparator then parse_elements rd n r' st2
              else after (expect EndArray st2) (\<lambda>_. Some (Ok (r', get_token st2)))) = Some (Ok (v, st'))"
      using h(1)
      by (auto simp: Let_def parse_steps
          simp del: parse_value_Suc split_paired_Ex cong: if_cong)
    note Vx = V [OF x scanned_skip [OF h(2)]]
    then have "json_wf (if x \<noteq> JDiscarded then push_back r x else r)"
      using json_wf_push_back [OF h(3)] h(3) by simp
    then show ?thesis using v E [of _ st2 v st'] Vx by (auto simp: Let_def parse_steps split: if_splits)
  qed
  ultimately show ?case by blast
qed

lemma parse_value_wf: "parse_value rd n (scan s) = Some (Ok (v, st')) \<Longrightarrow> json_wf v"
  using parse_wf scanned_simps(1) by blast

section \<open>Properties\<close>

lemma parse_value_returns: "parse_value rd (2 * length doc + 3) (scan doc) \<noteq> None"
proof -
  have "psize (scan doc) \<le> length doc + 1"
    using scan_shrinks [of doc] by (cases "scan doc") (auto simp: psize_def)
  then have "2 * psize (scan doc) < 2 * length doc + 3" by simp
  then show ?thesis using parse_enough by blast
qed

text \<open>C15: parsing always ends: every text, well formed or not, gives a value or an error. The recursion
  takes at least one byte for every two calls.
\<close>
theorem json_parse_total: "json_parse rd doc \<noteq> None"
  using parse_value_returns [of rd doc] by (auto simp: json_parse_def parse_steps)

lemma json_parse_dumped:
  assumes "json_plain j"
  shows "json_parse rd (json_dump sd (- 1) j) = Some (Ok j)"
proof -
  let ?doc = "dumped sd j"
  obtain n where n: "parse_value rd n (scan ?doc) = Some (Ok (j, scan []))"
    using plain_reads_back [OF assms, of rd sd] unfolding reads_back_def
    by (metis append_Nil2 ends_number_marks(1))
  obtain r where r: "parse_value rd (2 * length ?doc + 3) (scan ?doc) = Some r"
    using parse_value_returns [of rd ?doc] by auto
  let ?k = "n + (2 * length ?doc + 3)"
  have "r = Ok (j, scan [])"
    using parse_more(1) [OF n, of ?k] parse_more(1) [OF r, of ?k] by simp
  then show ?thesis using assms r
    by (auto simp: json_parse_def json_dump_def expect_def)
qed

lemma json_parse_printed:
  "json_printable j \<Longrightarrow> json_parse rd (json_dump sd (- 1) j) = Some (Ok (as_read j))"
  using json_parse_dumped [OF as_read_plain, of j rd sd] by (simp add: json_dump_def dump_as_read)

text \<open>C16: the text \<^verbatim>\<open>dump()\<close> prints for a value without floats, in UTF-8 and with its
  keys in order, is parsed to that value again.
\<close>
theorem json_parse_dump:
  assumes "json_plain j"
  shows "json_parse rd (json_dump sd (- 1) j) = Some (Ok j)"
  by (rule json_parse_dumped) (rule assms)

theorem json_parse_dump_witness:
  "json_parse (\<lambda>t. None) (json_dump (\<lambda>r. []) (- 1)
       (JObject [(''a'', JArray [JUnsigned 7, JNull]), (''b'', JString ''x'')])) =
     Some (Ok (JObject [(''a'', JArray [JUnsigned 7, JNull]), (''b'', JString ''x'')]))"
  by (rule json_parse_dump) (simp; code_simp)

text \<open>C30: a token of digits is the number it spells as long as that fits: up to 18446744073709551615 it
  is an unsigned integer, with a minus sign down to -9223372036854775808 a signed one; beyond, it is
  what \<^verbatim>\<open>strtod\<close> reads (\<^verbatim>\<open>null\<close> if that is not finite).
\<close>
theorem get_number_exact:
  assumes "ds \<noteq> []" and "\<forall>c \<in> set ds. is_digit c"
  shows "get_number rd ds =
      (if digits_value 0 ds < 2 ^ 64 then JUnsigned (word_of_nat (digits_value 0 ds))
       else case rd ds of Some (neg, r) \<Rightarrow> JFloat neg r | None \<Rightarrow> JNull) \<and>
    get_number rd (CHR ''-'' # ds) =
      (if digits_value 0 ds \<le> 2 ^ 63 then JInteger (word_of_int (- int (digits_value 0 ds)))
       else case rd (CHR ''-'' # ds) of Some (neg, r) \<Rightarrow> JFloat neg r | None \<Rightarrow> JNull)"
  using get_number_positive [OF assms] get_number_minus [OF assms(2)] by (rule conjI)

theorem get_number_exact_witness:
  "get_number (\<lambda>t. None) ''18446744073709551615'' = JUnsigned 18446744073709551615 \<and>
   get_number (\<lambda>t. None) ''18446744073709551616'' = JNull \<and>
   get_number (\<lambda>t. None) ''-9223372036854775808'' = JInteger 9223372036854775808"
proof -
  have "\<forall>c \<in> set ''18446744073709551615''. is_digit c" "\<forall>c \<in> set ''18446744073709551616''. is_digit c"
    "\<forall>c \<in> set ''9223372036854775808''. is_digit c" by code_simp+
  then show ?thesis
    using get_number_exact [of "''18446744073709551615''" "\<lambda>t. None"]
      get_number_exact [of "''18446744073709551616''" "\<lambda>t. None"]
      get_number_exact [of "''9223372036854775808''" "\<lambda>t. None"]
    by simp
qed

text \<open>C29: what is parsed is a value of the library's type: every string and key in it, at any depth, is
  UTF-8 (escapes and surrogate pairs included), objects have their keys in ascending order and each
  key once, a signed integer is one with a minus sign, and the mark of a discarded value is nowhere left.
\<close>
theorem json_parse_wf:
  assumes "json_parse rd doc = Some (Ok j)"
  shows "json_wf j"
  using assms by (auto simp: json_parse_def parse_steps parse_value_wf split: if_splits)

theorem json_parse_wf_witness:
  "json_parse (\<lambda>t. None) (CHR 0x5B # CHR 0x7B # CHR 0x7D # CHR 0x2C # ''1 ]'') = Some (Ok (JArray [JObject [], JUnsigned 1])) \<and>
   json_wf (JArray [JObject [], JUnsigned 1])"
proof
  show "json_parse (\<lambda>t. None) (CHR 0x5B # CHR 0x7B # CHR 0x7D # CHR 0x2C # ''1 ]'') = Some (Ok (JArray [JObject [], JUnsigned 1]))"
    by code_simp
  then show "json_wf (JArray [JObject [], JUnsigned 1])" by (rule json_parse_wf)
qed

end
