(* ===== verification/JsonBinary.thy ===== *)
theory JsonBinary
  imports JsonParse
begin

text \<open>
  What the two binary formats of \<^verbatim>\<open>include/json.h\<close>, MessagePack and CBOR, share: the
  bytes of a vector, numbers in network byte order (\<^verbatim>\<open>add_to_vector\<close>,
  \<^verbatim>\<open>get_from_vector\<close>), \<^verbatim>\<open>check_length\<close>, the loops that read the items
  of an array or an object, and IEEE numbers. A vector is the list of its bytes, a position a natural
  number: what is added to a position without a check is bounded by a check before it is used.
  The contract \<open>binary_format\<close> is what a format has to fulfil so that reading undoes writing.
\<close>

unbundle bit_operations_syntax

section \<open>Bytes\<close>

type_synonym u8 = "8 word"

definition bytes_of :: "string \<Rightarrow> u8 list" where
  "bytes_of s = map of_char s"

definition string_of :: "u8 list \<Rightarrow> string" where
  "string_of bs = map (\<lambda>b. char_of (unat b)) bs"

text \<open>What is pushed for a number of 1, 2, 4 or 8 bytes.\<close>

definition add_to_vector :: "nat \<Rightarrow> u64 \<Rightarrow> u8 list" where
  "add_to_vector bytes number =
     (let push = map (\<lambda>k. ucast (drop_bit k number AND 0xFF)) in
      (if bytes = 8 then push [56, 48, 40, 32] else []) @
      (if bytes \<in> {8, 4} then push [24, 16] else []) @
      (if bytes \<in> {8, 4, 2} then push [8] else []) @
      (if bytes \<in> {8, 4, 2, 1} then push [0] else []))"

definition get_from_vector :: "nat \<Rightarrow> u8 list \<Rightarrow> nat \<Rightarrow> u64 outcome" where
  "get_from_vector n vec current_index =
     (if length vec < current_index + n + 1
      then Throw (''cannot read '' @ dec_nat n @ '' bytes from vector'')
      else Ok (\<Sum>i\<leftarrow>[0..<n]. push_bit (8 * i) (ucast (vec ! (current_index + n - i)))))"

text \<open>The same bytes as a signed type of \<open>n\<close> bytes, widened to \<^verbatim>\<open>int64_t\<close>.\<close>

definition as_signed :: "nat \<Rightarrow> u64 \<Rightarrow> u64" where
  "as_signed n w = word_of_int (signed_take_bit (8 * n - 1) (uint w))"

definition check_length :: "nat \<Rightarrow> nat \<Rightarrow> nat \<Rightarrow> unit outcome" where
  "check_length sz len offset =
     (if len > sz \<or> offset > sz then Throw ''len out of range''
      else if int sz > 2 ^ 64 - 1 - int offset then Throw ''len+offset out of range''
      else if (len + offset) mod 2 ^ 64 > sz then Throw ''len+offset out of range''
      else Ok ())"

text \<open>\<^verbatim>\<open>v.at(i)\<close>.\<close>

definition vector_at :: "u8 list \<Rightarrow> nat \<Rightarrow> u8 outcome" where
  "vector_at v i = (if i < length v then Ok (v ! i) else Throw ''vector::_M_range_check'')"

text \<open>\<^verbatim>\<open>std::string(v.data() + offset, len)\<close>, after the check that the bytes are there.\<close>

definition read_string :: "u8 list \<Rightarrow> nat \<Rightarrow> nat \<Rightarrow> (json \<times> nat) outcome" where
  "read_string v len offset =
     obind (check_length (length v) len offset)
       (\<lambda>_. Ok (JString (string_of (take len (drop offset v))), offset + len))"

section \<open>Floating-point numbers\<close>

definition ldexp :: "nat \<Rightarrow> int \<Rightarrow> rat" where
  "ldexp m k = (if 0 \<le> k then of_nat m * 2 ^ nat k else of_nat m / 2 ^ nat (- k))"

text \<open>
  An IEEE number with \<open>e\<close> bits of exponent and \<open>f\<close> of fraction: its sign and value, or
  \<open>None\<close> for an infinity or NaN. A JSON value made of it is null in that case.
\<close>

definition ieee :: "nat \<Rightarrow> nat \<Rightarrow> u64 \<Rightarrow> (bool \<times> rat) option" where
  "ieee e f w =
     (let ex = unat (take_bit e (drop_bit f w)); mant = unat (take_bit f w); bias = 2 ^ (e - 1) - 1 :: nat;
          neg = bit w (e + f);
          val = (if ex = 0 then ldexp mant (1 - int bias - int f)
                 else ldexp (mant + 2 ^ f) (int ex - int bias - int f)) in
      if ex = 2 ^ e - 1 then None else Some (neg, if neg then - val else val))"

definition json_of_float :: "(bool \<times> rat) option \<Rightarrow> json" where
  "json_of_float x = (case x of None \<Rightarrow> JNull | Some (neg, r) \<Rightarrow> JFloat neg r)"

text \<open>Copying \<open>n\<close> bytes in reverse order into a float or double.\<close>

definition read_ieee :: "nat \<Rightarrow> nat \<Rightarrow> nat \<Rightarrow> u8 list \<Rightarrow> nat \<Rightarrow> (json \<times> nat) outcome" where
  "read_ieee n e f v current_idx =
     (if current_idx + n < length v
      then Ok (json_of_float (ieee e f (\<Sum>i\<leftarrow>[0..<n]. push_bit (8 * i) (ucast (v ! (current_idx + n - i))))),
               current_idx + 1 + n)
      else Throw ''vector::_M_range_check'')"

text \<open>The bits of 1.5.\<close>

lemma ieee_example: "ieee 11 52 0x3FF8000000000000 = Some (False, 3 / 2)"
  by (simp add: ieee_def ldexp_def)

section \<open>The loops\<close>

type_synonym read_result = "(json \<times> nat) outcome option"

definition read_elements ::
  "(nat \<Rightarrow> read_result) \<Rightarrow> (nat \<Rightarrow> json \<Rightarrow> nat \<Rightarrow> read_result) \<Rightarrow> nat \<Rightarrow> json \<Rightarrow> nat \<Rightarrow> read_result" where
  "read_elements pv pe len result idx =
     (case len of
        0 \<Rightarrow> Some (Ok (result, idx))
      | Suc k \<Rightarrow> pbind (pv idx) (\<lambda>(x, idx). pe k (push_back result x) idx))"

definition read_member :: "(nat \<Rightarrow> read_result) \<Rightarrow> json \<Rightarrow> nat \<Rightarrow> read_result" where
  "read_member pv result idx =
     pbind (pv idx) (\<lambda>(k, idx). after (json_get_string k) (\<lambda>key.
       pbind (pv idx) (\<lambda>(x, idx). after (json_assign result key x) (\<lambda>result. Some (Ok (result, idx))))))"

definition read_members ::
  "(nat \<Rightarrow> read_result) \<Rightarrow> (nat \<Rightarrow> json \<Rightarrow> nat \<Rightarrow> read_result) \<Rightarrow> nat \<Rightarrow> json \<Rightarrow> nat \<Rightarrow> read_result" where
  "read_members pv pm len result idx =
     (case len of
        0 \<Rightarrow> Some (Ok (result, idx))
      | Suc k \<Rightarrow> pbind (read_member pv result idx) (\<lambda>(result, idx). pm k result idx))"

section \<open>Items with a length or a number\<close>

definition read_unsigned :: "nat \<Rightarrow> u8 list \<Rightarrow> nat \<Rightarrow> read_result" where
  "read_unsigned n v current_idx =
     Some (obind (get_from_vector n v current_idx) (\<lambda>w. Ok (JUnsigned w, current_idx + 1 + n)))"

definition read_signed :: "nat \<Rightarrow> u8 list \<Rightarrow> nat \<Rightarrow> read_result" where
  "read_signed n v current_idx =
     Some (obind (get_from_vector n v current_idx) (\<lambda>w. Ok (JInteger (as_signed n w), current_idx + 1 + n)))"

definition read_sized_string :: "nat \<Rightarrow> u8 list \<Rightarrow> nat \<Rightarrow> read_result" where
  "read_sized_string n v current_idx =
     Some (obind (get_from_vector n v current_idx) (\<lambda>len. read_string v (unat len) (current_idx + 1 + n)))"

text \<open>The items behind a length of \<open>n\<close> bytes, with the loop that reads them.\<close>

definition read_sized ::
  "nat \<Rightarrow> u8 list \<Rightarrow> (nat \<Rightarrow> json \<Rightarrow> nat \<Rightarrow> read_result) \<Rightarrow> json \<Rightarrow> nat \<Rightarrow> read_result" where
  "read_sized n v loop result current_idx =
     after (get_from_vector n v current_idx) (\<lambda>len. loop (unat len) result (current_idx + 1 + n))"

section \<open>Lemmas\<close>

lemma check_length_Ok: "sz < 2 ^ 63 \<Longrightarrow> check_length sz len offset = Ok () \<longleftrightarrow> offset + len \<le> sz"
proof (cases "len > sz \<or> offset > sz")
  case False
  assume "sz < 2 ^ 63"
  with False have "(len + offset) mod 2 ^ 64 = len + offset" "\<not> int sz > 2 ^ 64 - 1 - int offset" by simp_all
  with False show ?thesis by (auto simp: check_length_def)
qed (auto simp: check_length_def)

lemma unat_of_char: "unat (of_char c :: u8) = of_char c"
proof -
  have "unat (of_nat (of_char c) :: u8) = of_char c" by (simp add: unat_of_nat take_bit_eq_mod del: of_nat_of_char)
  then show ?thesis by (simp only: of_nat_of_char)
qed

lemma string_of_bytes_of [simp]: "string_of (bytes_of s) = s"
  by (simp add: string_of_def bytes_of_def comp_def map_idI unat_of_char)

lemma length_bytes_of [simp]: "length (bytes_of s) = length s"
  by (simp add: bytes_of_def)

text \<open>Numbers in network byte order.\<close>

lemma byte_sum: "(\<Sum>i\<leftarrow>[0..<n]. 256 ^ i * (w div 256 ^ i mod 256)) = w mod 256 ^ n" for w :: nat
proof (induction n)
  case (Suc n)
  have "w mod 256 ^ Suc n = 256 ^ n * (w div 256 ^ n mod 256) + w mod 256 ^ n"
    using mod_mult2_eq [of w "256 ^ n" 256] by (simp add: mult.commute)
  then show ?case using Suc by simp
qed simp

abbreviation widths :: "nat set" where
  "widths \<equiv> {1, 2, 4, 8}"

lemma add_to_vector_bytes:
  "n \<in> widths \<Longrightarrow> add_to_vector n w = map (\<lambda>i. ucast (drop_bit (8 * i) w AND 0xFF)) (rev [0..<n])"
  by (auto simp: add_to_vector_def Let_def upt_rec)

lemma add_to_vector_length [simp]: "n \<in> widths \<Longrightarrow> length (add_to_vector n w) = n"
  by (simp add: add_to_vector_bytes)

lemma mask_8: "(0xFF :: u64) = mask 8"
  by (simp add: mask_eq_exp_minus_1)

lemma low_byte: "ucast (w AND 0xFF) = (ucast w :: u8)" for w :: u64
  unfolding mask_8 by (rule bit_word_eqI) (auto simp: bit_simps)

lemma add_one_byte: "add_to_vector 1 w = [ucast w]"
  by (simp add: add_to_vector_def low_byte)

lemma unat_byte: "unat (ucast (drop_bit k w AND 0xFF) :: u8) = unat w div 2 ^ k mod 256" for w :: u64
proof -
  have "unat (drop_bit k w) = unat w div 2 ^ k"
    using unsigned_less [of w, where ?'a = nat]
    by (simp add: unsigned_drop_bit_eq take_bit_nat_eq_self drop_bit_eq_div [of k "unat w"])
  then show ?thesis unfolding low_byte by (simp only: unsigned_ucast_eq) (simp add: take_bit_eq_mod)
qed

lemma sum_bytes:
  fixes b :: "nat \<Rightarrow> u8"
  shows "(\<Sum>i\<leftarrow>is. push_bit (8 * i) (ucast (b i)) :: u64) = word_of_nat (\<Sum>i\<leftarrow>is. 256 ^ i * unat (b i))"
proof (induction "is")
  case (Cons i "is")
  have "push_bit (8 * i) (ucast (b i)) = (word_of_nat (256 ^ i * unat (b i)) :: u64)"
    using power_mult [of "2 :: u64" 8 i] by (simp add: push_bit_eq_mult mult.commute)
  then show ?case using Cons by simp
qed simp

lemma get_written:
  assumes "n \<in> widths"
  shows "get_from_vector n (p @ b # add_to_vector n w @ s) (length p) = Ok (word_of_nat (unat w mod 256 ^ n))"
proof -
  let ?v = "p @ b # add_to_vector n w @ s"
  have b: "unat (?v ! (length p + n - i)) = unat w div 256 ^ i mod 256" if "i < n" for i
  proof -
    have "?v ! (length p + n - i) = add_to_vector n w ! (n - i - 1)"
      using that assms by (auto simp: nth_append nth_Cons')
    also have "\<dots> = ucast (drop_bit (8 * i) w AND 0xFF)"
      using that assms by (simp add: add_to_vector_bytes rev_nth)
    finally show ?thesis by (simp add: unat_byte power_mult)
  qed
  have "(\<Sum>i\<leftarrow>[0..<n]. 256 ^ i * unat (?v ! (length p + n - i))) = unat w mod 256 ^ n"
    unfolding byte_sum [symmetric] by (rule arg_cong [of _ _ sum_list], rule map_cong) (simp_all add: b)
  moreover have "\<not> length ?v < length p + n + 1" using assms by auto
  ultimately show ?thesis unfolding get_from_vector_def sum_bytes by simp
qed

lemma get_small:
  assumes "n \<in> widths" and "unat w < 256 ^ n"
  shows "get_from_vector n (p @ b # add_to_vector n w @ s) (length p) = Ok w"
  using get_written [OF assms(1), of p b w s] assms(2) by simp

text \<open>A negative number that fits \<open>n\<close> bytes comes back from their two's complement.\<close>

lemma signed_written:
  fixes w :: u64
  assumes "n \<in> widths" and "- (2 ^ (8 * n - 1)) \<le> sint w" and "sint w < 2 ^ (8 * n - 1)"
  shows "as_signed n (word_of_nat (unat w mod 256 ^ n)) = w"
proof -
  have n: "0 < n" "8 * n \<le> 64" using assms(1) by auto
  have "unat w mod 256 ^ n < 2 ^ 64"
    using unsigned_less [of w, where ?'a = nat] mod_less_eq_dividend [of "unat w" "256 ^ n"]
    by (simp del: mod_less_eq_dividend)
  then have "unat (word_of_nat (unat w mod 256 ^ n) :: u64) = unat w mod 256 ^ n"
    by (simp add: unat_of_nat take_bit_nat_eq_self)
  then have "uint (word_of_nat (unat w mod 256 ^ n) :: u64) = uint w mod 256 ^ n"
    by (simp only: uint_nat zmod_int of_nat_power of_nat_numeral)
  also have "\<dots> = take_bit (8 * n) (uint w)" by (simp only: take_bit_eq_mod power_mult) simp
  also have "\<dots> = take_bit (8 * n) (sint w)" using n by (simp add: uint_sint min_def del: uint_sint [symmetric])
  finally have u: "uint (word_of_nat (unat w mod 256 ^ n) :: u64) = take_bit (8 * n) (sint w)" .
  have "signed_take_bit (8 * n - 1) (take_bit (8 * n) (sint w)) = sint w"
    using n(1) assms(2,3) by (auto simp: signed_take_bit_take_bit signed_take_bit_int_eq_self)
  then show ?thesis by (simp add: as_signed_def u)
qed

text \<open>Strings.\<close>

lemma read_written_string:
  assumes "length (h @ bytes_of str @ s) < 2 ^ 63"
  shows "read_string (h @ bytes_of str @ s) (length str) (length h) =
    Ok (JString str, length h + length str)"
  using assms check_length_Ok [of "length (h @ bytes_of str @ s)" "length str" "length h"]
  by (simp add: read_string_def)

lemma read_ieee_written:
  assumes "n = 4 \<or> n = 8"
  shows "read_ieee n e f (p @ b # add_to_vector n w @ s) (length p) =
    Ok (json_of_float (ieee e f (word_of_nat (unat w mod 256 ^ n))), length p + 1 + n)"
  using get_written [of n p b w s] assms
  by (auto simp: get_from_vector_def read_ieee_def split: if_splits)

text \<open>Reading where the byte \<open>b\<close> stands.\<close>

lemma check_length_passes: "sz < 2 ^ 63 \<Longrightarrow> offset + len \<le> sz \<Longrightarrow> check_length sz len offset = Ok ()"
  by (simp add: check_length_Ok)

lemma read_written_unsigned:
  assumes "n \<in> widths" and "unat w < 256 ^ n"
  shows "read_unsigned n (p @ b # add_to_vector n w @ s) (length p) = Some (Ok (JUnsigned w, length p + (n + 1)))"
  using get_small [OF assms, of p b s] by (simp add: read_unsigned_def)

lemma read_written_signed:
  assumes "n \<in> widths" and "- (2 ^ (8 * n - 1)) \<le> sint w" and "sint w < 2 ^ (8 * n - 1)"
  shows "read_signed n (p @ b # add_to_vector n w @ s) (length p) = Some (Ok (JInteger w, length p + (n + 1)))"
  using get_written [OF assms(1), of p b w s] signed_written [OF assms] by (simp add: read_signed_def)

lemma read_written_sized_string:
  assumes "n \<in> widths" and "length str < 256 ^ n" and "length str < 2 ^ 64"
    and "length (p @ b # add_to_vector n (word_of_nat (length str)) @ bytes_of str @ s) < 2 ^ 63"
  shows "read_sized_string n (p @ b # add_to_vector n (word_of_nat (length str)) @ bytes_of str @ s) (length p) =
    Some (Ok (JString str, length p + (n + 1 + length str)))"
proof -
  let ?w = "word_of_nat (length str) :: u64"
  have u: "unat ?w = length str" using assms(3) by (simp add: unat_of_nat take_bit_nat_eq_self)
  show ?thesis
    using get_small [OF assms(1), of ?w p b "bytes_of str @ s"] assms(1,2,4) u
      read_written_string [of "p @ b # add_to_vector n ?w" str s]
    by (simp add: read_sized_string_def)
qed

lemma read_written_sized:
  assumes "n \<in> widths" and "N < 256 ^ n" and "N < 2 ^ 64"
  shows "read_sized n (p @ b # add_to_vector n (word_of_nat N) @ s) loop r (length p) = loop N r (length p + (n + 1))"
proof -
  have u: "unat (word_of_nat N :: u64) = N" using assms(3) by (simp add: unat_of_nat take_bit_nat_eq_self)
  show ?thesis using get_small [OF assms(1), of "word_of_nat N" p b s] assms(2) u by (simp add: read_sized_def)
qed

lemma ucast_small: "unat w < 256 \<Longrightarrow> unat (ucast w :: u8) = unat w" for w :: u64
  by (simp add: unsigned_ucast_eq take_bit_nat_eq_self)

lemma ucast_back:
  assumes "unat w < 256"
  shows "ucast (ucast w :: u8) = (w :: u64)"
proof -
  have "w = word_of_nat (unat w)" by simp
  also have "\<dots> = word_of_nat (unat (ucast w :: u8))" using ucast_small [OF assms] by simp
  finally show ?thesis by simp
qed

subsection \<open>Progress\<close>

text \<open>
  A reader of items on a vector of \<open>size\<close> bytes takes at least one byte, a loop goes on; a reader
  that returns wherever there are fewer bytes left makes its loop return.
\<close>

definition moves :: "nat \<Rightarrow> (nat \<Rightarrow> read_result) \<Rightarrow> bool" where
  "moves sz pv \<longleftrightarrow> (\<forall>i x i'. pv i = Some (Ok (x, i')) \<longrightarrow> i < sz \<and> i < i')"

definition goes_on :: "('k \<Rightarrow> 'r \<Rightarrow> nat \<Rightarrow> read_result) \<Rightarrow> bool" where
  "goes_on loop \<longleftrightarrow> (\<forall>k r i x i'. loop k r i = Some (Ok (x, i')) \<longrightarrow> i \<le> i')"

definition returns_behind :: "nat \<Rightarrow> nat \<Rightarrow> ('k \<Rightarrow> 'r \<Rightarrow> nat \<Rightarrow> read_result) \<Rightarrow> bool" where
  "returns_behind sz i loop \<longleftrightarrow> (i < sz \<longrightarrow> (\<forall>k r i'. i < i' \<longrightarrow> loop k r i' \<noteq> None))"

lemma check_length_fits: "check_length sz len offset = Ok u \<Longrightarrow> offset + len \<le> sz"
  by (auto simp: check_length_def split: if_splits)

lemma get_from_vector_fits: "get_from_vector n v i = Ok w \<Longrightarrow> i + n < length v"
  by (auto simp: get_from_vector_def split: if_splits)

lemma string_end: "read_string v len offset = Ok (x, i') \<Longrightarrow> i' = offset + len \<and> offset + len \<le> length v"
  by (auto simp: read_string_def obind_eq_Ok dest: check_length_fits)

lemma ieee_end: "read_ieee n e f v i = Ok (x, i') \<Longrightarrow> i < length v \<and> i' = i + 1 + n"
  by (auto simp: read_ieee_def split: if_splits)

lemma number_end:
  "read_unsigned n v i = Some (Ok (x, i')) \<Longrightarrow> i < length v \<and> i < i'"
  "read_signed n v i = Some (Ok (x, i')) \<Longrightarrow> i < length v \<and> i < i'"
  "read_sized_string n v i = Some (Ok (x, i')) \<Longrightarrow> i < length v \<and> i < i'"
  by (auto simp: read_unsigned_def read_signed_def read_sized_string_def obind_eq_Ok
      dest!: get_from_vector_fits string_end)

lemma sized_end:
  "read_sized n v loop r i = Some (Ok (x, i')) \<Longrightarrow> goes_on loop \<Longrightarrow> i < length v \<and> i < i'"
  by (fastforce simp: read_sized_def goes_on_def parse_steps dest!: get_from_vector_fits)

lemma sized_returns: "returns_behind (length v) i loop \<Longrightarrow> read_sized n v loop r i \<noteq> None"
  by (auto simp: read_sized_def returns_behind_def parse_steps dest: get_from_vector_fits)

lemma movesD: "moves sz pv \<Longrightarrow> pv i = Some (Ok (x, i')) \<Longrightarrow> i < sz \<and> i < i'"
  unfolding moves_def by blast

lemma goes_onD: "goes_on loop \<Longrightarrow> loop k r i = Some (Ok (x, i')) \<Longrightarrow> i \<le> i'"
  unfolding goes_on_def by blast

lemma goes_onI: "(\<And>k r i x i'. loop k r i = Some (Ok (x, i')) \<Longrightarrow> i \<le> i') \<Longrightarrow> goes_on loop"
  unfolding goes_on_def by blast

lemma returns_behindD: "returns_behind sz i loop \<Longrightarrow> i < sz \<Longrightarrow> i < i' \<Longrightarrow> loop k r i' \<noteq> None"
  unfolding returns_behind_def by blast

lemma elements_goes_on: "moves sz pv \<Longrightarrow> goes_on pe \<Longrightarrow> goes_on (read_elements pv pe)"
  by (rule goes_onI)
    (auto simp: read_elements_def parse_steps split: nat.splits dest!: movesD goes_onD)

lemma member_end:
  assumes "read_member pv r i = Some (Ok (x, i'))" and m: "moves sz pv"
  shows "i < sz \<and> i < i'"
proof -
  obtain k i1 y where "pv i = Some (Ok (k, i1))" "pv i1 = Some (Ok (y, i'))"
    using assms(1) by (auto simp: read_member_def parse_steps)
  then show ?thesis using movesD [OF m, of i] movesD [OF m, of i1] by fastforce
qed

lemma members_goes_on: "moves sz pv \<Longrightarrow> goes_on pm \<Longrightarrow> goes_on (read_members pv pm)"
  by (rule goes_onI)
    (auto simp: read_members_def parse_steps split: nat.splits dest!: member_end goes_onD)

lemma elements_return:
  assumes "pv i \<noteq> None" and "moves sz pv" and "returns_behind sz i pe"
  shows "read_elements pv pe len r i \<noteq> None"
proof
  assume "read_elements pv pe len r i = None"
  then obtain k x i' where "pv i = Some (Ok (x, i'))" "pe k (push_back r x) i' = None"
    using assms(1) by (auto simp: read_elements_def parse_steps split: nat.splits)
  then show False using movesD [OF assms(2)] returns_behindD [OF assms(3)] by blast
qed

lemma member_return:
  assumes "pv i \<noteq> None" and "moves sz pv" and "\<And>i'. i < sz \<Longrightarrow> i < i' \<Longrightarrow> pv i' \<noteq> None"
  shows "read_member pv r i \<noteq> None"
proof
  assume "read_member pv r i = None"
  then obtain x i' where "pv i = Some (Ok (x, i'))" "pv i' = None"
    using assms(1) by (auto simp: read_member_def parse_steps)
  then show False using movesD [OF assms(2)] assms(3) by blast
qed

lemma members_return:
  assumes "pv i \<noteq> None" and "moves sz pv" and "\<And>i'. i < sz \<Longrightarrow> i < i' \<Longrightarrow> pv i' \<noteq> None"
    and "returns_behind sz i pm"
  shows "read_members pv pm len r i \<noteq> None"
proof
  assume "read_members pv pm len r i = None"
  then obtain k x i' where "read_member pv r i = Some (Ok (x, i'))" "pm k x i' = None"
    using member_return [OF assms(1-3), of r] by (auto simp: read_members_def parse_steps split: nat.splits)
  then show False using member_end [OF _ assms(2)] returns_behindD [OF assms(4)] by blast
qed

text \<open>The same for one step of a reader at a position, case by case.\<close>

definition onward :: "nat \<Rightarrow> nat \<Rightarrow> read_result \<Rightarrow> bool" where
  "onward sz i m \<longleftrightarrow> (\<forall>x i'. m = Some (Ok (x, i')) \<longrightarrow> i < sz \<and> i < i')"

definition returns :: "read_result \<Rightarrow> bool" where
  "returns m \<longleftrightarrow> m \<noteq> None"

lemma onward_check: "(i < length v \<Longrightarrow> onward (length v) i m) \<Longrightarrow> onward (length v) i (after (check_length (length v) 1 i) (\<lambda>_. m))"
  by (auto simp: onward_def parse_steps dest!: check_length_fits)

lemma onward_at: "(\<And>b. i < length v \<Longrightarrow> onward (length v) i (f b)) \<Longrightarrow> onward (length v) i (after (vector_at v i) f)"
  by (auto simp: onward_def parse_steps vector_at_def split: if_splits)

lemma onward_if: "onward sz i m \<Longrightarrow> onward sz i m' \<Longrightarrow> onward sz i (if c then m else m')"
  by simp

lemma onward_items:
  "i < length v \<Longrightarrow> onward (length v) i (Some (Ok (x, i + 1)))"
  "onward (length v) i (Some (Throw msg))"
  "i < length v \<Longrightarrow> onward (length v) i (Some (read_string v len (i + 1)))"
  "onward (length v) i (Some (read_ieee n e f v i))"
  "onward (length v) i (read_unsigned n v i)" "onward (length v) i (read_signed n v i)"
  "onward (length v) i (read_sized_string n v i)"
  "goes_on loop \<Longrightarrow> onward (length v) i (read_sized n v loop r i)"
  by (auto simp: onward_def dest: string_end ieee_end number_end sized_end goes_onD)

lemma onward_loop: "goes_on loop \<Longrightarrow> i < sz \<Longrightarrow> onward sz i (loop k r (i + 1))"
  by (auto simp: onward_def dest: goes_onD)

lemmas onward_intros = onward_check onward_at onward_if onward_items

lemma returns_check: "(i < length v \<Longrightarrow> returns m) \<Longrightarrow> returns (after (check_length (length v) 1 i) (\<lambda>_. m))"
  by (auto simp: returns_def after_eq_None simp del: not_None_eq dest!: check_length_fits)

lemma returns_at: "(\<And>b. i < length v \<Longrightarrow> returns (f b)) \<Longrightarrow> returns (after (vector_at v i) f)"
  by (auto simp: returns_def after_eq_None vector_at_def simp del: not_None_eq split: if_splits)

lemma returns_items:
  "returns (Some y)" "returns m \<Longrightarrow> returns m' \<Longrightarrow> returns (if c then m else m')"
  "returns (read_unsigned n v i)" "returns (read_signed n v i)" "returns (read_sized_string n v i)"
  "returns_behind (length v) i loop \<Longrightarrow> returns (read_sized n v loop r i)"
  using sized_returns [of v i loop]
  by (simp_all add: returns_def read_unsigned_def read_signed_def read_sized_string_def)

lemma returns_loop: "returns_behind sz i loop \<Longrightarrow> i < sz \<Longrightarrow> returns (loop k r (i + 1))"
  by (simp add: returns_def returns_behindD del: not_None_eq)

lemmas returns_intros = returns_check returns_at returns_items

text \<open>More fuel.\<close>

lemma extends_loops:
  "(\<And>i. extends (pv i) (pv' i)) \<Longrightarrow> (\<And>k r i. extends (pl k r i) (pl' k r i)) \<Longrightarrow>
     extends (read_elements pv pl len r i) (read_elements pv' pl' len r i)"
  "(\<And>i. extends (pv i) (pv' i)) \<Longrightarrow> (\<And>k r i. extends (pl k r i) (pl' k r i)) \<Longrightarrow>
     extends (read_members pv pl len r i) (read_members pv' pl' len r i)"
  "(\<And>k r i. extends (pl k r i) (pl' k r i)) \<Longrightarrow> extends (read_sized n v pl r i) (read_sized n v pl' r i)"
  by (cases len; auto simp: read_elements_def read_members_def read_member_def read_sized_def split_beta
      intro!: extends_intros intro: extends_refl)+

section \<open>The contract of a binary format\<close>

text \<open>
  The values a format can write: lengths below its limit, floats that its bits stand for, keys in
  order. \<open>bits\<close> is the representation of a double.
\<close>

fun binary_ok :: "nat \<Rightarrow> (bool \<Rightarrow> rat \<Rightarrow> u64) \<Rightarrow> json \<Rightarrow> bool" where
  "binary_ok max_len bits (JObject m) =
     (map_sorted m \<and> length m < max_len \<and> (\<forall>kv \<in> set m. length (fst kv) < max_len \<and> binary_ok max_len bits (snd kv)))"
| "binary_ok max_len bits (JArray a) = (length a < max_len \<and> (\<forall>v \<in> set a. binary_ok max_len bits v))"
| "binary_ok max_len bits (JString s) = (length s < max_len)"
| "binary_ok max_len bits (JFloat neg r) = (ieee 11 52 (bits neg r) = Some (neg, r))"
| "binary_ok max_len bits JDiscarded = False"
| "binary_ok max_len bits _ = True"

fun is_scalar :: "json \<Rightarrow> bool" where
  "is_scalar (JObject m) = False"
| "is_scalar (JArray a) = False"
| "is_scalar _ = True"

text \<open>
  Reading at a position inside a vector: the bytes before it and behind the item are any.
  \<open>item\<close>, \<open>elements\<close> and \<open>members\<close> are the readers with fuel; more fuel does not
  change a result.
\<close>

locale binary_format =
  fixes item :: "nat \<Rightarrow> u8 list \<Rightarrow> nat \<Rightarrow> read_result"
    and elements members :: "nat \<Rightarrow> u8 list \<Rightarrow> nat \<Rightarrow> json \<Rightarrow> nat \<Rightarrow> read_result"
    and enc :: "json \<Rightarrow> u8 list" and max_len :: nat and bits :: "bool \<Rightarrow> rat \<Rightarrow> u64"
  assumes elements_Suc: "elements (Suc n) v = read_elements (item n v) (elements n v)"
    and members_Suc: "members (Suc n) v = read_members (item n v) (members n v)"
    and item_more: "item n v i = Some r \<Longrightarrow> n \<le> k \<Longrightarrow> item k v i = Some r"
    and item_returns: "2 * length v + 1 \<le> n \<Longrightarrow> item n v i \<noteq> None"
    and elements_more: "elements n v len x i = Some r \<Longrightarrow> n \<le> k \<Longrightarrow> elements k v len x i = Some r"
    and members_more: "members n v len x i = Some r \<Longrightarrow> n \<le> k \<Longrightarrow> members k v len x i = Some r"
    and scalar_reads: "is_scalar j \<Longrightarrow> binary_ok max_len bits j \<Longrightarrow> length (p @ enc j @ s) < 2 ^ 63 \<Longrightarrow>
      \<exists>n. item n (p @ enc j @ s) (length p) = Some (Ok (as_read j, length p + length (enc j)))"
    and array_reads: "length a < max_len \<Longrightarrow> \<exists>h. enc (JArray a) = h @ concat (map enc a) \<and>
      (\<forall>n p s. length (p @ h @ s) < 2 ^ 63 \<longrightarrow>
         item (Suc n) (p @ h @ s) (length p) = elements n (p @ h @ s) (length a) (JArray []) (length p + length h))"
    and object_reads: "length m < max_len \<Longrightarrow> \<exists>h. enc (JObject m) = h @ concat (map (\<lambda>(k, x). enc (JString k) @ enc x) m) \<and>
      (\<forall>n p s. length (p @ h @ s) < 2 ^ 63 \<longrightarrow>
         item (Suc n) (p @ h @ s) (length p) = members n (p @ h @ s) (length m) (JObject []) (length p + length h))"
begin

definition reads :: "json \<Rightarrow> bool" where
  "reads j \<longleftrightarrow> (\<forall>p s. length (p @ enc j @ s) < 2 ^ 63 \<longrightarrow>
     (\<exists>n. item n (p @ enc j @ s) (length p) = Some (Ok (as_read j, length p + length (enc j)))))"

lemma readsD:
  "reads j \<Longrightarrow> length (p @ enc j @ s) < 2 ^ 63 \<Longrightarrow>
     \<exists>n. item n (p @ enc j @ s) (length p) = Some (Ok (as_read j, length p + length (enc j)))"
  by (simp add: reads_def)

lemma elements_read:
  assumes "\<forall>x \<in> set a. reads x" and "length (p @ concat (map enc a) @ s) < 2 ^ 63"
  shows "\<exists>n. elements n (p @ concat (map enc a) @ s) (length a) (JArray res) (length p) =
    Some (Ok (JArray (res @ map as_read a), length p + length (concat (map enc a))))"
  using assms
proof (induction a arbitrary: p res)
  case Nil
  have "elements (Suc 0) (p @ s) 0 (JArray res) (length p) = Some (Ok (JArray res, length p))"
    by (simp add: elements_Suc read_elements_def)
  then show ?case by auto
next
  case (Cons x a)
  let ?v = "p @ enc x @ concat (map enc a) @ s"
  obtain n1 where n1: "item n1 ?v (length p) = Some (Ok (as_read x, length p + length (enc x)))"
    using readsD [of x p "concat (map enc a) @ s"] Cons.prems by auto
  obtain n2 where n2: "elements n2 ?v (length a) (JArray (res @ [as_read x])) (length p + length (enc x)) =
      Some (Ok (JArray (res @ as_read x # map as_read a), length p + length (enc x) + length (concat (map enc a))))"
    using Cons.IH [of "p @ enc x" "res @ [as_read x]"] Cons.prems by auto
  have "elements (Suc (n1 + n2)) ?v (Suc (length a)) (JArray res) (length p) =
      Some (Ok (JArray (res @ as_read x # map as_read a), length p + length (enc x) + length (concat (map enc a))))"
    using item_more [OF n1, of "n1 + n2"] elements_more [OF n2, of "n1 + n2"]
    by (simp add: elements_Suc read_elements_def push_back_def)
  then show ?case by (intro exI) (simp add: add.assoc)
qed

lemma members_read:
  assumes "\<forall>kv \<in> set m. reads (JString (fst kv)) \<and> reads (snd kv)" and "map_sorted (res @ map (map_prod id as_read) m)"
    and "length (p @ concat (map (\<lambda>(k, x). enc (JString k) @ enc x) m) @ s) < 2 ^ 63"
  shows "\<exists>n. members n (p @ concat (map (\<lambda>(k, x). enc (JString k) @ enc x) m) @ s) (length m) (JObject res) (length p) =
    Some (Ok (JObject (res @ map (map_prod id as_read) m),
      length p + length (concat (map (\<lambda>(k, x). enc (JString k) @ enc x) m))))"
  using assms
proof (induction m arbitrary: p res)
  case Nil
  have "members (Suc 0) (p @ s) 0 (JObject res) (length p) = Some (Ok (JObject res, length p))"
    by (simp add: members_Suc read_members_def)
  then show ?case by auto
next
  case (Cons kx m)
  obtain k x where kx: "kx = (k, x)" by (cases kx)
  let ?rest = "concat (map (\<lambda>(k, x). enc (JString k) @ enc x) m)"
  let ?v = "p @ enc (JString k) @ enc x @ ?rest @ s" and ?i = "length p + length (enc (JString k))"
  obtain n1 where n1: "item n1 ?v (length p) = Some (Ok (JString k, ?i))"
    using readsD [of "JString k" p "enc x @ ?rest @ s"] Cons.prems(1,3) by (auto simp: kx)
  have "\<exists>n. item n ((p @ enc (JString k)) @ enc x @ (?rest @ s)) (length (p @ enc (JString k))) =
      Some (Ok (as_read x, length (p @ enc (JString k)) + length (enc x)))"
    using Cons.prems(1,3) by (intro readsD) (simp_all add: kx)
  then obtain n2 where n2: "item n2 ?v ?i = Some (Ok (as_read x, ?i + length (enc x)))" by auto
  have put: "json_assign (JObject res) k (as_read x) = Ok (JObject (res @ [(k, as_read x)]))"
    using Cons.prems(2) by (simp add: json_assign_def kx map_put_last map_sorted_def sorted_wrt_append)
  have "map_sorted ((res @ [(k, as_read x)]) @ map (map_prod id as_read) m)"
    using Cons.prems(2) by (simp add: kx id_def)
  moreover have "length ((p @ enc (JString k) @ enc x) @ ?rest @ s) < 2 ^ 63" using Cons.prems(3) by (simp add: kx)
  ultimately obtain n3 where "members n3 ((p @ enc (JString k) @ enc x) @ ?rest @ s) (length m)
      (JObject (res @ [(k, as_read x)])) (length (p @ enc (JString k) @ enc x)) =
      Some (Ok (JObject ((res @ [(k, as_read x)]) @ map (map_prod id as_read) m),
        length (p @ enc (JString k) @ enc x) + length ?rest))"
    using Cons.IH Cons.prems(1) by (meson list.set_intros(2))
  then have n3: "members n3 ?v (length m) (JObject (res @ [(k, as_read x)])) (?i + length (enc x)) =
      Some (Ok (JObject (res @ (k, as_read x) # map (map_prod id as_read) m), ?i + length (enc x) + length ?rest))"
    by (simp only: append_assoc append.simps length_append add.assoc)
  let ?n = "n1 + n2 + n3"
  have "members (Suc ?n) ?v (Suc (length m)) (JObject res) (length p) =
      Some (Ok (JObject (res @ (k, as_read x) # map (map_prod id as_read) m), ?i + length (enc x) + length ?rest))"
    using item_more [OF n1, of ?n] item_more [OF n2, of ?n] members_more [OF n3, of ?n] put
    by (simp add: members_Suc read_members_def read_member_def)
  then show ?case by (intro exI) (simp add: kx add.assoc id_def)
qed

lemma all_read: "binary_ok max_len bits j \<Longrightarrow> reads j"
proof (induction j rule: json_printable.induct)
  case (1 m)
  have keys: "reads (JString (fst kv))" if "kv \<in> set m" for kv
    unfolding reads_def using 1(2) that by (auto intro!: scalar_reads [where j = "JString (fst kv)", simplified])
  with 1 have all: "\<forall>kv \<in> set m. reads (JString (fst kv)) \<and> reads (snd kv)" by auto
  have sorted: "map_sorted ([] @ map (map_prod id as_read) m)" using 1(2) by (simp add: map_sorted_def comp_def)
  obtain h where h: "enc (JObject m) = h @ concat (map (\<lambda>(k, x). enc (JString k) @ enc x) m)"
    "\<And>n p s. length (p @ h @ s) < 2 ^ 63 \<Longrightarrow>
       item (Suc n) (p @ h @ s) (length p) = members n (p @ h @ s) (length m) (JObject []) (length p + length h)"
    using object_reads [of m] 1(2) by auto
  show ?case unfolding reads_def
  proof (intro allI impI)
    fix p s assume b: "length (p @ enc (JObject m) @ s) < 2 ^ 63"
    let ?v = "(p @ h) @ concat (map (\<lambda>(k, x). enc (JString k) @ enc x) m) @ s"
    obtain n where "members n ?v (length m) (JObject []) (length (p @ h)) =
        Some (Ok (JObject (map (map_prod id as_read) m),
          length (p @ h) + length (concat (map (\<lambda>(k, x). enc (JString k) @ enc x) m))))"
      using members_read [OF all sorted, of "p @ h" s] b by (auto simp: h(1))
    then have "item (Suc n) (p @ enc (JObject m) @ s) (length p) =
        Some (Ok (as_read (JObject m), length p + length (enc (JObject m))))"
      using h(2) [of p "concat (map (\<lambda>(k, x). enc (JString k) @ enc x) m) @ s" n] b by (simp add: h(1) add.assoc)
    then show "\<exists>n. item n (p @ enc (JObject m) @ s) (length p) =
        Some (Ok (as_read (JObject m), length p + length (enc (JObject m))))" by (rule exI)
  qed
next
  case (2 a)
  then have all: "\<forall>x \<in> set a. reads x" by auto
  obtain h where h: "enc (JArray a) = h @ concat (map enc a)"
    "\<And>n p s. length (p @ h @ s) < 2 ^ 63 \<Longrightarrow>
       item (Suc n) (p @ h @ s) (length p) = elements n (p @ h @ s) (length a) (JArray []) (length p + length h)"
    using array_reads [of a] 2(2) by auto
  show ?case unfolding reads_def
  proof (intro allI impI)
    fix p s assume b: "length (p @ enc (JArray a) @ s) < 2 ^ 63"
    obtain n where "elements n ((p @ h) @ concat (map enc a) @ s) (length a) (JArray []) (length (p @ h)) =
        Some (Ok (JArray (map as_read a), length (p @ h) + length (concat (map enc a))))"
      using elements_read [OF all, of "p @ h" s "[]"] b by (auto simp: h(1))
    then have "item (Suc n) (p @ enc (JArray a) @ s) (length p) =
        Some (Ok (as_read (JArray a), length p + length (enc (JArray a))))"
      using h(2) [of p "concat (map enc a) @ s" n] b by (simp add: h(1) add.assoc)
    then show "\<exists>n. item n (p @ enc (JArray a) @ s) (length p) =
        Some (Ok (as_read (JArray a), length p + length (enc (JArray a))))" by (rule exI)
  qed
qed (auto simp: reads_def intro!: scalar_reads simp del: as_read.simps)

text \<open>A vector that begins with a value.\<close>

lemma vector_reads:
  assumes "binary_ok max_len bits j" and "length (enc j @ s) < 2 ^ 63" and "2 * length (enc j @ s) + 1 \<le> n"
  shows "item n (enc j @ s) 0 = Some (Ok (as_read j, length (enc j)))"
proof -
  obtain k where "item k (enc j @ s) 0 = Some (Ok (as_read j, length (enc j)))"
    using readsD [OF all_read [OF assms(1)], of "[]" s] assms(2) by auto
  moreover obtain r where "item n (enc j @ s) 0 = Some r" using item_returns [OF assms(3), of 0] by auto
  ultimately show ?thesis using item_more [of _ "enc j @ s" 0 _ "k + n"] by (metis le_add1 le_add2)
qed

end

end
