(* ===== verification/MsgPack.thy ===== *)
theory MsgPack
  imports JsonBinary
begin

text \<open>
  MessagePack in \<^verbatim>\<open>include/json.h\<close>: \<^verbatim>\<open>to_msgpack_internal\<close> and
  \<^verbatim>\<open>from_msgpack_internal\<close>. The writer gives the bytes it appends; the reader takes a
  vector and a position and gives a value and the next position, with fuel that
  \<open>from_msgpack\<close> provides and that is shown to be enough for every vector.
\<close>

section \<open>Writing\<close>

definition msgpack_unsigned :: "u64 \<Rightarrow> u8 list" where
  "msgpack_unsigned w =
     (if w < 128 then add_to_vector 1 w
      else if w \<le> 0xFF then 0xcc # add_to_vector 1 w
      else if w \<le> 0xFFFF then 0xcd # add_to_vector 2 w
      else if w \<le> 0xFFFFFFFF then 0xce # add_to_vector 4 w
      else 0xcf # add_to_vector 8 w)"

definition msgpack_negative :: "u64 \<Rightarrow> u8 list" where
  "msgpack_negative w =
     (if - 32 \<le> sint w then add_to_vector 1 w
      else if - 128 \<le> sint w \<and> sint w \<le> 127 then 0xd0 # add_to_vector 1 w
      else if - 32768 \<le> sint w \<and> sint w \<le> 32767 then 0xd1 # add_to_vector 2 w
      else if - 2147483648 \<le> sint w \<and> sint w \<le> 2147483647 then 0xd2 # add_to_vector 4 w
      else 0xd3 # add_to_vector 8 w)"

text \<open>What is pushed before the content of a string, an array, an object; nothing if it is too long.\<close>

definition msgpack_str_head :: "nat \<Rightarrow> u8 list" where
  "msgpack_str_head N =
     (if N \<le> 31 then [0xa0 OR word_of_nat N]
      else if N \<le> 255 then 0xd9 # add_to_vector 1 (word_of_nat N)
      else if N \<le> 65535 then 0xda # add_to_vector 2 (word_of_nat N)
      else if N \<le> 4294967295 then 0xdb # add_to_vector 4 (word_of_nat N)
      else [])"

definition msgpack_array_head :: "nat \<Rightarrow> u8 list" where
  "msgpack_array_head N =
     (if N \<le> 15 then [0x90 OR word_of_nat N]
      else if N \<le> 0xffff then 0xdc # add_to_vector 2 (word_of_nat N)
      else if N \<le> 0xffffffff then 0xdd # add_to_vector 4 (word_of_nat N)
      else [])"

definition msgpack_map_head :: "nat \<Rightarrow> u8 list" where
  "msgpack_map_head N =
     (if N \<le> 15 then [0x80 OR word_of_nat (N mod 16)]
      else if N \<le> 65535 then 0xde # add_to_vector 2 (word_of_nat N)
      else if N \<le> 4294967295 then 0xdf # add_to_vector 4 (word_of_nat N)
      else [])"

fun to_msgpack_internal :: "(bool \<Rightarrow> rat \<Rightarrow> u64) \<Rightarrow> json \<Rightarrow> u8 list" where
  "to_msgpack_internal bits JNull = [0xc0]"
| "to_msgpack_internal bits (JBoolean b) = [if b then 0xc3 else 0xc2]"
| "to_msgpack_internal bits (JInteger w) = (if 0 \<le> sint w then msgpack_unsigned w else msgpack_negative w)"
| "to_msgpack_internal bits (JUnsigned w) = msgpack_unsigned w"
| "to_msgpack_internal bits (JFloat neg r) = 0xcb # add_to_vector 8 (bits neg r)"
| "to_msgpack_internal bits (JString s) = msgpack_str_head (length s) @ bytes_of s"
| "to_msgpack_internal bits (JArray a) =
     msgpack_array_head (length a) @ concat (map (to_msgpack_internal bits) a)"
| "to_msgpack_internal bits (JObject m) =
     msgpack_map_head (length m) @
     concat (map (\<lambda>kx. to_msgpack_internal bits (JString (fst kx)) @ to_msgpack_internal bits (snd kx)) m)"
| "to_msgpack_internal bits JDiscarded = []"

definition to_msgpack :: "(bool \<Rightarrow> rat \<Rightarrow> u64) \<Rightarrow> json \<Rightarrow> u8 list" where
  "to_msgpack bits j = to_msgpack_internal bits j"

section \<open>Reading\<close>

definition msgpack_switch ::
  "u8 list \<Rightarrow> (nat \<Rightarrow> json \<Rightarrow> nat \<Rightarrow> read_result) \<Rightarrow> (nat \<Rightarrow> json \<Rightarrow> nat \<Rightarrow> read_result) \<Rightarrow> nat \<Rightarrow> u8 \<Rightarrow> read_result" where
  "msgpack_switch v pe pm i b =
       (if b \<le> 0xbf then
          (if b \<le> 0x7f then Some (Ok (JUnsigned (ucast b), i + 1))
           else if b \<le> 0x8f then pm (unat (b AND 0x0f)) (JObject []) (i + 1)
           else if b \<le> 0x9f then pe (unat (b AND 0x0f)) (JArray []) (i + 1)
           else Some (read_string v (unat (b AND 0x1f)) (i + 1)))
        else if 0xe0 \<le> b then Some (Ok (JInteger (scast b), i + 1))
        else if b = 0xc0 then Some (Ok (JNull, i + 1))
        else if b = 0xc2 then Some (Ok (JBoolean False, i + 1))
        else if b = 0xc3 then Some (Ok (JBoolean True, i + 1))
        else if b = 0xca then Some (read_ieee 4 8 23 v i)
        else if b = 0xcb then Some (read_ieee 8 11 52 v i)
        else if b = 0xcc then read_unsigned 1 v i
        else if b = 0xcd then read_unsigned 2 v i
        else if b = 0xce then read_unsigned 4 v i
        else if b = 0xcf then read_unsigned 8 v i
        else if b = 0xd0 then read_signed 1 v i
        else if b = 0xd1 then read_signed 2 v i
        else if b = 0xd2 then read_signed 4 v i
        else if b = 0xd3 then read_signed 8 v i
        else if b = 0xd9 then read_sized_string 1 v i
        else if b = 0xda then read_sized_string 2 v i
        else if b = 0xdb then read_sized_string 4 v i
        else if b = 0xdc then read_sized 2 v pe (JArray []) i
        else if b = 0xdd then read_sized 4 v pe (JArray []) i
        else if b = 0xde then read_sized 2 v pm (JObject []) i
        else if b = 0xdf then read_sized 4 v pm (JObject []) i
        else Some (Throw (''error parsing a msgpack @ '' @ dec_nat i @ '': '' @ dec_nat (unat b))))"

definition msgpack_step ::
  "u8 list \<Rightarrow> (nat \<Rightarrow> json \<Rightarrow> nat \<Rightarrow> read_result) \<Rightarrow> (nat \<Rightarrow> json \<Rightarrow> nat \<Rightarrow> read_result) \<Rightarrow> nat \<Rightarrow> read_result" where
  "msgpack_step v pe pm i = after (check_length (length v) 1 i) (\<lambda>_. msgpack_switch v pe pm i (v ! i))"

fun msgpack_value :: "nat \<Rightarrow> u8 list \<Rightarrow> nat \<Rightarrow> read_result"
and msgpack_elements :: "nat \<Rightarrow> u8 list \<Rightarrow> nat \<Rightarrow> json \<Rightarrow> nat \<Rightarrow> read_result"
and msgpack_members :: "nat \<Rightarrow> u8 list \<Rightarrow> nat \<Rightarrow> json \<Rightarrow> nat \<Rightarrow> read_result"
where
  "msgpack_value 0 v i = None"
| "msgpack_value (Suc n) v i = msgpack_step v (msgpack_elements n v) (msgpack_members n v) i"
| "msgpack_elements 0 v len result i = None"
| "msgpack_elements (Suc n) v len result i =
     read_elements (msgpack_value n v) (msgpack_elements n v) len result i"
| "msgpack_members 0 v len result i = None"
| "msgpack_members (Suc n) v len result i =
     read_members (msgpack_value n v) (msgpack_members n v) len result i"

definition from_msgpack :: "u8 list \<Rightarrow> json outcome option" where
  "from_msgpack v = pbind (msgpack_value (2 * length v + 3) v 0) (\<lambda>(j, i). Some (Ok j))"

section \<open>Lemmas\<close>

subsection \<open>Termination\<close>

lemma msgpack_step_moves:
  assumes "goes_on pe" and "goes_on pm"
  shows "moves (length v) (msgpack_step v pe pm)"
proof -
  have "onward (length v) i (msgpack_step v pe pm i)" for i
    unfolding msgpack_step_def msgpack_switch_def by (intro onward_intros onward_loop [OF assms(1)] onward_loop [OF assms(2)] assms)
  then show ?thesis by (simp add: moves_def onward_def)
qed

lemma msgpack_progress:
  "moves (length v) (msgpack_value n v) \<and> goes_on (msgpack_elements n v) \<and> goes_on (msgpack_members n v)"
proof (induction n)
  case 0
  then show ?case by (simp add: moves_def goes_on_def)
next
  case (Suc n)
  have "msgpack_value (Suc n) v = msgpack_step v (msgpack_elements n v) (msgpack_members n v)"
    "msgpack_elements (Suc n) v = read_elements (msgpack_value n v) (msgpack_elements n v)"
    "msgpack_members (Suc n) v = read_members (msgpack_value n v) (msgpack_members n v)"
    by (intro ext; simp)+
  with Suc show ?case
    using msgpack_step_moves elements_goes_on [of "length v"] members_goes_on [of "length v"] by simp
qed

lemma msgpack_step_returns:
  assumes "returns_behind (length v) i pe" and "returns_behind (length v) i pm"
  shows "msgpack_step v pe pm i \<noteq> None"
proof -
  have "returns (msgpack_step v pe pm i)"
    unfolding msgpack_step_def msgpack_switch_def by (intro returns_intros returns_loop [OF assms(1)] returns_loop [OF assms(2)] assms)
  then show ?thesis by (simp add: returns_def)
qed

lemma msgpack_enough:
  "(\<forall>i. 2 * (length v - i) + 1 \<le> n \<longrightarrow> msgpack_value n v i \<noteq> None) \<and>
   (\<forall>k r i. 2 * (length v - i) + 2 \<le> n \<longrightarrow> msgpack_elements n v k r i \<noteq> None) \<and>
   (\<forall>k r i. 2 * (length v - i) + 2 \<le> n \<longrightarrow> msgpack_members n v k r i \<noteq> None)"
proof (induction n)
  case (Suc n)
  note move = msgpack_progress [THEN conjunct1]
  have behind: "returns_behind (length v) i (msgpack_elements n v)" "returns_behind (length v) i (msgpack_members n v)"
    if "2 * (length v - i) + 1 \<le> Suc n" for i
    using Suc that by (auto simp: returns_behind_def)
  have item: "msgpack_value n v i \<noteq> None" if "2 * (length v - i) + 2 \<le> Suc n" for i
    using Suc that by simp
  have "msgpack_value (Suc n) v i \<noteq> None" if "2 * (length v - i) + 1 \<le> Suc n" for i
    unfolding msgpack_value.simps(2) by (rule msgpack_step_returns [OF behind [OF that]])
  moreover have "msgpack_elements (Suc n) v k r i \<noteq> None" if "2 * (length v - i) + 2 \<le> Suc n" for k r i
    unfolding msgpack_elements.simps(2) using that
    by (intro elements_return [OF item move] behind) simp_all
  moreover have "msgpack_members (Suc n) v k r i \<noteq> None" if "2 * (length v - i) + 2 \<le> Suc n" for k r i
    unfolding msgpack_members.simps(2) using that
    by (intro members_return [OF item move] item behind) simp_all
  ultimately show ?case by blast
qed simp

lemma msgpack_extends:
  "(\<forall>i. extends (msgpack_value n v i) (msgpack_value (n + d) v i)) \<and>
   (\<forall>k r i. extends (msgpack_elements n v k r i) (msgpack_elements (n + d) v k r i)) \<and>
   (\<forall>k r i. extends (msgpack_members n v k r i) (msgpack_members (n + d) v k r i))"
proof (induction n)
  case 0
  then show ?case by (simp add: extends_def)
next
  case (Suc n)
  then have V: "extends (msgpack_value n v i) (msgpack_value (n + d) v i)"
    and E: "extends (msgpack_elements n v k r i) (msgpack_elements (n + d) v k r i)"
    and M: "extends (msgpack_members n v k r i) (msgpack_members (n + d) v k r i)" for k r i by auto
  have "extends (msgpack_value (Suc n) v i) (msgpack_value (Suc n + d) v i)" for i
    unfolding add_Suc msgpack_value.simps(2) msgpack_step_def msgpack_switch_def
    by (intro extends_intros extends_loops E M) (rule extends_refl)+
  moreover have "extends (msgpack_elements (Suc n) v k r i) (msgpack_elements (Suc n + d) v k r i)" for k r i
    unfolding add_Suc msgpack_elements.simps(2) by (rule extends_loops(1) [OF V E])
  moreover have "extends (msgpack_members (Suc n) v k r i) (msgpack_members (Suc n + d) v k r i)" for k r i
    unfolding add_Suc msgpack_members.simps(2) by (rule extends_loops(2) [OF V M])
  ultimately show ?case by blast
qed

lemma msgpack_more:
  "msgpack_value n v i = Some x \<Longrightarrow> n \<le> n' \<Longrightarrow> msgpack_value n' v i = Some x"
  "msgpack_elements n v k r i = Some x \<Longrightarrow> n \<le> n' \<Longrightarrow> msgpack_elements n' v k r i = Some x"
  "msgpack_members n v k r i = Some x \<Longrightarrow> n \<le> n' \<Longrightarrow> msgpack_members n' v k r i = Some x"
  using msgpack_extends [of n v "n' - n"] by (auto simp: extends_def)

subsection \<open>The contract\<close>

text \<open>The first byte of an item with its length inside.\<close>

lemma short_heads:
  "N < 32 \<Longrightarrow> (0xa0 OR word_of_nat N :: u8) \<le> 0xbf \<and> \<not> (0xa0 OR word_of_nat N :: u8) \<le> 0x9f \<and>
     unat ((0xa0 OR word_of_nat N :: u8) AND 0x1f) = N"
  "N < 16 \<Longrightarrow> (0x90 OR word_of_nat N :: u8) \<le> 0x9f \<and> \<not> (0x90 OR word_of_nat N :: u8) \<le> 0x8f \<and>
     unat ((0x90 OR word_of_nat N :: u8) AND 0x0f) = N"
  "N < 16 \<Longrightarrow> (0x80 OR word_of_nat N :: u8) \<le> 0x8f \<and> \<not> (0x80 OR word_of_nat N :: u8) \<le> 0x7f \<and>
     unat ((0x80 OR word_of_nat N :: u8) AND 0x0f) = N"
proof -
  have "list_all (\<lambda>N. (0xa0 OR word_of_nat N :: u8) \<le> 0xbf \<and> \<not> (0xa0 OR word_of_nat N :: u8) \<le> 0x9f \<and>
     unat ((0xa0 OR word_of_nat N :: u8) AND 0x1f) = N) [0..<32]" by code_simp
  then show "N < 32 \<Longrightarrow> (0xa0 OR word_of_nat N :: u8) \<le> 0xbf \<and> \<not> (0xa0 OR word_of_nat N :: u8) \<le> 0x9f \<and>
     unat ((0xa0 OR word_of_nat N :: u8) AND 0x1f) = N" by (simp add: list_all_iff)
  have "list_all (\<lambda>N. (0x90 OR word_of_nat N :: u8) \<le> 0x9f \<and> \<not> (0x90 OR word_of_nat N :: u8) \<le> 0x8f \<and>
     unat ((0x90 OR word_of_nat N :: u8) AND 0x0f) = N) [0..<16]" by code_simp
  then show "N < 16 \<Longrightarrow> (0x90 OR word_of_nat N :: u8) \<le> 0x9f \<and> \<not> (0x90 OR word_of_nat N :: u8) \<le> 0x8f \<and>
     unat ((0x90 OR word_of_nat N :: u8) AND 0x0f) = N" by (simp add: list_all_iff)
  have "list_all (\<lambda>N. (0x80 OR word_of_nat N :: u8) \<le> 0x8f \<and> \<not> (0x80 OR word_of_nat N :: u8) \<le> 0x7f \<and>
     unat ((0x80 OR word_of_nat N :: u8) AND 0x0f) = N) [0..<16]" by code_simp
  then show "N < 16 \<Longrightarrow> (0x80 OR word_of_nat N :: u8) \<le> 0x8f \<and> \<not> (0x80 OR word_of_nat N :: u8) \<le> 0x7f \<and>
     unat ((0x80 OR word_of_nat N :: u8) AND 0x0f) = N" by (simp add: list_all_iff)
qed

lemma msgpack_step_at:
  "length (p @ b # t) < 2 ^ 63 \<Longrightarrow> msgpack_step (p @ b # t) pe pm (length p) = msgpack_switch (p @ b # t) pe pm (length p) b"
  by (simp add: msgpack_step_def check_length_passes)

lemmas msgpack_written =
  read_written_unsigned read_written_signed read_written_sized_string read_written_sized read_ieee_written

lemma msgpack_unsigned_reads:
  assumes "length (p @ msgpack_unsigned w @ s) < 2 ^ 63"
  shows "msgpack_step (p @ msgpack_unsigned w @ s) pe pm (length p) =
    Some (Ok (JUnsigned w, length p + length (msgpack_unsigned w)))"
proof -
  consider "w < 128" | "\<not> w < 128" "w \<le> 0xFF" | "\<not> w \<le> 0xFF" "w \<le> 0xFFFF" | "\<not> w \<le> 0xFFFF" "w \<le> 0xFFFFFFFF"
    | "\<not> w \<le> 0xFFFFFFFF" by blast
  then show ?thesis
  proof cases
    case 1
    then have "unat w < 128" by (simp add: word_less_nat_alt)
    then have "(ucast w :: u8) \<le> 0xbf" "(ucast w :: u8) \<le> 0x7f" "(ucast (ucast w :: u8) :: u64) = w"
      using ucast_small [of w] ucast_back [of w] by (simp_all add: word_le_nat_alt)
    then show ?thesis using 1 assms msgpack_step_at [of p "ucast w" s]
      by (simp add: msgpack_unsigned_def add_one_byte [simplified] msgpack_switch_def)
  qed (use assms unsigned_less [of w, where ?'a = nat] in \<open>simp_all add: msgpack_unsigned_def msgpack_step_at msgpack_switch_def msgpack_written
      word_le_nat_alt word_less_nat_alt\<close>)
qed

lemma msgpack_negative_reads:
  assumes "length (p @ msgpack_negative w @ s) < 2 ^ 63" and "sint w < 0"
  shows "msgpack_step (p @ msgpack_negative w @ s) pe pm (length p) =
    Some (Ok (JInteger w, length p + length (msgpack_negative w)))"
proof -
  have lower: "- (2 ^ 63) \<le> sint w" using sint_ge [of w] by simp
  consider "- 32 \<le> sint w" | "\<not> - 32 \<le> sint w" "- 128 \<le> sint w" | "\<not> - 128 \<le> sint w" "- 32768 \<le> sint w"
    | "\<not> - 32768 \<le> sint w" "- 2147483648 \<le> sint w" | "\<not> - 2147483648 \<le> sint w" by blast
  then show ?thesis
  proof cases
    case 1
    have "list_all (\<lambda>i. 0xe0 \<le> (ucast (word_of_int i :: u64) :: u8) \<and>
        scast (ucast (word_of_int i :: u64) :: u8) = (word_of_int i :: u64)) [-32..-1]" by code_simp
    moreover have "sint w \<in> set [-32..-1]" using 1 assms(2) by simp
    ultimately have "0xe0 \<le> (ucast (word_of_int (sint w) :: u64) :: u8) \<and>
        scast (ucast (word_of_int (sint w) :: u64) :: u8) = (word_of_int (sint w) :: u64)"
      unfolding list_all_iff by (rule bspec)
    then have b: "0xe0 \<le> (ucast w :: u8)" "scast (ucast w :: u8) = w" by simp_all
    then have "\<not> (ucast w :: u8) \<le> 0xbf" by (simp add: word_le_nat_alt)
    then show ?thesis using 1 b assms msgpack_step_at [of p "ucast w" s]
      by (simp add: msgpack_negative_def add_one_byte [simplified] msgpack_switch_def)
  qed (use assms lower in \<open>simp_all add: msgpack_negative_def msgpack_step_at msgpack_switch_def msgpack_written\<close>)
qed

lemma msgpack_string_reads:
  assumes "length str < 2 ^ 32" and "length (p @ (msgpack_str_head (length str) @ bytes_of str) @ s) < 2 ^ 63"
  shows "msgpack_step (p @ (msgpack_str_head (length str) @ bytes_of str) @ s) pe pm (length p) =
    Some (Ok (JString str, length p + length (msgpack_str_head (length str) @ bytes_of str)))"
proof -
  consider "length str < 32" | "31 < length str" "length str \<le> 255" | "255 < length str" "length str \<le> 65535"
    | "65535 < length str" by linarith
  then show ?thesis
  proof cases
    case 1
    let ?b = "0xa0 OR word_of_nat (length str) :: u8"
    have "\<not> ?b \<le> 0x8f" "\<not> ?b \<le> 0x7f" using short_heads(1) [OF 1] by (simp_all add: word_le_nat_alt)
    then show ?thesis
      using 1 assms short_heads(1) [OF 1] msgpack_step_at [of p ?b "bytes_of str @ s"]
        read_written_string [of "p @ [?b]" str s]
      by (simp add: msgpack_str_head_def msgpack_switch_def)
  qed (use assms in \<open>simp_all add: msgpack_str_head_def msgpack_step_at msgpack_switch_def msgpack_written add.assoc\<close>)
qed

lemma msgpack_array_reads:
  assumes "N < 2 ^ 32" and "length (p @ msgpack_array_head N @ s) < 2 ^ 63"
  shows "msgpack_step (p @ msgpack_array_head N @ s) pe pm (length p) =
    pe N (JArray []) (length p + length (msgpack_array_head N))"
proof -
  consider "N < 16" | "15 < N" "N \<le> 0xffff" | "0xffff < N" by linarith
  then show ?thesis
  proof cases
    case 1
    let ?b = "0x90 OR word_of_nat N :: u8"
    have "?b \<le> 0xbf" "\<not> ?b \<le> 0x7f" using short_heads(2) [OF 1] by (simp_all add: word_le_nat_alt)
    then show ?thesis
      using 1 assms short_heads(2) [OF 1] msgpack_step_at [of p ?b s]
      by (simp add: msgpack_array_head_def msgpack_switch_def)
  qed (use assms in \<open>simp_all add: msgpack_array_head_def msgpack_step_at msgpack_switch_def msgpack_written\<close>)
qed

lemma msgpack_map_reads:
  assumes "N < 2 ^ 32" and "length (p @ msgpack_map_head N @ s) < 2 ^ 63"
  shows "msgpack_step (p @ msgpack_map_head N @ s) pe pm (length p) =
    pm N (JObject []) (length p + length (msgpack_map_head N))"
proof -
  consider "N < 16" | "15 < N" "N \<le> 65535" | "65535 < N" by linarith
  then show ?thesis
  proof cases
    case 1
    let ?b = "0x80 OR word_of_nat N :: u8"
    have "?b \<le> 0xbf" using short_heads(3) [OF 1] by (simp add: word_le_nat_alt)
    then show ?thesis
      using 1 assms short_heads(3) [OF 1] msgpack_step_at [of p ?b s]
      by (simp add: msgpack_map_head_def msgpack_switch_def)
  qed (use assms in \<open>simp_all add: msgpack_map_head_def msgpack_step_at msgpack_switch_def msgpack_written\<close>)
qed

lemma msgpack_scalar_reads:
  assumes "is_scalar j" and "binary_ok (2 ^ 32) bits j" and "length (p @ to_msgpack_internal bits j @ s) < 2 ^ 63"
  shows "msgpack_step (p @ to_msgpack_internal bits j @ s) pe pm (length p) =
    Some (Ok (as_read j, length p + length (to_msgpack_internal bits j)))"
proof (cases j)
  case (JInteger w)
  then show ?thesis using assms(3) msgpack_unsigned_reads [of p w s] msgpack_negative_reads [of p w s]
    by (cases "0 \<le> sint w") simp_all
next
  case (JUnsigned w)
  then show ?thesis using assms(3) msgpack_unsigned_reads [of p w s] by simp
next
  case (JString str)
  then show ?thesis using assms(2,3) msgpack_string_reads [of str p s] by simp
next
  case (JFloat neg r)
  then show ?thesis using assms(2,3) unsigned_less [of "bits neg r", where ?'a = nat]
    by (simp add: msgpack_step_at msgpack_switch_def msgpack_written json_of_float_def)
qed (use assms in \<open>auto simp: msgpack_step_at msgpack_switch_def\<close>)

interpretation msgpack: binary_format msgpack_value msgpack_elements msgpack_members "to_msgpack_internal bits" "2 ^ 32" bits for bits
proof
  show "msgpack_elements (Suc n) v = read_elements (msgpack_value n v) (msgpack_elements n v)" for n v
    by (intro ext; simp)
  show "msgpack_members (Suc n) v = read_members (msgpack_value n v) (msgpack_members n v)" for n v
    by (intro ext; simp)
next
  fix j p s assume "is_scalar j" "binary_ok (2 ^ 32) bits j" "length (p @ to_msgpack_internal bits j @ s) < 2 ^ 63"
  from msgpack_scalar_reads [OF this]
  show "\<exists>n. msgpack_value n (p @ to_msgpack_internal bits j @ s) (length p) =
      Some (Ok (as_read j, length p + length (to_msgpack_internal bits j)))"
    by (metis msgpack_value.simps(2))
next
  fix a :: "json list" assume "length a < 2 ^ 32"
  then show "\<exists>h. to_msgpack_internal bits (JArray a) = h @ concat (map (to_msgpack_internal bits) a) \<and>
      (\<forall>n p s. length (p @ h @ s) < 2 ^ 63 \<longrightarrow>
         msgpack_value (Suc n) (p @ h @ s) (length p) =
           msgpack_elements n (p @ h @ s) (length a) (JArray []) (length p + length h))"
    using msgpack_array_reads by (intro exI [of _ "msgpack_array_head (length a)"]) simp
next
  fix m :: "(string \<times> json) list" assume "length m < 2 ^ 32"
  then show "\<exists>h. to_msgpack_internal bits (JObject m) =
        h @ concat (map (\<lambda>(k, x). to_msgpack_internal bits (JString k) @ to_msgpack_internal bits x) m) \<and>
      (\<forall>n p s. length (p @ h @ s) < 2 ^ 63 \<longrightarrow>
         msgpack_value (Suc n) (p @ h @ s) (length p) =
           msgpack_members n (p @ h @ s) (length m) (JObject []) (length p + length h))"
    using msgpack_map_reads by (intro exI [of _ "msgpack_map_head (length m)"]) (simp add: case_prod_unfold)
next
  show "msgpack_value n v i \<noteq> None" if "2 * length v + 1 \<le> n" for v n i
    using that by (intro msgpack_enough [THEN conjunct1, rule_format]) simp
qed (rule msgpack_more; assumption)+

section \<open>Properties\<close>

text \<open>C19: Reading a MessagePack vector that begins with the bytes written for a value gives the value
  back, whatever follows the bytes: from_msgpack inverts to_msgpack on every value whose strings, arrays and
  objects are shorter than 2^32, for every number and float; as in the text format, an integer that is
  not negative comes back as an unsigned one.\<close>
theorem msgpack_roundtrip:
  assumes "binary_ok (2 ^ 32) bits j" and "length (to_msgpack bits j @ s) < 2 ^ 63"
  shows "from_msgpack (to_msgpack bits j @ s) = Some (Ok (as_read j))"
  using msgpack.vector_reads [OF assms(1), of s] assms(2)
  by (simp add: from_msgpack_def to_msgpack_def)

theorem msgpack_roundtrip_witness:
  "from_msgpack (to_msgpack (\<lambda>_ _. 0x3FF8000000000000)
      (JObject [(''b'', JArray [JFloat False (3 / 2), JInteger (- 300), JNull])]) @ [0xc1]) =
    Some (Ok (JObject [(''b'', JArray [JFloat False (3 / 2), JInteger (- 300), JNull])]))"
proof -
  let ?j = "JObject [(''b'', JArray [JFloat False (3 / 2), JInteger (- 300), JNull])]"
  have "binary_ok (2 ^ 32) (\<lambda>_ _. 0x3FF8000000000000) ?j" by (simp add: map_sorted_def ieee_example)
  moreover have "length (to_msgpack (\<lambda>_ _. 0x3FF8000000000000) ?j @ [0xc1]) = 18" by code_simp
  moreover have "as_read ?j = ?j" by code_simp
  ultimately show ?thesis using msgpack_roundtrip [of "\<lambda>_ _. 0x3FF8000000000000" ?j "[0xc1]"]
    by (simp del: to_msgpack_internal.simps binary_ok.simps as_read.simps)
qed

text \<open>Reading MessagePack ends on every vector, with a value or an exception: a length in
  the vector, however large, does not make a loop run on.\<close>
theorem from_msgpack_returns: "\<exists>r. from_msgpack v = Some r"
proof -
  have "msgpack_value (2 * length v + 3) v 0 \<noteq> None"
    using msgpack_enough [of v "2 * length v + 3"] by (simp del: not_None_eq)
  then show ?thesis by (auto simp: from_msgpack_def pbind_def after_def split: outcome.split)
qed

end
