(* ===== verification/Cbor.thy ===== *)
theory Cbor
  imports JsonBinary
begin

text \<open>
  CBOR in \<^verbatim>\<open>include/json.h\<close>: \<^verbatim>\<open>to_cbor_internal\<close> and
  \<^verbatim>\<open>from_cbor_internal\<close>, with its indefinite lengths and half-precision numbers, in the
  manner of the theory of MessagePack. The cases of the switch that hold a number or a short length in
  the byte itself are one condition each.
\<close>

section \<open>Writing\<close>

text \<open>Only called for numbers that are not negative, where signed and unsigned comparison agree.\<close>

definition cbor_unsigned :: "u64 \<Rightarrow> u8 list" where
  "cbor_unsigned w =
     (if w \<le> 0x17 then add_to_vector 1 w
      else if w \<le> 0xff then 0x18 # add_to_vector 1 w
      else if w \<le> 0xffff then 0x19 # add_to_vector 2 w
      else if w \<le> 0xffffffff then 0x1a # add_to_vector 4 w
      else 0x1b # add_to_vector 8 w)"

definition cbor_negative :: "u64 \<Rightarrow> u8 list" where
  "cbor_negative w =
     (let positive_number = - 1 - w in
      if - 24 \<le> sint w then [ucast (0x20 + positive_number)]
      else if positive_number \<le> 0xff then 0x38 # add_to_vector 1 positive_number
      else if positive_number \<le> 0xffff then 0x39 # add_to_vector 2 positive_number
      else if positive_number \<le> 0xffffffff then 0x3a # add_to_vector 4 positive_number
      else 0x3b # add_to_vector 8 positive_number)"

text \<open>The head of a string (\<open>base\<close> 0x60), an array (0x80) or an object (0xa0).\<close>

definition cbor_head :: "u8 \<Rightarrow> nat \<Rightarrow> u8 list" where
  "cbor_head base N =
     (if N \<le> 0x17 then [base + word_of_nat N]
      else if N \<le> 0xff then (base + 0x18) # add_to_vector 1 (word_of_nat N)
      else if N \<le> 0xffff then (base + 0x19) # add_to_vector 2 (word_of_nat N)
      else if N \<le> 0xffffffff then (base + 0x1a) # add_to_vector 4 (word_of_nat N)
      else if N \<le> 0xffffffffffffffff then (base + 0x1b) # add_to_vector 8 (word_of_nat N)
      else [])"

fun to_cbor_internal :: "(bool \<Rightarrow> rat \<Rightarrow> u64) \<Rightarrow> json \<Rightarrow> u8 list" where
  "to_cbor_internal bits JNull = [0xf6]"
| "to_cbor_internal bits (JBoolean b) = [if b then 0xf5 else 0xf4]"
| "to_cbor_internal bits (JInteger w) = (if 0 \<le> sint w then cbor_unsigned w else cbor_negative w)"
| "to_cbor_internal bits (JUnsigned w) = cbor_unsigned w"
| "to_cbor_internal bits (JFloat neg r) = 0xfb # add_to_vector 8 (bits neg r)"
| "to_cbor_internal bits (JString s) = cbor_head 0x60 (length s) @ bytes_of s"
| "to_cbor_internal bits (JArray a) = cbor_head 0x80 (length a) @ concat (map (to_cbor_internal bits) a)"
| "to_cbor_internal bits (JObject m) =
     cbor_head 0xa0 (length m) @
     concat (map (\<lambda>kx. to_cbor_internal bits (JString (fst kx)) @ to_cbor_internal bits (snd kx)) m)"
| "to_cbor_internal bits JDiscarded = []"

definition to_cbor :: "(bool \<Rightarrow> rat \<Rightarrow> u64) \<Rightarrow> json \<Rightarrow> u8 list" where
  "to_cbor bits j = to_cbor_internal bits j"

section \<open>Reading\<close>

definition read_negative :: "nat \<Rightarrow> u8 list \<Rightarrow> nat \<Rightarrow> read_result" where
  "read_negative n v current_idx =
     Some (obind (get_from_vector n v current_idx) (\<lambda>w. Ok (JInteger (- 1 - w), current_idx + 1 + n)))"

text \<open>The decoder of RFC 7049, appendix D; the result is null where the number is not finite.\<close>

definition half_value :: "nat \<Rightarrow> json" where
  "half_value half =
     (let ex = drop_bit 10 half AND 0x1f; mant = half AND 0x3ff; neg = (half AND 0x8000 \<noteq> 0);
          val = (if ex = 0 then Some (ldexp mant (- 24))
                 else if ex \<noteq> 31 then Some (ldexp (mant + 1024) (int ex - 25))
                 else None) in
      case val of None \<Rightarrow> JNull | Some r \<Rightarrow> JFloat neg (if neg then - r else r))"

definition read_half :: "u8 list \<Rightarrow> nat \<Rightarrow> (json \<times> nat) outcome" where
  "read_half v current_idx =
     obind (vector_at v (current_idx + 1)) (\<lambda>h. obind (vector_at v (current_idx + 2)) (\<lambda>l.
       Ok (half_value (push_bit 8 (unat h) + unat l), current_idx + 1 + 2)))"

text \<open>The loops up to the break byte.\<close>

definition until_break :: "u8 list \<Rightarrow> (nat \<Rightarrow> read_result) \<Rightarrow> json \<Rightarrow> nat \<Rightarrow> read_result" where
  "until_break v body result idx =
     after (vector_at v idx) (\<lambda>b. if b \<noteq> 0xff then body idx else Some (Ok (result, idx + 1)))"

definition read_strings_until ::
  "u8 list \<Rightarrow> (nat \<Rightarrow> read_result) \<Rightarrow> (string \<Rightarrow> nat \<Rightarrow> read_result) \<Rightarrow> string \<Rightarrow> nat \<Rightarrow> read_result" where
  "read_strings_until v pv ps result =
     until_break v (\<lambda>idx. pbind (pv idx) (\<lambda>(x, idx). after (json_get_string x) (\<lambda>s. ps (result @ s) idx)))
       (JString result)"

definition read_elements_until ::
  "u8 list \<Rightarrow> (nat \<Rightarrow> read_result) \<Rightarrow> (json \<Rightarrow> nat \<Rightarrow> read_result) \<Rightarrow> json \<Rightarrow> nat \<Rightarrow> read_result" where
  "read_elements_until v pv pe result =
     until_break v (\<lambda>idx. pbind (pv idx) (\<lambda>(x, idx). pe (push_back result x) idx)) result"

definition read_members_until ::
  "u8 list \<Rightarrow> (nat \<Rightarrow> read_result) \<Rightarrow> (json \<Rightarrow> nat \<Rightarrow> read_result) \<Rightarrow> json \<Rightarrow> nat \<Rightarrow> read_result" where
  "read_members_until v pv pm result =
     until_break v (\<lambda>idx. pbind (read_member pv result idx) (\<lambda>(result, idx). pm result idx)) result"

text \<open>
  What is being read: an item, or the rest of a loop with its result so far. The reader takes the
  rest of the input that a case needs from \<open>rd\<close>.
\<close>

datatype cbor_job =
    CItem
  | CElements nat json
  | CMembers nat json
  | CStringsUntil string
  | CElementsUntil json
  | CMembersUntil json

text \<open>The switch, in the parts of the source; each goes on with what follows it.\<close>

definition cbor_integers :: "u8 list \<Rightarrow> nat \<Rightarrow> u8 \<Rightarrow> read_result \<Rightarrow> read_result" where
  "cbor_integers v i b others =
     (if b \<le> 0x17 then Some (Ok (JUnsigned (ucast b), i + 1))
      else if b = 0x18 then read_unsigned 1 v i
      else if b = 0x19 then read_unsigned 2 v i
      else if b = 0x1a then read_unsigned 4 v i
      else if b = 0x1b then read_unsigned 8 v i
      else if 0x20 \<le> b \<and> b \<le> 0x37 then Some (Ok (JInteger (word_of_int (0x20 - 1 - uint b)), i + 1))
      else if b = 0x38 then read_negative 1 v i
      else if b = 0x39 then read_negative 2 v i
      else if b = 0x3a then read_negative 4 v i
      else if b = 0x3b then read_negative 8 v i
      else others)"

definition cbor_strings :: "u8 list \<Rightarrow> (cbor_job \<Rightarrow> nat \<Rightarrow> read_result) \<Rightarrow> nat \<Rightarrow> u8 \<Rightarrow> read_result \<Rightarrow> read_result" where
  "cbor_strings v rd i b others =
     (if 0x60 \<le> b \<and> b \<le> 0x77 then Some (read_string v (unat (b - 0x60)) (i + 1))
      else if b = 0x78 then read_sized_string 1 v i
      else if b = 0x79 then read_sized_string 2 v i
      else if b = 0x7a then read_sized_string 4 v i
      else if b = 0x7b then read_sized_string 8 v i
      else if b = 0x7f then rd (CStringsUntil []) (i + 1)
      else others)"

definition cbor_arrays :: "u8 list \<Rightarrow> (cbor_job \<Rightarrow> nat \<Rightarrow> read_result) \<Rightarrow> nat \<Rightarrow> u8 \<Rightarrow> read_result \<Rightarrow> read_result" where
  "cbor_arrays v rd i b others =
     (if 0x80 \<le> b \<and> b \<le> 0x97 then rd (CElements (unat (b - 0x80)) (JArray [])) (i + 1)
      else if b = 0x98 then read_sized 1 v (\<lambda>k r. rd (CElements k r)) (JArray []) i
      else if b = 0x99 then read_sized 2 v (\<lambda>k r. rd (CElements k r)) (JArray []) i
      else if b = 0x9a then read_sized 4 v (\<lambda>k r. rd (CElements k r)) (JArray []) i
      else if b = 0x9b then read_sized 8 v (\<lambda>k r. rd (CElements k r)) (JArray []) i
      else if b = 0x9f then rd (CElementsUntil (JArray [])) (i + 1)
      else others)"

definition cbor_maps :: "u8 list \<Rightarrow> (cbor_job \<Rightarrow> nat \<Rightarrow> read_result) \<Rightarrow> nat \<Rightarrow> u8 \<Rightarrow> read_result \<Rightarrow> read_result" where
  "cbor_maps v rd i b others =
     (if 0xa0 \<le> b \<and> b \<le> 0xb7 then rd (CMembers (unat (b - 0xa0)) (JObject [])) (i + 1)
      else if b = 0xb8 then read_sized 1 v (\<lambda>k r. rd (CMembers k r)) (JObject []) i
      else if b = 0xb9 then read_sized 2 v (\<lambda>k r. rd (CMembers k r)) (JObject []) i
      else if b = 0xba then read_sized 4 v (\<lambda>k r. rd (CMembers k r)) (JObject []) i
      else if b = 0xbb then read_sized 8 v (\<lambda>k r. rd (CMembers k r)) (JObject []) i
      else if b = 0xbf then rd (CMembersUntil (JObject [])) (i + 1)
      else others)"

definition cbor_others :: "u8 list \<Rightarrow> nat \<Rightarrow> u8 \<Rightarrow> read_result" where
  "cbor_others v i b =
     (if b = 0xf4 then Some (Ok (JBoolean False, i + 1))
      else if b = 0xf5 then Some (Ok (JBoolean True, i + 1))
      else if b = 0xf6 then Some (Ok (JNull, i + 1))
      else if b = 0xf9 then Some (read_half v i)
      else if b = 0xfa then Some (read_ieee 4 8 23 v i)
      else if b = 0xfb then Some (read_ieee 8 11 52 v i)
      else Some (Throw (''error parsing a CBOR @ '' @ dec_nat i @ '': '' @ dec_nat (unat b))))"

definition cbor_switch :: "u8 list \<Rightarrow> (cbor_job \<Rightarrow> nat \<Rightarrow> read_result) \<Rightarrow> nat \<Rightarrow> u8 \<Rightarrow> read_result" where
  "cbor_switch v rd i b =
     cbor_integers v i b (cbor_strings v rd i b (cbor_arrays v rd i b (cbor_maps v rd i b (cbor_others v i b))))"

lemmas cbor_switch_defs = cbor_switch_def cbor_integers_def cbor_strings_def cbor_arrays_def cbor_maps_def cbor_others_def

definition cbor_step :: "u8 list \<Rightarrow> (cbor_job \<Rightarrow> nat \<Rightarrow> read_result) \<Rightarrow> nat \<Rightarrow> read_result" where
  "cbor_step v rd i = after (vector_at v i) (cbor_switch v rd i)"

primrec cbor_run :: "u8 list \<Rightarrow> (cbor_job \<Rightarrow> nat \<Rightarrow> read_result) \<Rightarrow> cbor_job \<Rightarrow> nat \<Rightarrow> read_result" where
  "cbor_run v rd CItem = cbor_step v rd"
| "cbor_run v rd (CElements len r) = read_elements (rd CItem) (\<lambda>k r. rd (CElements k r)) len r"
| "cbor_run v rd (CMembers len r) = read_members (rd CItem) (\<lambda>k r. rd (CMembers k r)) len r"
| "cbor_run v rd (CStringsUntil r) = read_strings_until v (rd CItem) (\<lambda>r. rd (CStringsUntil r)) r"
| "cbor_run v rd (CElementsUntil r) = read_elements_until v (rd CItem) (\<lambda>r. rd (CElementsUntil r)) r"
| "cbor_run v rd (CMembersUntil r) = read_members_until v (rd CItem) (\<lambda>r. rd (CMembersUntil r)) r"

primrec cbor_reader :: "nat \<Rightarrow> u8 list \<Rightarrow> cbor_job \<Rightarrow> nat \<Rightarrow> read_result" where
  "cbor_reader 0 v = (\<lambda>job i. None)"
| "cbor_reader (Suc n) v = cbor_run v (cbor_reader n v)"

definition from_cbor_internal :: "u8 list \<Rightarrow> nat \<Rightarrow> read_result" where
  "from_cbor_internal v = cbor_reader (2 * length v + 3) v CItem"

definition from_cbor :: "u8 list \<Rightarrow> json outcome option" where
  "from_cbor v = pbind (from_cbor_internal v 0) (\<lambda>(j, i). Some (Ok j))"

section \<open>Lemmas\<close>

subsection \<open>Termination\<close>

lemma negative_end: "read_negative n v i = Some (Ok (x, i')) \<Longrightarrow> i < length v \<and> i < i'"
  by (auto simp: read_negative_def obind_eq_Ok dest!: get_from_vector_fits)

lemma half_end: "read_half v i = Ok (x, i') \<Longrightarrow> i < length v \<and> i < i'"
  by (auto simp: read_half_def obind_eq_Ok vector_at_def split: if_splits)

text \<open>A reader takes at least one byte for an item, and a loop goes on.\<close>

definition advances :: "nat \<Rightarrow> (cbor_job \<Rightarrow> nat \<Rightarrow> read_result) \<Rightarrow> bool" where
  "advances sz rd \<longleftrightarrow>
     moves sz (rd CItem) \<and> (\<forall>job i x i'. job \<noteq> CItem \<longrightarrow> rd job i = Some (Ok (x, i')) \<longrightarrow> i \<le> i')"

lemma advances_item: "advances sz rd \<Longrightarrow> moves sz (rd CItem)"
  by (simp add: advances_def)

lemma advances_loop: "advances sz rd \<Longrightarrow> job \<noteq> CItem \<Longrightarrow> rd job i = Some (Ok (x, i')) \<Longrightarrow> i \<le> i'"
  by (simp add: advances_def)

lemma advances_goes_on:
  assumes "advances sz rd"
  shows "goes_on (\<lambda>k r. rd (CElements k r))" "goes_on (\<lambda>k r. rd (CMembers k r))"
  using advances_loop [OF assms] by (auto simp: goes_on_def)

lemma cbor_onward_items:
  "onward (length v) i (read_negative n v i)" "onward (length v) i (Some (read_half v i))"
  by (auto simp: onward_def dest: negative_end half_end)

lemma cbor_onward_loop:
  "advances sz rd \<Longrightarrow> job \<noteq> CItem \<Longrightarrow> i < length v \<Longrightarrow> onward (length v) i (rd job (i + 1))"
  by (auto simp: onward_def dest: advances_loop)

lemma cbor_step_moves:
  assumes "advances (length v) rd"
  shows "moves (length v) (cbor_step v rd)"
proof -
  have "onward (length v) i (cbor_step v rd i)" for i
    unfolding cbor_step_def cbor_switch_defs
    by (intro onward_intros cbor_onward_items cbor_onward_loop [OF assms] advances_goes_on [OF assms]) simp_all
  then show ?thesis by (simp add: moves_def onward_def)
qed

lemma until_break_end:
  assumes "until_break v (\<lambda>idx. pbind (pv idx) (\<lambda>(x, idx). k x idx)) r i = Some (Ok (y, i'))"
    and item: "\<And>x i1. pv i = Some (Ok (x, i1)) \<Longrightarrow> i < i1" and rest: "\<And>x i1. k x i1 = Some (Ok (y, i')) \<Longrightarrow> i1 \<le> i'"
  shows "i \<le> i'"
proof -
  consider "i' = i + 1" | x i1 where "pv i = Some (Ok (x, i1))" "k x i1 = Some (Ok (y, i'))"
    using assms(1) by (auto simp: until_break_def parse_steps split: if_splits)
  then show ?thesis by cases (auto intro: order.trans [OF less_imp_le [OF item] rest])
qed

lemma cbor_run_advances:
  assumes "advances (length v) rd"
  shows "advances (length v) (cbor_run v rd)"
proof -
  note item = advances_item [OF assms] and loop = advances_loop [OF assms]
  have "i \<le> i'" if "job \<noteq> CItem" "cbor_run v rd job i = Some (Ok (x, i'))" for job i x i'
  proof (cases job)
    case (CElements len r)
    then show ?thesis
      using that elements_goes_on [OF item advances_goes_on(1) [OF assms]] by (auto dest: goes_onD)
  next
    case (CMembers len r)
    then show ?thesis
      using that members_goes_on [OF item advances_goes_on(2) [OF assms]] by (auto dest: goes_onD)
  next
    case (CStringsUntil r)
    then show ?thesis using that movesD [OF item, of i] 
      by (auto simp: read_strings_until_def parse_steps intro: loop [rotated] elim!: until_break_end)
  next
    case (CElementsUntil r)
    then show ?thesis using that movesD [OF item, of i] 
      by (auto simp: read_elements_until_def intro: loop [rotated] elim!: until_break_end)
  next
    case (CMembersUntil r)
    then show ?thesis using that member_end [OF _ item, of r i] 
      by (auto simp: read_members_until_def intro: loop [rotated] elim!: until_break_end)
  qed (use that in simp)
  then show ?thesis by (simp add: advances_def cbor_step_moves [OF assms])
qed

lemma cbor_progress: "advances (length v) (cbor_reader n v)"
  by (induction n) (simp_all add: cbor_run_advances, simp add: advances_def moves_def)

text \<open>Where the readers return behind a position, so does the case at it.\<close>

definition all_return :: "nat \<Rightarrow> nat \<Rightarrow> (cbor_job \<Rightarrow> nat \<Rightarrow> read_result) \<Rightarrow> bool" where
  "all_return sz i rd \<longleftrightarrow> (i < sz \<longrightarrow> (\<forall>job i'. i < i' \<longrightarrow> rd job i' \<noteq> None))"

lemma all_return_loops:
  "all_return sz i rd \<Longrightarrow> returns_behind sz i (\<lambda>k r. rd (CElements k r))"
  "all_return sz i rd \<Longrightarrow> returns_behind sz i (\<lambda>k r. rd (CMembers k r))"
  by (simp_all add: all_return_def returns_behind_def)

lemma all_returnD: "all_return sz i rd \<Longrightarrow> i < sz \<Longrightarrow> i < i' \<Longrightarrow> rd job i' \<noteq> None"
  by (simp add: all_return_def)

lemma returns_at_next: "all_return sz i rd \<Longrightarrow> i < sz \<Longrightarrow> returns (rd job (i + 1))"
  by (simp add: returns_def all_returnD del: not_None_eq)

lemma negative_returns: "returns (read_negative n v i)"
  by (simp add: returns_def read_negative_def)

lemma cbor_step_returns:
  assumes "all_return (length v) i rd"
  shows "cbor_step v rd i \<noteq> None"
proof -
  have "returns (cbor_step v rd i)"
    unfolding cbor_step_def cbor_switch_defs
    by (intro returns_intros negative_returns returns_at_next [OF assms] all_return_loops [OF assms])
  then show ?thesis by (simp add: returns_def)
qed

lemma until_break_returns:
  assumes "pv i \<noteq> None" and "\<And>x i1. pv i = Some (Ok (x, i1)) \<Longrightarrow> k x i1 \<noteq> None"
  shows "until_break v (\<lambda>idx. pbind (pv idx) (\<lambda>(x, idx). k x idx)) r i \<noteq> None"
  using assms by (auto simp: until_break_def after_eq_None pbind_eq_None simp del: not_None_eq split: if_splits)

lemma cbor_run_returns:
  assumes "advances (length v) rd" and "all_return (length v) i rd" and "job \<noteq> CItem \<Longrightarrow> rd CItem i \<noteq> None"
  shows "cbor_run v rd job i \<noteq> None"
proof -
  note move = advances_item [OF assms(1)] and behind = all_returnD [OF assms(2)]
  have step: "rd job' i1 \<noteq> None" if "rd CItem i = Some (Ok (x, i1))" for x i1 job'
    using behind movesD [OF move that] by blast
  show ?thesis
  proof (cases job)
    case CItem
    then show ?thesis using cbor_step_returns [OF assms(2)] by simp
  next
    case (CElements len r)
    then show ?thesis using assms(3) elements_return [OF _ move all_return_loops(1) [OF assms(2)]] by auto
  next
    case (CMembers len r)
    then show ?thesis using assms(3) members_return [OF _ move behind all_return_loops(2) [OF assms(2)]] by auto
  next
    case (CStringsUntil r)
    show ?thesis unfolding CStringsUntil cbor_run.simps read_strings_until_def using assms(3) step CStringsUntil
      by (intro until_break_returns) (auto simp: after_eq_None simp del: not_None_eq)
  next
    case (CElementsUntil r)
    show ?thesis unfolding CElementsUntil cbor_run.simps read_elements_until_def using assms(3) step CElementsUntil
      by (intro until_break_returns) (auto simp del: not_None_eq)
  next
    case (CMembersUntil r)
    have "rd (CMembersUntil y) i1 \<noteq> None" if "read_member (rd CItem) r i = Some (Ok (y, i1))" for y i1
      using behind member_end [OF that move] by blast
    moreover have "read_member (rd CItem) r i \<noteq> None"
      using CMembersUntil by (intro member_return [OF assms(3) move behind]) simp_all
    ultimately show ?thesis unfolding CMembersUntil cbor_run.simps read_members_until_def
      by (intro until_break_returns) (auto simp del: not_None_eq)
  qed
qed

lemma cbor_enough:
  "2 * (length v - i) + (if job = CItem then 1 else 2) \<le> n \<Longrightarrow> cbor_reader n v job i \<noteq> None"
proof (induction n arbitrary: job i)
  case (Suc n)
  have "all_return (length v) i (cbor_reader n v)"
    unfolding all_return_def
  proof (intro impI allI Suc.IH)
    fix job' i' assume "i < length v" "i < i'"
    then show "2 * (length v - i') + (if job' = CItem then 1 else 2) \<le> n"
      using Suc.prems by (auto split: if_splits)
  qed
  moreover have "job \<noteq> CItem \<Longrightarrow> cbor_reader n v CItem i \<noteq> None" using Suc.prems by (intro Suc.IH) simp
  ultimately show ?case unfolding cbor_reader.simps by (rule cbor_run_returns [OF cbor_progress])
qed (simp split: if_splits)

lemma cbor_extends: "extends (cbor_reader n v job i) (cbor_reader (n + d) v job i)"
proof (induction n arbitrary: job i)
  case (Suc n)
  show ?case
  proof (cases job)
    case CItem
    show ?thesis
      unfolding CItem add_Suc cbor_reader.simps cbor_run.simps cbor_step_def cbor_switch_defs
      by (intro extends_intros extends_loops Suc) (rule extends_refl)+
  qed (auto simp: read_strings_until_def read_elements_until_def read_members_until_def until_break_def
      read_member_def split_beta intro!: extends_loops extends_intros Suc intro: extends_refl)
qed (simp add: extends_def)

lemma cbor_more: "cbor_reader n v job i = Some x \<Longrightarrow> n \<le> n' \<Longrightarrow> cbor_reader n' v job i = Some x"
  using cbor_extends [of n v job i "n' - n"] by (simp add: extends_def)

subsection \<open>The contract\<close>

lemma cbor_step_at: "cbor_step (p @ b # t) rd (length p) = cbor_switch (p @ b # t) rd (length p) b"
  by (simp add: cbor_step_def vector_at_def)

text \<open>The bytes with a number or a length inside.\<close>

lemma cbor_switch_inside:
  "b \<le> 0x17 \<Longrightarrow> cbor_switch v rd i b = Some (Ok (JUnsigned (ucast b), i + 1))"
  "0x20 \<le> b \<Longrightarrow> b \<le> 0x37 \<Longrightarrow> cbor_switch v rd i b = Some (Ok (JInteger (word_of_int (0x20 - 1 - uint b)), i + 1))"
  "0x60 \<le> b \<Longrightarrow> b \<le> 0x77 \<Longrightarrow> cbor_switch v rd i b = Some (read_string v (unat (b - 0x60)) (i + 1))"
  "0x80 \<le> b \<Longrightarrow> b \<le> 0x97 \<Longrightarrow> cbor_switch v rd i b = rd (CElements (unat (b - 0x80)) (JArray [])) (i + 1)"
  "0xa0 \<le> b \<Longrightarrow> b \<le> 0xb7 \<Longrightarrow> cbor_switch v rd i b = rd (CMembers (unat (b - 0xa0)) (JObject [])) (i + 1)"
  by (auto simp: cbor_switch_defs word_le_nat_alt)

lemma cbor_short:
  assumes "N \<le> 0x17" and "base \<in> {0x60, 0x80, 0xa0 :: u8}"
  shows "base \<le> base + word_of_nat N \<and> base + word_of_nat N \<le> base + 0x17 \<and> unat (base + word_of_nat N - base) = N"
proof -
  have "list_all (\<lambda>base :: u8. list_all (\<lambda>N. base \<le> base + word_of_nat N \<and> base + word_of_nat N \<le> base + 0x17 \<and>
      unat (base + word_of_nat N - base) = N) [0..<24]) [0x60, 0x80, 0xa0]" by code_simp
  with assms show ?thesis by (auto simp: list_all_iff)
qed

lemma read_written_negative:
  assumes "n \<in> widths" and "unat w < 256 ^ n"
  shows "read_negative n (p @ b # add_to_vector n w @ s) (length p) = Some (Ok (JInteger (- 1 - w), length p + (n + 1)))"
  using get_small [OF assms, of p b s] by (simp add: read_negative_def)

lemmas cbor_written =
  read_written_unsigned read_written_negative read_written_sized_string read_written_sized read_ieee_written

lemma cbor_unsigned_reads:
  "cbor_step (p @ cbor_unsigned w @ s) rd (length p) = Some (Ok (JUnsigned w, length p + length (cbor_unsigned w)))"
proof -
  consider "w \<le> 0x17" | "\<not> w \<le> 0x17" "w \<le> 0xff" | "\<not> w \<le> 0xff" "w \<le> 0xffff" | "\<not> w \<le> 0xffff" "w \<le> 0xffffffff"
    | "\<not> w \<le> 0xffffffff" by blast
  then show ?thesis
  proof cases
    case 1
    then have "unat w < 256" by (simp add: word_le_nat_alt)
    then have "(ucast w :: u8) \<le> 0x17" "(ucast (ucast w :: u8) :: u64) = w"
      using ucast_small [of w] ucast_back [of w] 1 by (simp_all add: word_le_nat_alt)
    then show ?thesis using 1 cbor_step_at [of p "ucast w" s]
      by (simp add: cbor_unsigned_def add_one_byte [simplified] cbor_switch_inside)
  qed (use unsigned_less [of w, where ?'a = nat] in \<open>simp_all add: cbor_unsigned_def cbor_step_at cbor_switch_defs
      cbor_written word_le_nat_alt\<close>)
qed

lemma cbor_negative_reads:
  assumes "sint w < 0"
  shows "cbor_step (p @ cbor_negative w @ s) rd (length p) =
    Some (Ok (JInteger w, length p + length (cbor_negative w)))"
proof -
  let ?n = "- 1 - w"
  consider "- 24 \<le> sint w" | "\<not> - 24 \<le> sint w" "?n \<le> 0xff" | "\<not> - 24 \<le> sint w" "\<not> ?n \<le> 0xff" "?n \<le> 0xffff"
    | "\<not> - 24 \<le> sint w" "\<not> ?n \<le> 0xffff" "?n \<le> 0xffffffff" | "\<not> - 24 \<le> sint w" "\<not> ?n \<le> 0xffffffff" by blast
  then show ?thesis
  proof cases
    case 1
    have "list_all (\<lambda>i. let b = ucast (0x20 + (- 1 - (word_of_int i :: u64))) :: u8 in
        0x20 \<le> b \<and> b \<le> 0x37 \<and> word_of_int (0x20 - 1 - uint b) = (word_of_int i :: u64)) [-24..-1]" by code_simp
    moreover have "sint w \<in> set [-24..-1]" using 1 assms by simp
    ultimately have "let b = ucast (0x20 + (- 1 - (word_of_int (sint w) :: u64))) :: u8 in
        0x20 \<le> b \<and> b \<le> 0x37 \<and> word_of_int (0x20 - 1 - uint b) = (word_of_int (sint w) :: u64)"
      unfolding list_all_iff by (rule bspec)
    then show ?thesis using 1 cbor_step_at [of p "ucast (0x20 + ?n)" s]
      by (simp add: cbor_negative_def Let_def cbor_switch_inside)
  qed (use unsigned_less [of ?n, where ?'a = nat] in \<open>simp_all add: cbor_negative_def Let_def cbor_step_at cbor_switch_defs
      cbor_written word_le_nat_alt\<close>)
qed

lemma cbor_string_reads:
  assumes "length str < 2 ^ 64" and "length (p @ (cbor_head 0x60 (length str) @ bytes_of str) @ s) < 2 ^ 63"
  shows "cbor_step (p @ (cbor_head 0x60 (length str) @ bytes_of str) @ s) rd (length p) =
    Some (Ok (JString str, length p + length (cbor_head 0x60 (length str) @ bytes_of str)))"
proof -
  consider "length str \<le> 0x17" | "0x17 < length str" "length str \<le> 0xff" | "0xff < length str" "length str \<le> 0xffff"
    | "0xffff < length str" "length str \<le> 0xffffffff" | "0xffffffff < length str" by linarith
  then show ?thesis
  proof cases
    case 1
    let ?b = "0x60 + word_of_nat (length str) :: u8"
    have "0x60 \<le> ?b" "?b \<le> 0x77" "unat (?b - 0x60) = length str" using cbor_short [OF 1, of "0x60"] by simp_all
    then show ?thesis
      using 1 assms cbor_step_at [of p ?b "bytes_of str @ s"] read_written_string [of "p @ [?b]" str s]
      by (simp add: cbor_head_def cbor_switch_inside)
  qed (use assms in \<open>simp_all add: cbor_head_def cbor_step_at cbor_switch_defs cbor_written add.assoc\<close>)
qed

lemma cbor_array_reads:
  assumes "N < 2 ^ 64"
  shows "cbor_step (p @ cbor_head 0x80 N @ s) rd (length p) =
    rd (CElements N (JArray [])) (length p + length (cbor_head 0x80 N))"
proof -
  consider "N \<le> 0x17" | "0x17 < N" "N \<le> 0xff" | "0xff < N" "N \<le> 0xffff" | "0xffff < N" "N \<le> 0xffffffff"
    | "0xffffffff < N" by linarith
  then show ?thesis
  proof cases
    case 1
    let ?b = "0x80 + word_of_nat N :: u8"
    have "0x80 \<le> ?b" "?b \<le> 0x97" "unat (?b - 0x80) = N" using cbor_short [OF 1, of "0x80"] by simp_all
    then show ?thesis using 1 cbor_step_at [of p ?b s] by (simp add: cbor_head_def cbor_switch_inside)
  qed (use assms in \<open>simp_all add: cbor_head_def cbor_step_at cbor_switch_defs cbor_written\<close>)
qed

lemma cbor_map_reads:
  assumes "N < 2 ^ 64"
  shows "cbor_step (p @ cbor_head 0xa0 N @ s) rd (length p) =
    rd (CMembers N (JObject [])) (length p + length (cbor_head 0xa0 N))"
proof -
  consider "N \<le> 0x17" | "0x17 < N" "N \<le> 0xff" | "0xff < N" "N \<le> 0xffff" | "0xffff < N" "N \<le> 0xffffffff"
    | "0xffffffff < N" by linarith
  then show ?thesis
  proof cases
    case 1
    let ?b = "0xa0 + word_of_nat N :: u8"
    have "0xa0 \<le> ?b" "?b \<le> 0xb7" "unat (?b - 0xa0) = N" using cbor_short [OF 1, of "0xa0"] by simp_all
    then show ?thesis using 1 cbor_step_at [of p ?b s] by (simp add: cbor_head_def cbor_switch_inside)
  qed (use assms in \<open>simp_all add: cbor_head_def cbor_step_at cbor_switch_defs cbor_written\<close>)
qed

lemma cbor_scalar_reads:
  assumes "is_scalar j" and "binary_ok (2 ^ 64) bits j" and "length (p @ to_cbor_internal bits j @ s) < 2 ^ 63"
  shows "cbor_step (p @ to_cbor_internal bits j @ s) rd (length p) =
    Some (Ok (as_read j, length p + length (to_cbor_internal bits j)))"
proof (cases j)
  case (JInteger w)
  then show ?thesis using cbor_unsigned_reads [of p w s] cbor_negative_reads [of w p s]
    by (cases "0 \<le> sint w") simp_all
next
  case (JUnsigned w)
  then show ?thesis using cbor_unsigned_reads [of p w s] by simp
next
  case (JString str)
  then show ?thesis using assms(2,3) cbor_string_reads [of str p s] by simp
next
  case (JFloat neg r)
  then show ?thesis using assms(2,3) unsigned_less [of "bits neg r", where ?'a = nat]
    by (simp add: cbor_step_at cbor_switch_defs cbor_written json_of_float_def)
qed (use assms in \<open>auto simp: cbor_step_at cbor_switch_defs\<close>)

interpretation cbor: binary_format "\<lambda>n v. cbor_reader n v CItem" "\<lambda>n v k r. cbor_reader n v (CElements k r)"
  "\<lambda>n v k r. cbor_reader n v (CMembers k r)" "to_cbor_internal bits" "2 ^ 64" bits for bits
proof
  fix j p s assume "is_scalar j" "binary_ok (2 ^ 64) bits j" "length (p @ to_cbor_internal bits j @ s) < 2 ^ 63"
  from cbor_scalar_reads [OF this]
  show "\<exists>n. cbor_reader n (p @ to_cbor_internal bits j @ s) CItem (length p) =
      Some (Ok (as_read j, length p + length (to_cbor_internal bits j)))"
    by (metis cbor_reader.simps(2) cbor_run.simps(1))
next
  fix a :: "json list" assume "length a < 2 ^ 64"
  then show "\<exists>h. to_cbor_internal bits (JArray a) = h @ concat (map (to_cbor_internal bits) a) \<and>
      (\<forall>n p s. length (p @ h @ s) < 2 ^ 63 \<longrightarrow>
         cbor_reader (Suc n) (p @ h @ s) CItem (length p) =
           cbor_reader n (p @ h @ s) (CElements (length a) (JArray [])) (length p + length h))"
    using cbor_array_reads by (intro exI [of _ "cbor_head 0x80 (length a)"]) simp
next
  fix m :: "(string \<times> json) list" assume "length m < 2 ^ 64"
  then show "\<exists>h. to_cbor_internal bits (JObject m) =
        h @ concat (map (\<lambda>(k, x). to_cbor_internal bits (JString k) @ to_cbor_internal bits x) m) \<and>
      (\<forall>n p s. length (p @ h @ s) < 2 ^ 63 \<longrightarrow>
         cbor_reader (Suc n) (p @ h @ s) CItem (length p) =
           cbor_reader n (p @ h @ s) (CMembers (length m) (JObject [])) (length p + length h))"
    using cbor_map_reads by (intro exI [of _ "cbor_head 0xa0 (length m)"]) (simp add: case_prod_unfold)
next
  show "cbor_reader n v CItem i \<noteq> None" if "2 * length v + 1 \<le> n" for v n i
    using that by (intro cbor_enough) simp
qed (auto simp: fun_eq_iff intro: cbor_more)

section \<open>Properties\<close>

text \<open>C20: Reading a CBOR vector that begins with the bytes written for a value gives the value back,
  whatever follows the bytes: from_cbor inverts to_cbor on every value, for every number, length and
  float; an integer that is not negative comes back as an unsigned one.\<close>
theorem cbor_roundtrip:
  assumes "binary_ok (2 ^ 64) bits j" and "length (to_cbor bits j @ s) < 2 ^ 63"
  shows "from_cbor (to_cbor bits j @ s) = Some (Ok (as_read j))"
  using cbor.vector_reads [OF assms(1), of s] assms(2)
  by (simp add: from_cbor_def from_cbor_internal_def to_cbor_def)

theorem cbor_roundtrip_witness:
  "from_cbor (to_cbor (\<lambda>_ _. 0x3FF8000000000000)
      (JObject [(''b'', JArray [JFloat False (3 / 2), JInteger (- 300), JNull])]) @ [0xff]) =
    Some (Ok (JObject [(''b'', JArray [JFloat False (3 / 2), JInteger (- 300), JNull])]))"
proof -
  let ?j = "JObject [(''b'', JArray [JFloat False (3 / 2), JInteger (- 300), JNull])]"
  have "binary_ok (2 ^ 64) (\<lambda>_ _. 0x3FF8000000000000) ?j" by (simp add: map_sorted_def ieee_example)
  moreover have "length (to_cbor (\<lambda>_ _. 0x3FF8000000000000) ?j @ [0xff]) = 18" by code_simp
  moreover have "as_read ?j = ?j" by code_simp
  ultimately show ?thesis using cbor_roundtrip [of "\<lambda>_ _. 0x3FF8000000000000" ?j "[0xff]"]
    by (simp del: to_cbor_internal.simps binary_ok.simps as_read.simps)
qed

text \<open>C21: Reading CBOR ends on every vector, with a value or an exception, also in the strings,
  arrays and objects of indefinite length, which have no count.\<close>
theorem from_cbor_returns: "\<exists>r. from_cbor v = Some r"
proof -
  have "from_cbor_internal v 0 \<noteq> None"
    unfolding from_cbor_internal_def by (rule cbor_enough) simp
  then show ?thesis by (auto simp: from_cbor_def pbind_def after_def split: outcome.split)
qed

text \<open>C35: The decoder of half-precision numbers gives, for all 16 bits, what the IEEE format with 5
  bits of exponent and 10 of fraction says: subnormal numbers, both zeros, and null for what is not
  finite.\<close>
theorem half_value_ieee: "half < 2 ^ 16 \<Longrightarrow> half_value half = json_of_float (ieee 5 10 (word_of_nat half))"
proof -
  assume "half < 2 ^ 16"
  then have t: "take_bit 64 half = half" by (simp add: take_bit_nat_eq_self)
  then have u: "unat (word_of_nat half :: u64) = half" using take_bit_eq_mod [of 64 half] by (simp add: unat_of_nat)
  have mant: "unat (take_bit 10 (word_of_nat half :: u64)) = half AND 0x3ff"
    using u take_bit_eq_mask [of 10 half] by (simp add: unsigned_take_bit_eq mask_eq_exp_minus_1)
  have ex: "unat (take_bit 5 (drop_bit 10 (word_of_nat half :: u64))) = drop_bit 10 half AND 0x1f"
    using u take_bit_eq_mask [of 5 "drop_bit 10 half"]
    by (simp add: t unsigned_take_bit_eq unsigned_drop_bit_eq mask_eq_exp_minus_1)
  have sign: "half AND 0x8000 \<noteq> 0 \<longleftrightarrow> bit (word_of_nat half :: u64) 15"
    using and_exp_eq_0_iff_not_bit [of half 15] by (simp add: bit_simps)
  show ?thesis
    by (simp add: half_value_def ieee_def json_of_float_def Let_def mant ex sign [symmetric])
qed

theorem half_value_ieee_witness: "half_value 0xfbff = json_of_float (ieee 5 10 (word_of_nat 0xfbff))"
  by (rule half_value_ieee) simp

end
