(* ===== verification/Params.thy ===== *)
theory Params
  imports Json
begin

text \<open>
  \<^verbatim>\<open>include/Params.h\<close>, \<^verbatim>\<open>src/Params.cpp\<close>: what a request asks for, filled by
  chained setters and completed by the core, and its JSON text, which the page embeds.
  \<^verbatim>\<open>boost::to_lower\<close> is the argument \<open>lower\<close>. The members that the
  constructor leaves uninitialised come from the argument \<open>junk\<close>.
\<close>

record params =
  p_test_mode :: bool
  p_informer_id :: string
  p_informer_id_int :: u64
  p_get :: string
  p_post :: string
  p_capacity :: u32
  p_rating_division :: u32
  p_country :: string
  p_region :: string

definition Params_new :: "params \<Rightarrow> params" where
  "Params_new junk =
     junk\<lparr>p_test_mode := False, p_informer_id := '''', p_get := '''', p_post := '''',
          p_country := '''', p_region := ''''\<rparr>"

definition Params_informer_id :: "(string \<Rightarrow> string) \<Rightarrow> string \<Rightarrow> params \<Rightarrow> params" where
  "Params_informer_id lower informer_id p = p\<lparr>p_informer_id := lower informer_id\<rparr>"

definition Params_informer_id_int :: "u64 \<Rightarrow> params \<Rightarrow> params" where
  "Params_informer_id_int informer_id_int p = p\<lparr>p_informer_id_int := informer_id_int\<rparr>"

definition Params_capacity :: "u32 \<Rightarrow> params \<Rightarrow> params" where
  "Params_capacity capacity p = p\<lparr>p_capacity := capacity\<rparr>"

definition Params_rating_division :: "u32 \<Rightarrow> params \<Rightarrow> params" where
  "Params_rating_division rating_division p = p\<lparr>p_rating_division := rating_division\<rparr>"

definition Params_country :: "string \<Rightarrow> params \<Rightarrow> params" where
  "Params_country country p = p\<lparr>p_country := country\<rparr>"

definition Params_region :: "string \<Rightarrow> params \<Rightarrow> params" where
  "Params_region region p = p\<lparr>p_region := region\<rparr>"

definition Params_test_mode :: "bool \<Rightarrow> params \<Rightarrow> params" where
  "Params_test_mode test_mode p = p\<lparr>p_test_mode := test_mode\<rparr>"

definition Params_get :: "string \<Rightarrow> params \<Rightarrow> params" where
  "Params_get get p = p\<lparr>p_get := get\<rparr>"

definition Params_post :: "string \<Rightarrow> params \<Rightarrow> params" where
  "Params_post post p = p\<lparr>p_post := post\<rparr>"

definition Params_getCountry :: "params \<Rightarrow> string" where
  "Params_getCountry p = p_country p"

definition Params_getRegion :: "params \<Rightarrow> string" where
  "Params_getRegion p = p_region p"

definition Params_getInformerId :: "params \<Rightarrow> string" where
  "Params_getInformerId p = p_informer_id p"

definition Params_isTestMode :: "params \<Rightarrow> bool" where
  "Params_isTestMode p = p_test_mode p"

definition Params_toJson :: "(rat \<Rightarrow> string) \<Rightarrow> params \<Rightarrow> string outcome" where
  "Params_toJson show_double p =
     obind
       (json_assigns JNull
         [(''informer_id'', JString (p_informer_id p)),
          (''informer_id_int'', JInteger (p_informer_id_int p)),
          (''test'', JBoolean (p_test_mode p)),
          (''capacity'', JUnsigned (ucast (p_capacity p))),
          (''rating_division'', JInteger (scast (p_rating_division p))),
          (''country'', JString (p_country p)),
          (''region'', JString (p_region p)),
          (''request'', JString ''initial'')])
       (\<lambda>j. Ok (json_dump show_double (- 1) j))"

section \<open>Lemmas\<close>

lemma escape_keys:
  "escape_string ''capacity'' = ''capacity''" "escape_string ''country'' = ''country''"
  "escape_string ''informer_id'' = ''informer_id''" "escape_string ''informer_id_int'' = ''informer_id_int''"
  "escape_string ''rating_division'' = ''rating_division''" "escape_string ''region'' = ''region''"
  "escape_string ''request'' = ''request''" "escape_string ''test'' = ''test''"
  "escape_string ''initial'' = ''initial''"
  by code_simp+

definition Params_text :: "params \<Rightarrow> string" where
  "Params_text p =
     ''{'' @ json_member ''capacity'' (dec_nat (unat (p_capacity p))) @
     '','' @ json_member ''country'' (json_quoted (p_country p)) @
     '','' @ json_member ''informer_id'' (json_quoted (p_informer_id p)) @
     '','' @ json_member ''informer_id_int'' (dec_int (sint (p_informer_id_int p))) @
     '','' @ json_member ''rating_division'' (dec_int (sint (p_rating_division p))) @
     '','' @ json_member ''region'' (json_quoted (p_region p)) @
     '','' @ json_member ''request'' (json_quoted ''initial'') @
     '','' @ json_member ''test'' (if p_test_mode p then ''true'' else ''false'') @ ''}''"

lemma Params_toJson_text: "Params_toJson sd p = Ok (Params_text p)"
  by (simp add: Params_toJson_def json_assign_def json_dump_def Params_text_def json_member_def
      json_quoted_def escape_keys less_char_def)

section \<open>Properties\<close>

text \<open>The JSON text of the parameters is produced without an exception, its members stand in
  key order, each with the value of its field: numbers in decimal with their sign, strings escaped
  between quotes. The query string and the posted data never appear in it.\<close>
theorem Params_toJson_members:
  "Params_toJson sd p = Ok (Params_text p) \<and>
   Params_toJson sd (Params_get g (Params_post q p)) = Params_toJson sd p"
  by (simp add: Params_toJson_text) (simp add: Params_text_def Params_get_def Params_post_def)

end
