(* ===== verification/Informer.thy ===== *)
theory Informer
  imports Json
begin

text \<open>
  \<^verbatim>\<open>include/Informer.h\<close>, \<^verbatim>\<open>src/Informer.cpp\<close>: an advertising block as it is
  loaded from the local database, its order and its JSON text. A \<^verbatim>\<open>double\<close> is its
  finite value. The members no constructor writes come from the argument \<open>junk\<close>.
\<close>

record informer =
  i_id :: u64
  i_guid :: string
  i_title :: string
  i_account :: string
  i_domain :: string
  i_capacity :: u32
  i_auto_reload :: u32
  i_blinking :: u32
  i_shake :: u32
  i_blinking_reload :: bool
  i_shake_reload :: bool
  i_shake_mouse :: bool
  i_teasersCss :: string
  i_headerHtml :: string
  i_footerHtml :: string
  i_retargeting_capacity :: u32
  i_range_short_term :: rat
  i_range_long_term :: rat
  i_range_context :: rat
  i_range_search :: rat
  i_range_category :: rat
  i_blocked :: bool
  i_nonrelevant :: string
  i_valid :: bool
  i_social_branch :: bool
  i_user_code :: string
  i_html_notification :: bool
  i_plase_branch :: bool
  i_retargeting_branch :: bool
  i_rating_division :: u32
  i_height :: u32
  i_width :: u32
  i_height_banner :: u32
  i_width_banner :: u32

definition Informer_of_id :: "informer \<Rightarrow> u64 \<Rightarrow> informer" where
  "Informer_of_id junk new_id =
     junk\<lparr>i_id := new_id, i_guid := '''', i_title := '''', i_account := '''', i_domain := '''',
          i_teasersCss := '''', i_headerHtml := '''', i_footerHtml := '''', i_nonrelevant := '''',
          i_user_code := ''''\<rparr>"

definition Informer_new ::
  "informer \<Rightarrow> u64 \<Rightarrow> string \<Rightarrow> string \<Rightarrow> string \<Rightarrow> string \<Rightarrow> u32 \<Rightarrow> u32 \<Rightarrow> u32 \<Rightarrow> u32 \<Rightarrow>
   bool \<Rightarrow> bool \<Rightarrow> bool \<Rightarrow> string \<Rightarrow> string \<Rightarrow> string \<Rightarrow> rat \<Rightarrow> rat \<Rightarrow> rat \<Rightarrow> rat \<Rightarrow> rat \<Rightarrow>
   u32 \<Rightarrow> bool \<Rightarrow> bool \<Rightarrow> string \<Rightarrow> bool \<Rightarrow> bool \<Rightarrow> bool \<Rightarrow> u32 \<Rightarrow> informer" where
  "Informer_new junk new_id guid title account domain capacity auto_reload blinking shake
     blinking_reload shake_reload shake_mouse teasersCss headerHtml footerHtml
     range_short_term range_long_term range_context range_search range_category
     retargeting_capacity blocked social_branch user_code html_notification plase_branch
     retargeting_branch rating_division =
     \<lparr>i_id = new_id, i_guid = guid, i_title = title, i_account = account, i_domain = domain,
      i_capacity = capacity, i_auto_reload = auto_reload, i_blinking = blinking, i_shake = shake,
      i_blinking_reload = blinking_reload, i_shake_reload = shake_reload,
      i_shake_mouse = shake_mouse, i_teasersCss = teasersCss, i_headerHtml = headerHtml,
      i_footerHtml = footerHtml, i_retargeting_capacity = retargeting_capacity,
      i_range_short_term = range_short_term, i_range_long_term = range_long_term,
      i_range_context = range_context, i_range_search = range_search,
      i_range_category = range_category, i_blocked = blocked, i_nonrelevant = '''',
      i_valid = i_valid junk, i_social_branch = social_branch, i_user_code = user_code,
      i_html_notification = html_notification, i_plase_branch = plase_branch,
      i_retargeting_branch = retargeting_branch, i_rating_division = rating_division,
      i_height = i_height junk, i_width = i_width junk,
      i_height_banner = i_height_banner junk, i_width_banner = i_width_banner junk\<rparr>"

definition Informer_is_null :: "informer \<Rightarrow> bool" where
  "Informer_is_null blk \<longleftrightarrow> i_id blk = 0"

definition Informer_eq :: "informer \<Rightarrow> informer \<Rightarrow> bool" where
  "Informer_eq this other \<longleftrightarrow> i_id this = i_id other"

definition Informer_less :: "informer \<Rightarrow> informer \<Rightarrow> bool" where
  "Informer_less this other \<longleftrightarrow> sint (i_id this) < sint (i_id other)"

definition Informer_toJson :: "(rat \<Rightarrow> string) \<Rightarrow> informer \<Rightarrow> string outcome" where
  "Informer_toJson show_double blk =
     obind
       (json_assigns JNull
         [(''informer_id_int'', JInteger (i_id blk)),
          (''informer_id'', JString (i_guid blk)),
          (''title'', JString (i_title blk)),
          (''account'', JString (i_account blk)),
          (''domain'', JString (i_domain blk)),
          (''capacity'', JUnsigned (ucast (i_capacity blk))),
          (''auto_reload'', JUnsigned (ucast (i_auto_reload blk))),
          (''blinking'', JUnsigned (ucast (i_blinking blk))),
          (''shake'', JUnsigned (ucast (i_shake blk))),
          (''blinking_reload'', JBoolean (i_blinking_reload blk)),
          (''shake_reload'', JBoolean (i_shake_reload blk)),
          (''shake_mouse'', JBoolean (i_shake_mouse blk)),
          (''headerHtml'', JString (i_headerHtml blk)),
          (''footerHtml'', JString (i_footerHtml blk)),
          (''retargeting_capacity'', JUnsigned (ucast (i_retargeting_capacity blk))),
          (''social_branch'', JBoolean (i_social_branch blk)),
          (''html_notification'', JBoolean (i_html_notification blk)),
          (''place_branch'', JBoolean (i_plase_branch blk)),
          (''retargeting_branch'', JBoolean (i_retargeting_branch blk))])
       (\<lambda>j. Ok (json_dump show_double (- 1) j))"

section \<open>Lemmas\<close>

lemma escape_informer_keys:
  "list_all (\<lambda>k. escape_string k = k)
    [''informer_id_int'', ''informer_id'', ''title'', ''account'', ''domain'', ''capacity'',
     ''auto_reload'', ''blinking'', ''shake'', ''blinking_reload'', ''shake_reload'', ''shake_mouse'',
     ''headerHtml'', ''footerHtml'', ''retargeting_capacity'', ''social_branch'',
     ''html_notification'', ''place_branch'', ''retargeting_branch'']"
  by code_simp

definition json_bool :: "bool \<Rightarrow> string" where
  "json_bool b = (if b then ''true'' else ''false'')"

definition Informer_text :: "informer \<Rightarrow> string" where
  "Informer_text blk =
     ''{'' @ json_member ''account'' (json_quoted (i_account blk)) @
     '','' @ json_member ''auto_reload'' (dec_nat (unat (i_auto_reload blk))) @
     '','' @ json_member ''blinking'' (dec_nat (unat (i_blinking blk))) @
     '','' @ json_member ''blinking_reload'' (json_bool (i_blinking_reload blk)) @
     '','' @ json_member ''capacity'' (dec_nat (unat (i_capacity blk))) @
     '','' @ json_member ''domain'' (json_quoted (i_domain blk)) @
     '','' @ json_member ''footerHtml'' (json_quoted (i_footerHtml blk)) @
     '','' @ json_member ''headerHtml'' (json_quoted (i_headerHtml blk)) @
     '','' @ json_member ''html_notification'' (json_bool (i_html_notification blk)) @
     '','' @ json_member ''informer_id'' (json_quoted (i_guid blk)) @
     '','' @ json_member ''informer_id_int'' (dec_int (sint (i_id blk))) @
     '','' @ json_member ''place_branch'' (json_bool (i_plase_branch blk)) @
     '','' @ json_member ''retargeting_branch'' (json_bool (i_retargeting_branch blk)) @
     '','' @ json_member ''retargeting_capacity'' (dec_nat (unat (i_retargeting_capacity blk))) @
     '','' @ json_member ''shake'' (dec_nat (unat (i_shake blk))) @
     '','' @ json_member ''shake_mouse'' (json_bool (i_shake_mouse blk)) @
     '','' @ json_member ''shake_reload'' (json_bool (i_shake_reload blk)) @
     '','' @ json_member ''social_branch'' (json_bool (i_social_branch blk)) @
     '','' @ json_member ''title'' (json_quoted (i_title blk)) @ ''}''"

lemma Informer_toJson_text: "Informer_toJson sd blk = Ok (Informer_text blk)"
  using escape_informer_keys
  by (simp add: Informer_toJson_def json_assign_def json_dump_def Informer_text_def json_member_def
      json_quoted_def json_bool_def less_char_def)

section \<open>Properties\<close>

text \<open>The JSON text of a block is produced without an exception, with its nineteen members in
  key order; the style sheet and the user code are not among them.\<close>
theorem Informer_toJson_members:
  "Informer_toJson sd blk = Ok (Informer_text blk) \<and>
   Informer_toJson sd (blk\<lparr>i_teasersCss := css, i_user_code := code\<rparr>) = Informer_toJson sd blk"
  by (simp add: Informer_toJson_text) (simp add: Informer_text_def)

end
