(* ===== verification/Config.thy ===== *)
theory Config
  imports Prelude
begin

text \<open>
  \<^verbatim>\<open>include/Config.h\<close>, \<^verbatim>\<open>src/Config.cpp\<close>: the configuration object, one instance
  shared by every thread and only read after start-up, and the global request counters the file
  defines. A \<^verbatim>\<open>float\<close> is its finite value. A field that no constructor writes
  has whatever value the record is given.
\<close>

record config =
  mongo_main_db :: string
  mongo_main_url :: string
  server_ip :: string
  geocity_path :: string
  geocountry_path :: string
  server_socket_path :: string
  server_children :: u32
  dbpath :: string
  cookie_name :: string
  cookie_domain :: string
  cookie_path :: string
  db_dump_path :: string
  instanceId :: u32
  lock_file :: string
  pid_file :: string
  user :: string
  group :: string
  template :: string
  template_error :: string
  swfobject :: string
  time_update :: u32
  mq_path :: string
  informerSqlStr :: string
  range_short_term :: rat
  range_long_term :: rat
  range_context :: rat
  range_search :: rat
  range_category :: rat
  retargeting_percentage :: u32
  logCoreTime :: bool
  logOutPutSize :: bool
  logIP :: bool
  logCountry :: bool
  logRegion :: bool
  logCookie :: bool
  logContext :: bool
  logSearch :: bool
  logInformerId :: bool
  logLocation :: bool
  logMonitor :: bool
  mIsInited :: bool
  mFileName :: string
  cfgFilePath :: string

definition Config_toLog :: "config \<Rightarrow> bool" where
  "Config_toLog cfg \<longleftrightarrow>
     logCoreTime cfg \<or> logIP cfg \<or> logCountry cfg \<or> logRegion cfg \<or> logCookie cfg
     \<or> logContext cfg \<or> logSearch cfg \<or> logInformerId cfg \<or> logLocation cfg"

text \<open>\<^verbatim>\<open>request_processed_\<close> and \<^verbatim>\<open>last_time_request_processed\<close>.\<close>

record counters =
  request_processed :: u64
  last_time_request_processed :: u64

text \<open>The values of the configuration file kept in the repository, with a page template.\<close>

definition sample_config :: "string \<Rightarrow> string \<Rightarrow> config" where
  "sample_config page sql =
     \<lparr>mongo_main_db = ''getmyad_db'', mongo_main_url = ''mongodb://srv-5.yottos.com:27018'',
      server_ip = ''212.113.34.134'', geocity_path = ''/usr/share/GeoIP/GeoLiteCity.dat'',
      geocountry_path = ''/usr/share/GeoIP/GeoIP.dat'',
      server_socket_path = ''/run/worker-informer/sock'', server_children = 10,
      dbpath = '':memory:'', cookie_name = ''yottos_unique_id'', cookie_domain = ''.yottos.com'',
      cookie_path = ''/'', db_dump_path = ''db_dump'', instanceId = 0,
      lock_file = ''/run/worker-informer/lock'', pid_file = ''/run/worker-informer/pid'',
      user = ''www-data'', group = ''www-data'', template = page, template_error = ''<html></html>'',
      swfobject = '''', time_update = 15,
      mq_path = ''test-worker:test-worker@srv-4.yottos.com/test-worker'', informerSqlStr = sql,
      range_short_term = 1 / 2, range_long_term = 1 / 2, range_context = 1 / 2,
      range_search = 1 / 2, range_category = 1 / 2, retargeting_percentage = 50,
      logCoreTime = False, logOutPutSize = False, logIP = False, logCountry = False,
      logRegion = False, logCookie = False, logContext = False, logSearch = False,
      logInformerId = False, logLocation = False, logMonitor = False, mIsInited = True,
      mFileName = ''config.xml'', cfgFilePath = ''./''\<rparr>"

end
