(* ===== verification/Core.thy ===== *)
theory Core
  imports Params Informer Config
begin

text \<open>
  \<^verbatim>\<open>src/Core_DataBase.cpp\<close> and \<^verbatim>\<open>src/Core.cpp\<close>: the request core of one worker
  thread. It looks the requested block up in the local database, renders the page (or the block's
  user code), and after the response writes a log line and deletes the block.

  Parameters of the model: the SQLite calls (\<open>sqlite_api\<close>), \<^verbatim>\<open>boost::format\<close>
  (\<open>bformat\<close>), the printing of a time difference, and the clock readings.
\<close>

section \<open>State\<close>

text \<open>
  The raw pointer \<^verbatim>\<open>informer\<close>: not initialised by any constructor, null, pointing to a
  live object, or to one that was deleted.
\<close>

datatype 'a ptr = Uninit | Null | Live 'a | Dangling

fun deref :: "'a ptr \<Rightarrow> 'a outcome" where
  "deref (Live a) = Ok a"
| "deref Null = Fault NullDeref"
| "deref Dangling = Fault UseAfterFree"
| "deref Uninit = Fault UninitPointer"

text \<open>
  \<open>c_live\<close> counts the block objects this core has allocated and not deleted; \<open>c_clog\<close> is what it
  wrote to \<^verbatim>\<open>std::clog\<close>; a time is \<open>None\<close> while it is \<^verbatim>\<open>not_a_date_time\<close>.
\<close>

record core =
  c_informer :: "informer ptr"
  c_params :: "params option"
  c_retHtml :: string
  c_start :: "int option"
  c_end :: "int option"
  c_live :: nat
  c_clog :: string

text \<open>
  The SQLite calls on the database of the configuration: formatting a command into a buffer of a
  given size, preparing it and fetching its first row, finishing it; the calls that can throw
  \<^verbatim>\<open>SQLiteException\<close> give its text. Then the column accessors of a row.
\<close>

record 'row sqlite_api =
  sql_printf :: "nat \<Rightarrow> string \<Rightarrow> string list \<Rightarrow> string"
  sql_first :: "string \<Rightarrow> string + 'row option"
  sql_free :: "string \<Rightarrow> string option"
  col_int64 :: "'row \<Rightarrow> nat \<Rightarrow> u64"
  col_int :: "'row \<Rightarrow> nat \<Rightarrow> u32"
  col_string :: "'row \<Rightarrow> nat \<Rightarrow> string"
  col_double :: "'row \<Rightarrow> nat \<Rightarrow> rat"
  col_bool :: "'row \<Rightarrow> nat \<Rightarrow> bool"

text \<open>What one thread has at hand: the libraries, the configuration, its printed thread id.\<close>

record 'row env =
  e_sql :: "'row sqlite_api"
  e_cfg :: config
  e_tid :: string
  e_bformat :: "string \<Rightarrow> string list \<Rightarrow> string outcome"
  e_show_double :: "rat \<Rightarrow> string"
  e_show_elapsed :: "int option \<Rightarrow> int option \<Rightarrow> string"
  e_junk :: informer

definition clog :: "string \<Rightarrow> core \<Rightarrow> core" where
  "clog s c = c\<lparr>c_clog := c_clog c @ s\<rparr>"

abbreviation endl :: string where
  "endl \<equiv> [CHR 0x0A]"

section \<open>\<^verbatim>\<open>Core_DataBase\<close>\<close>

definition CMD_SIZE :: nat where
  "CMD_SIZE = 2621440"

definition Informer_of_row :: "'row env \<Rightarrow> 'row \<Rightarrow> informer" where
  "Informer_of_row env row =
    (let q = e_sql env in
     Informer_new (e_junk env) (col_int64 q row 0) (col_string q row 1) (col_string q row 2)
       (col_string q row 3) (col_string q row 4) (col_int q row 5) (col_int q row 6)
       (col_int q row 7) (col_int q row 8) (col_int q row 9 \<noteq> 0) (col_int q row 10 \<noteq> 0)
       (col_int q row 11 \<noteq> 0) (col_string q row 12) (col_string q row 13) (col_string q row 14)
       (col_double q row 15) (col_double q row 16) (col_double q row 17) (col_double q row 18)
       (range_category (e_cfg env)) (col_int q row 19) (col_bool q row 20) (col_bool q row 21)
       (col_string q row 22) (col_bool q row 23) (col_bool q row 24) (col_bool q row 25)
       (col_int q row 26))"

definition getInformer_error :: "'row env \<Rightarrow> string \<Rightarrow> string \<Rightarrow> core \<Rightarrow> core" where
  "getInformer_error env ex cmd c =
     clog (''['' @ e_tid env @ ''] error: getInformer'' @ ex @ '' '' @ endl @ cmd @ endl) c"

definition getInformer_cmd :: "'row env \<Rightarrow> string \<Rightarrow> string" where
  "getInformer_cmd env informer_id =
     sql_printf (e_sql env) CMD_SIZE (c_str (informerSqlStr (e_cfg env))) [c_str informer_id]"

definition getInformer :: "'row env \<Rightarrow> string \<Rightarrow> core \<Rightarrow> bool \<times> core" where
  "getInformer env informer_id c =
    (let c = c\<lparr>c_informer := Null\<rparr>;
         cmd = getInformer_cmd env informer_id in
     case sql_first (e_sql env) cmd of
       Inl ex \<Rightarrow> (False, getInformer_error env ex cmd c)
     | Inr fetched \<Rightarrow>
        (let (ret, c) =
           (case fetched of
              None \<Rightarrow> (False, c)
            | Some row \<Rightarrow>
                (True, c\<lparr>c_informer := Live (Informer_of_row env row), c_live := c_live c + 1\<rparr>)) in
         case sql_free (e_sql env) cmd of
           None \<Rightarrow> (ret, c)
         | Some ex \<Rightarrow> (ret, getInformer_error env ex cmd c)))"

text \<open>\<^verbatim>\<open>if(informer) delete informer;\<close>: the pointer keeps its value.\<close>

definition Core_clear :: "core \<Rightarrow> unit outcome \<times> core" where
  "Core_clear c =
    (case c_informer c of
       Null \<Rightarrow> (Ok (), c)
     | Live _ \<Rightarrow> (Ok (), c\<lparr>c_informer := Dangling, c_live := c_live c - 1\<rparr>)
     | Dangling \<Rightarrow> (Fault UseAfterFree, c)
     | Uninit \<Rightarrow> (Fault UninitPointer, c))"

section \<open>\<^verbatim>\<open>Core\<close>\<close>

definition Core_new :: "string \<Rightarrow> core" where
  "Core_new tid =
     \<lparr>c_informer = Uninit, c_params = None, c_retHtml = '''', c_start = None, c_end = None,
      c_live = 0, c_clog = ''['' @ tid @ '']core start'' @ endl\<rparr>"

definition log_missing :: "params \<Rightarrow> core \<Rightarrow> core" where
  "log_missing prms c =
     clog (''there is no informer id: '' @ Params_getInformerId prms @ endl @
           '' country:'' @ Params_getCountry prms @ '' region:'' @ Params_getRegion prms @
           '' informer id:'' @ p_informer_id prms) c"

definition Core_resultHtml :: "'row env \<Rightarrow> informer ptr \<Rightarrow> params \<Rightarrow> string outcome" where
  "Core_resultHtml env informer prms =
     obind (deref informer) (\<lambda>inf.
     obind (Informer_toJson (e_show_double env) inf) (\<lambda>informer_json.
     obind (Params_toJson (e_show_double env) prms) (\<lambda>params_json.
     obind (e_bformat env (template (e_cfg env)) [informer_json, params_json, i_teasersCss inf])
       (\<lambda>html. Ok (if p_test_mode prms then html @ ''<!--test-->'' else html)))))"

definition Core_Process :: "'row env \<Rightarrow> int \<Rightarrow> int \<Rightarrow> params \<Rightarrow> core \<Rightarrow> string outcome \<times> core" where
  "Core_Process env t_start t_end prms c =
    (let c = c\<lparr>c_start := Some t_start, c_params := Some prms\<rparr>;
         (found, c) = getInformer env (p_informer_id prms) c in
     if \<not> found then (Ok (template_error (e_cfg env)), log_missing prms c)
     else
       case deref (c_informer c) of
         Throw e \<Rightarrow> (Throw e, c)
       | Fault x \<Rightarrow> (Fault x, c)
       | Ok blk \<Rightarrow>
          (let prms = Params_informer_id_int (i_id blk) prms;
               prms = Params_capacity (i_capacity blk) prms;
               prms = Params_rating_division (i_rating_division blk) prms;
               c = c\<lparr>c_params := Some prms\<rparr> in
           case Core_resultHtml env (c_informer c) prms of
             Ok html \<Rightarrow> (Ok html, c\<lparr>c_retHtml := html, c_end := Some t_end\<rparr>)
           | Throw e \<Rightarrow> (Throw e, c)
           | Fault x \<Rightarrow> (Fault x, c)))"

definition usercode_head :: string where
  "usercode_head =
     ''<html><head><META http-equiv='' @ [CHR 0x22] @ ''Content-Type'' @ [CHR 0x22] @ '' content='' @
     [CHR 0x22] @ ''text/html; charset=utf-8'' @ [CHR 0x22] @ ''><style type='' @ [CHR 0x22] @
     ''text/css'' @ [CHR 0x22] @
     ''>html, body {padding: 0; margin: 0; border: 0;}</style></head><body>''"

definition Core_UserCode :: "'row env \<Rightarrow> int \<Rightarrow> params \<Rightarrow> core \<Rightarrow> string outcome \<times> core" where
  "Core_UserCode env t_start prms c =
    (let c = c\<lparr>c_start := Some t_start, c_params := Some prms\<rparr>;
         (found, c) = getInformer env (p_informer_id prms) c in
     if \<not> found then (Ok (template_error (e_cfg env)), log_missing prms c)
     else
       (obind (deref (c_informer c))
          (\<lambda>blk. Ok (usercode_head @ i_user_code blk @ ''</body></html>'')), c))"

definition Core_log :: "'row env \<Rightarrow> core \<Rightarrow> unit outcome \<times> core" where
  "Core_log env c =
    (let cfg = e_cfg env;
         c = (if Config_toLog cfg then clog (''['' @ e_tid env @ '']'') c else c);
         c = (if logCoreTime cfg
              then clog ('' core time:'' @ e_show_elapsed env (c_start c) (c_end c)) c else c) in
     case c_params c of
       None \<Rightarrow> if logCountry cfg \<or> logRegion cfg then (Fault UninitPointer, c)
               else if logInformerId cfg then (obind (deref (c_informer c)) (\<lambda>_. Ok ()), c)
               else (Ok (), c)
     | Some prms \<Rightarrow>
        (let c = (if logCountry cfg then clog ('' country:'' @ Params_getCountry prms) c else c);
             c = (if logRegion cfg then clog ('' region:'' @ Params_getRegion prms) c else c) in
         if logInformerId cfg then
           (case deref (c_informer c) of
              Ok blk \<Rightarrow> (Ok (), clog ('' informer id:'' @ dec_int (sint (i_id blk))) c)
            | Throw e \<Rightarrow> (Throw e, c)
            | Fault x \<Rightarrow> (Fault x, c))
         else (Ok (), c)))"

definition Core_ProcessClean ::
  "'row env \<Rightarrow> counters \<Rightarrow> core \<Rightarrow> unit outcome \<times> counters \<times> core" where
  "Core_ProcessClean env g c =
    (let g = g\<lparr>request_processed := request_processed g + 1\<rparr> in
     case Core_log env c of
       (Ok _, c) \<Rightarrow> (case Core_clear c of (r, c) \<Rightarrow> (r, g, c))
     | (r, c) \<Rightarrow> (r, g, c))"

section \<open>What the operations leave behind\<close>

named_theorems core_simps \<open>effects of the small steps of the core\<close>

lemma clog_fields [core_simps]:
  "c_informer (clog s c) = c_informer c" "c_live (clog s c) = c_live c"
  "c_params (clog s c) = c_params c" "c_retHtml (clog s c) = c_retHtml c"
  "c_start (clog s c) = c_start c" "c_end (clog s c) = c_end c"
  by (simp_all add: clog_def)

lemma getInformer_error_fields [core_simps]:
  "c_informer (getInformer_error env ex cmd c) = c_informer c"
  "c_live (getInformer_error env ex cmd c) = c_live c"
  "c_params (getInformer_error env ex cmd c) = c_params c"
  by (simp_all add: getInformer_error_def core_simps)

lemma log_missing_fields [core_simps]:
  "c_informer (log_missing prms c) = c_informer c" "c_live (log_missing prms c) = c_live c"
  "c_params (log_missing prms c) = c_params c"
  by (simp_all add: log_missing_def core_simps)

text \<open>The row the lookup finds, if any.\<close>

definition found_row :: "'row env \<Rightarrow> string \<Rightarrow> 'row option" where
  "found_row env informer_id =
     (case sql_first (e_sql env) (getInformer_cmd env informer_id) of
        Inr r \<Rightarrow> r | Inl _ \<Rightarrow> None)"

lemma getInformer_result:
  "fst (getInformer env i c) \<longleftrightarrow> found_row env i \<noteq> None"
  "c_params (snd (getInformer env i c)) = c_params c"
  "found_row env i = Some row \<Longrightarrow>
     c_informer (snd (getInformer env i c)) = Live (Informer_of_row env row) \<and>
     c_live (snd (getInformer env i c)) = c_live c + 1"
  "found_row env i = None \<Longrightarrow>
     c_informer (snd (getInformer env i c)) = Null \<and> c_live (snd (getInformer env i c)) = c_live c"
  by (auto simp: getInformer_def found_row_def Let_def core_simps split: sum.splits option.splits)

text \<open>The page of a block, and what is known of the parameters once it is found.\<close>

definition completed_params :: "informer \<Rightarrow> params \<Rightarrow> params" where
  "completed_params blk prms =
     prms\<lparr>p_informer_id_int := i_id blk, p_capacity := i_capacity blk,
          p_rating_division := i_rating_division blk\<rparr>"

definition page_of :: "'row env \<Rightarrow> informer \<Rightarrow> params \<Rightarrow> string outcome" where
  "page_of env blk prms =
     obind (e_bformat env (template (e_cfg env))
             [Informer_text blk, Params_text (completed_params blk prms), i_teasersCss blk])
       (\<lambda>html. Ok (if p_test_mode prms then html @ ''<!--test-->'' else html))"

lemma resultHtml_page:
  "Core_resultHtml env (Live blk) (completed_params blk prms) = page_of env blk prms"
  by (simp add: Core_resultHtml_def page_of_def Informer_toJson_text Params_toJson_text completed_params_def)

text \<open>No library call of a core may fail with a memory fault of ours.\<close>

definition format_safe :: "'row env \<Rightarrow> bool" where
  "format_safe env \<longleftrightarrow> (\<forall>args x. e_bformat env (template (e_cfg env)) args \<noteq> Fault x)"

lemma Process_missing:
  assumes "found_row env (p_informer_id prms) = None"
  shows "\<exists>c'. Core_Process env t0 t1 prms c = (Ok (template_error (e_cfg env)), c') \<and>
     c_informer c' = Null \<and> c_live c' = c_live c \<and> c_params c' = Some prms"
  using assms getInformer_result [where env = env and i = "p_informer_id prms" and
      c = "c\<lparr>c_start := Some t0, c_params := Some prms\<rparr>"]
  by (simp add: Core_Process_def Let_def split_beta core_simps)

lemma Process_found:
  assumes "found_row env (p_informer_id prms) = Some row"
  defines "blk \<equiv> Informer_of_row env row"
  shows "\<exists>c'. Core_Process env t0 t1 prms c = (page_of env blk prms, c') \<and>
     c_informer c' = Live blk \<and> c_live c' = c_live c + 1 \<and>
     c_params c' = Some (completed_params blk prms)"
proof -
  let ?c = "c\<lparr>c_start := Some t0, c_params := Some prms\<rparr>"
  have c': "c_informer (snd (getInformer env (p_informer_id prms) ?c)) = Live blk"
    "c_live (snd (getInformer env (p_informer_id prms) ?c)) = c_live c + 1"
    "fst (getInformer env (p_informer_id prms) ?c)"
    using getInformer_result [where env = env and i = "p_informer_id prms" and c = ?c] assms by simp_all
  have "Params_rating_division (i_rating_division blk) (Params_capacity (i_capacity blk)
      (Params_informer_id_int (i_id blk) prms)) = completed_params blk prms"
    by (simp add: Params_rating_division_def Params_capacity_def Params_informer_id_int_def
        completed_params_def)
  then show ?thesis
    using c' by (cases "page_of env blk prms")
      (simp_all add: Core_Process_def Let_def split_beta resultHtml_page)
qed

lemma UserCode_missing:
  assumes "found_row env (p_informer_id prms) = None"
  shows "\<exists>c'. Core_UserCode env t0 prms c = (Ok (template_error (e_cfg env)), c') \<and>
     c_informer c' = Null \<and> c_live c' = c_live c \<and> c_params c' = Some prms"
  using assms getInformer_result [where env = env and i = "p_informer_id prms" and
      c = "c\<lparr>c_start := Some t0, c_params := Some prms\<rparr>"]
  by (simp add: Core_UserCode_def Let_def split_beta core_simps)

lemma UserCode_found:
  assumes "found_row env (p_informer_id prms) = Some row"
  shows "\<exists>c'. Core_UserCode env t0 prms c =
       (Ok (usercode_head @ i_user_code (Informer_of_row env row) @ ''</body></html>''), c') \<and>
     c_informer c' = Live (Informer_of_row env row) \<and> c_live c' = c_live c + 1 \<and> c_params c' = Some prms"
  using assms getInformer_result [where env = env and i = "p_informer_id prms" and
      c = "c\<lparr>c_start := Some t0, c_params := Some prms\<rparr>"]
  by (simp add: Core_UserCode_def Let_def split_beta)

lemma log_ok:
  assumes "c_params c \<noteq> None" and "logInformerId (e_cfg env) \<longrightarrow> (\<exists>blk. c_informer c = Live blk)"
  shows "\<exists>c'. Core_log env c = (Ok (), c') \<and> c_informer c' = c_informer c \<and> c_live c' = c_live c"
  using assms by (auto simp: Core_log_def Let_def core_simps)

lemma log_null:
  assumes "c_params c \<noteq> None" and "logInformerId (e_cfg env)" and "c_informer c = Null"
  shows "\<exists>c'. Core_log env c = (Fault NullDeref, c')"
  using assms by (auto simp: Core_log_def Let_def core_simps)

lemma clean_live:
  assumes "c_params c \<noteq> None" and "c_informer c = Live blk"
  shows "\<exists>c'. Core_ProcessClean env g c = (Ok (), g\<lparr>request_processed := request_processed g + 1\<rparr>, c') \<and>
     c_informer c' = Dangling \<and> c_live c' = c_live c - 1"
proof -
  from assms obtain c' where "Core_log env c = (Ok (), c')" "c_informer c' = Live blk" "c_live c' = c_live c"
    using log_ok [of c env] by auto
  then show ?thesis by (simp add: Core_ProcessClean_def Core_clear_def)
qed

lemma clean_null:
  assumes "c_params c \<noteq> None" and "c_informer c = Null" and "\<not> logInformerId (e_cfg env)"
  shows "\<exists>c'. Core_ProcessClean env g c = (Ok (), g\<lparr>request_processed := request_processed g + 1\<rparr>, c') \<and>
     c_informer c' = Null \<and> c_live c' = c_live c"
proof -
  from assms obtain c' where "Core_log env c = (Ok (), c')" "c_informer c' = Null" "c_live c' = c_live c"
    using log_ok [of c env] by auto
  then show ?thesis by (simp add: Core_ProcessClean_def Core_clear_def)
qed

lemma clean_null_logged:
  assumes "c_params c \<noteq> None" and "c_informer c = Null" and "logInformerId (e_cfg env)"
  shows "\<exists>c'. Core_ProcessClean env g c =
     (Fault NullDeref, g\<lparr>request_processed := request_processed g + 1\<rparr>, c')"
proof -
  from assms obtain c' where "Core_log env c = (Fault NullDeref, c')"
    using log_null [of c env] by auto
  then show ?thesis by (simp add: Core_ProcessClean_def)
qed

end
