(* ===== verification/CoreSpec.thy ===== *)
theory CoreSpec
  imports Core "HOL-Library.Sublist"
begin

text \<open>
  What the core promises for one request: the page it returns, the life of the block object it
  allocates, the SQL text it executes. The documented behaviour of the library calls is stated as
  hypotheses (\<open>format_documented\<close>, \<open>printf_documented\<close>); \<open>ref_format\<close>, \<open>ref_printf\<close> and
  \<open>table_env\<close> are concrete functions that satisfy them.
\<close>

section \<open>The SQL request\<close>

abbreviation tab :: string where
  "tab \<equiv> [CHR 0x09]"

abbreviation quote :: string where
  "quote \<equiv> [CHR 0x27]"

text \<open>The file \<^verbatim>\<open>db_dump/requests/getInformer.sql\<close>, around its \<^verbatim>\<open>%s\<close>.\<close>

definition select_list :: string where
  "select_list =
     ''SELECT '' @ tab @ ''inf.id,'' @ endl @
     ''    inf.guid,'' @ endl @
     ''    inf.title,'' @ endl @
     ''    inf.account,'' @ endl @
     ''    inf.domain,'' @ endl @
     tab @ ''inf.capacity,'' @ endl @
     tab @ ''inf.auto_reload,'' @ endl @
     ''    inf.blinking,'' @ endl @
     ''    inf.shake,'' @ endl @
     ''    inf.blinking_reload,'' @ endl @
     ''    inf.shake_reload,'' @ endl @
     ''    inf.shake_mouse,'' @ endl @
     tab @ ''inf.teasersCss,'' @ endl @
     ''    inf.headerHtml,'' @ endl @
     ''    inf.footerHtml,'' @ endl @
     ''    inf.range_short_term,'' @ endl @
     tab @ ''inf.range_long_term,'' @ endl @
     tab @ ''inf.range_context,'' @ endl @
     tab @ ''inf.range_search,'' @ endl @
     tab @ ''inf.retargeting_capacity,'' @ endl @
     ''    inf.valid,'' @ endl @
     ''    inf.social_branch,'' @ endl @
     ''    inf.user_code,'' @ endl @
     ''    inf.html_notification,'' @ endl @
     ''    inf.place_branch,'' @ endl @
     ''    inf.retargeting_branch,'' @ endl @
     ''    inf.rating_division'' @ endl"

definition getInformer_prefix :: string where
  "getInformer_prefix =
     select_list @ ''FROM Informer AS inf INDEXED BY idx_Informer_guid'' @ endl @
     ''WHERE inf.guid='' @ quote"

definition getInformer_suffix :: string where
  "getInformer_suffix = quote @ endl @ ''LIMIT 1;'' @ endl"

definition getInformer_sql :: string where
  "getInformer_sql = getInformer_prefix @ ''%s'' @ getInformer_suffix"

text \<open>
  \<^verbatim>\<open>sqlite3_snprintf\<close> as documented for a format with one \<^verbatim>\<open>%s\<close> and
  no other percent sign: the argument is inserted as it is (only \<^verbatim>\<open>%q\<close> doubles quotes),
  and at most \<open>n - 1\<close> bytes are written.
\<close>

definition printf_documented :: "(nat \<Rightarrow> string \<Rightarrow> string list \<Rightarrow> string) \<Rightarrow> bool" where
  "printf_documented f \<longleftrightarrow>
     (\<forall>n a b x. CHR ''%'' \<notin> set a \<and> CHR ''%'' \<notin> set b \<and> 0 < n \<longrightarrow>
        f n (a @ ''%s'' @ b) [x] = take (n - 1) (a @ x @ b))"

fun subst_s :: "string \<Rightarrow> string \<Rightarrow> string" where
  "subst_s (a # b # s) x = (if a = CHR ''%'' \<and> b = CHR ''s'' then x @ s else a # subst_s (b # s) x)"
| "subst_s s x = s"

definition ref_printf :: "nat \<Rightarrow> string \<Rightarrow> string list \<Rightarrow> string" where
  "ref_printf n f args = take (n - 1) (case args of [] \<Rightarrow> f | x # _ \<Rightarrow> subst_s f x)"

lemma subst_s_app: "CHR ''%'' \<notin> set a \<Longrightarrow> subst_s (a @ ''%s'' @ b) x = a @ x @ b"
proof (induction a)
  case (Cons c a)
  then show ?case by (cases a) auto
qed simp

lemma ref_printf_documented: "printf_documented ref_printf"
  unfolding printf_documented_def ref_printf_def by (simp add: subst_s_app del: append.simps)

text \<open>
  How SQL reads a string literal after its opening quote: a doubled quote stands for one, a single
  one ends it. The result is the value and what follows the literal.
\<close>

fun sql_literal :: "string \<Rightarrow> (string \<times> string) option" where
  "sql_literal [] = None"
| "sql_literal (c # s) =
    (if c = CHR 0x27 then
       (case s of
          [] \<Rightarrow> Some ([], [])
        | d # s' \<Rightarrow>
           (if d = CHR 0x27 then map_option (\<lambda>(v, r). (CHR 0x27 # v, r)) (sql_literal s')
            else Some ([], s)))
     else map_option (\<lambda>(v, r). (c # v, r)) (sql_literal s))"

lemma sql_literal_ends:
  assumes "CHR 0x27 \<notin> set v" and "\<forall>w. rest \<noteq> CHR 0x27 # w"
  shows "sql_literal (v @ CHR 0x27 # rest) = Some (v, rest)"
  using assms by (induction v) (auto split: list.splits)

text \<open>The names the request selects, in order, between \<^verbatim>\<open>SELECT\<close> and the end of the list.\<close>

fun words_of :: "string \<Rightarrow> string \<Rightarrow> string list" where
  "words_of acc [] = (if acc = [] then [] else [acc])"
| "words_of acc (c # s) =
    (if is_alnum c \<or> c = CHR ''_'' \<or> c = CHR ''.'' then words_of (acc @ [c]) s
     else if acc = [] then words_of [] s else acc # words_of [] s)"

definition selected :: "string list" where
  "selected = map (drop 4) (drop 1 (words_of [] select_list))"

lemma selected_names:
  "selected =
     [''id'', ''guid'', ''title'', ''account'', ''domain'', ''capacity'', ''auto_reload'', ''blinking'',
      ''shake'', ''blinking_reload'', ''shake_reload'', ''shake_mouse'', ''teasersCss'', ''headerHtml'',
      ''footerHtml'', ''range_short_term'', ''range_long_term'', ''range_context'', ''range_search'',
      ''retargeting_capacity'', ''valid'', ''social_branch'', ''user_code'', ''html_notification'',
      ''place_branch'', ''retargeting_branch'', ''rating_division'']"
  by code_simp

section \<open>The page template\<close>

text \<open>
  \<^verbatim>\<open>boost::format\<close> on a template made of literal text (its percent signs doubled) and
  directives \<^verbatim>\<open>%1%\<close> to \<^verbatim>\<open>%9%\<close>, fed with as many arguments as the largest
  directive, gives the literals and the arguments in their places.
\<close>

datatype piece = Lit string | Arg nat

fun piece_text :: "piece \<Rightarrow> string" where
  "piece_text (Lit s) = concat (map (\<lambda>c. if c = CHR ''%'' then ''%%'' else [c]) s)"
| "piece_text (Arg n) = ''%'' @ [digit_char n] @ ''%''"

fun piece_value :: "string list \<Rightarrow> piece \<Rightarrow> string" where
  "piece_value args (Lit s) = s"
| "piece_value args (Arg n) = args ! (n - 1)"

definition template_of :: "piece list \<Rightarrow> string" where
  "template_of ps = concat (map piece_text ps)"

definition filled :: "piece list \<Rightarrow> string list \<Rightarrow> string" where
  "filled ps args = concat (map (piece_value args) ps)"

fun directives :: "piece list \<Rightarrow> nat list" where
  "directives [] = []"
| "directives (Lit _ # ps) = directives ps"
| "directives (Arg n # ps) = n # directives ps"

definition takes_args :: "piece list \<Rightarrow> nat \<Rightarrow> bool" where
  "takes_args ps n \<longleftrightarrow> list_all (\<lambda>d. 1 \<le> d \<and> d \<le> 9 \<and> d \<le> n) (directives ps) \<and> (n = 0 \<or> n \<in> set (directives ps))"

definition format_documented :: "(string \<Rightarrow> string list \<Rightarrow> string outcome) \<Rightarrow> bool" where
  "format_documented f \<longleftrightarrow>
     (\<forall>ps args. takes_args ps (length args) \<longrightarrow> f (template_of ps) args = Ok (filled ps args))"

text \<open>A function with this behaviour; it throws on a malformed directive.\<close>

fun ref_format :: "string \<Rightarrow> string list \<Rightarrow> string outcome" where
  "ref_format [] args = Ok []"
| "ref_format (c # s) args =
    (if c \<noteq> CHR ''%'' then obind (ref_format s args) (\<lambda>r. Ok (c # r))
     else case s of
       [] \<Rightarrow> Throw ''boost::bad_format_string''
     | d # s' \<Rightarrow>
        (if d = CHR ''%'' then obind (ref_format s' args) (\<lambda>r. Ok (CHR ''%'' # r))
         else case s' of
           [] \<Rightarrow> Throw ''boost::bad_format_string''
         | e # s'' \<Rightarrow>
            (if e = CHR ''%'' \<and> is_digit d \<and> d \<noteq> CHR ''0'' then
               (if of_char d - 48 \<le> length args
                then obind (ref_format s'' args) (\<lambda>r. Ok (args ! (of_char d - 49) @ r))
                else Throw ''boost::too_few_args'')
             else Throw ''boost::bad_format_string'')))"

lemma ref_format_lit:
  "ref_format (piece_text (Lit s) @ t) args = obind (ref_format t args) (\<lambda>r. Ok (s @ r))"
proof (induction s)
  case Nil
  show ?case by (cases "ref_format t args") simp_all
next
  case (Cons c s)
  then show ?case by (cases "ref_format t args") simp_all
qed

lemma digit_codes:
  "\<forall>n \<in> set [1..<10]. digit_char n \<noteq> CHR ''%'' \<and> digit_char n \<noteq> CHR ''0'' \<and>
     of_char (digit_char n) - (48 :: nat) = n \<and> of_char (digit_char n) - (49 :: nat) = n - 1"
  by code_simp

lemma digit_code:
  assumes "1 \<le> n" "n \<le> 9"
  shows "digit_char n \<noteq> CHR ''%''" "digit_char n \<noteq> CHR ''0''"
    "of_char (digit_char n) - (48 :: nat) = n" "of_char (digit_char n) - (49 :: nat) = n - 1"
  using digit_codes assms by auto

lemma ref_format_arg:
  assumes "1 \<le> n" "n \<le> 9" "n \<le> length args"
  shows "ref_format (piece_text (Arg n) @ t) args = obind (ref_format t args) (\<lambda>r. Ok (args ! (n - 1) @ r))"
  using assms digit_code [OF assms(1,2)] is_digit_digit_char [of n] by simp

lemma ref_format_template:
  "list_all (\<lambda>d. 1 \<le> d \<and> d \<le> 9 \<and> d \<le> length args) (directives ps) \<Longrightarrow>
     ref_format (template_of ps) args = Ok (filled ps args)"
proof (induction ps rule: directives.induct)
  case 1
  show ?case by (simp add: template_of_def filled_def)
next
  case (2 s ps)
  then show ?case
    by (simp add: template_of_def filled_def ref_format_lit del: piece_text.simps ref_format.simps)
next
  case (3 n ps)
  then show ?case
    by (simp add: template_of_def filled_def ref_format_arg del: piece_text.simps ref_format.simps)
qed

lemma ref_format_documented: "format_documented ref_format"
  by (simp add: format_documented_def takes_args_def ref_format_template)

section \<open>A worker on a concrete table\<close>

text \<open>
  An environment whose database is a list of blocks under their guids and answers the request
  formatted for a guid; its formatting functions are the reference ones.
\<close>

definition table_sql :: "string \<Rightarrow> (string \<times> informer) list \<Rightarrow> informer sqlite_api" where
  "table_sql fmt table =
     \<lparr>sql_printf = ref_printf,
      sql_first = (\<lambda>cmd. Inr (map_of (map (\<lambda>(g, b). (ref_printf CMD_SIZE fmt [g], b)) table) cmd)),
      sql_free = (\<lambda>_. None),
      col_int64 = (\<lambda>b _. i_id b),
      col_int = (\<lambda>b k. if k = 5 then i_capacity b else if k = 26 then i_rating_division b else 0),
      col_string = (\<lambda>b k. if k = 1 then i_guid b else if k = 2 then i_title b
                         else if k = 12 then i_teasersCss b else if k = 22 then i_user_code b else ''''),
      col_double = (\<lambda>_ _. 0),
      col_bool = (\<lambda>_ _. False)\<rparr>"

definition table_env :: "config \<Rightarrow> (string \<times> informer) list \<Rightarrow> informer \<Rightarrow> informer env" where
  "table_env cfg table junk =
     \<lparr>e_sql = table_sql (c_str (informerSqlStr cfg)) table, e_cfg = cfg, e_tid = ''1'',
      e_bformat = ref_format, e_show_double = (\<lambda>_. ''''), e_show_elapsed = (\<lambda>_ _. ''''),
      e_junk = junk\<rparr>"

lemma getInformer_sql_shape:
  "CHR ''%'' \<notin> set getInformer_prefix" "CHR ''%'' \<notin> set getInformer_suffix"
  "CHR 0x27 \<notin> set (butlast getInformer_prefix)" "last getInformer_prefix = CHR 0x27"
  "length getInformer_prefix < 1000" "length getInformer_suffix < 1000"
  "CHR 0x00 \<notin> set getInformer_prefix" "CHR 0x00 \<notin> set getInformer_suffix"
  by code_simp+

lemma getInformer_printf:
  assumes "printf_documented f" and "length x < 2 ^ 20"
  shows "f CMD_SIZE (c_str getInformer_sql) [x] = getInformer_prefix @ x @ getInformer_suffix"
proof -
  have "c_str getInformer_sql = getInformer_sql"
    by (rule c_str_ident) (simp add: getInformer_sql_def getInformer_sql_shape)
  moreover have "length (getInformer_prefix @ x @ getInformer_suffix) \<le> CMD_SIZE - 1"
    using getInformer_sql_shape(5,6) assms(2) by (simp add: CMD_SIZE_def)
  ultimately show ?thesis
    using assms(1) getInformer_sql_shape(1,2)
    by (simp add: printf_documented_def getInformer_sql_def CMD_SIZE_def del: append.simps)
qed

definition sample_pieces :: "piece list" where
  "sample_pieces = [Lit ''i='', Arg 1, Lit '';p='', Arg 2, Lit ''<style>'', Arg 3, Lit ''</style>'']"

definition sample_block :: informer where
  "sample_block =
     \<lparr>i_id = 7, i_guid = ''g'', i_title = ''t'', i_account = ''a'', i_domain = ''d'', i_capacity = 3,
      i_auto_reload = 0, i_blinking = 0, i_shake = 0, i_blinking_reload = False,
      i_shake_reload = False, i_shake_mouse = False, i_teasersCss = ''b{}'', i_headerHtml = '''',
      i_footerHtml = '''', i_retargeting_capacity = 0, i_range_short_term = 0, i_range_long_term = 0,
      i_range_context = 0, i_range_search = 0, i_range_category = 0, i_blocked = False,
      i_nonrelevant = '''', i_valid = False, i_social_branch = False, i_user_code = ''<p>u</p>'',
      i_html_notification = False, i_plase_branch = False, i_retargeting_branch = False,
      i_rating_division = 1000, i_height = 0, i_width = 0, i_height_banner = 0, i_width_banner = 0\<rparr>"

definition sample_env :: "informer env" where
  "sample_env =
     table_env (sample_config (template_of sample_pieces) getInformer_sql) [(''g'', sample_block)] sample_block"

definition sample_counters :: counters where
  "sample_counters = \<lparr>request_processed = 0, last_time_request_processed = 0\<rparr>"

definition sample_params :: "string \<Rightarrow> string \<Rightarrow> params" where
  "sample_params i country =
     \<lparr>p_test_mode = False, p_informer_id = i, p_informer_id_int = 0, p_get = '''', p_post = '''',
      p_capacity = 0, p_rating_division = 0, p_country = country, p_region = ''''\<rparr>"

lemma sample_found: "found_row sample_env ''g'' = Some sample_block"
  by (simp add: found_row_def getInformer_cmd_def sample_env_def table_env_def table_sql_def
      sample_config_def c_str_ident)

lemma sample_not_found: "found_row sample_env ''x'' = None"
  using getInformer_printf [OF ref_printf_documented, of "''x''"]
    getInformer_printf [OF ref_printf_documented, of "''g''"]
  by (simp add: found_row_def getInformer_cmd_def sample_env_def table_env_def table_sql_def
      sample_config_def c_str_ident)

lemma sample_cfg:
  "e_bformat sample_env = ref_format" "template (e_cfg sample_env) = template_of sample_pieces"
  "logInformerId (e_cfg sample_env) = False"
  by (simp_all add: sample_env_def table_env_def sample_config_def)

lemma page_filled:
  assumes "format_documented (e_bformat env)" and "template (e_cfg env) = template_of ps"
    and "takes_args ps 3"
  shows "page_of env blk prms =
     Ok (filled ps [Informer_text blk, Params_text (completed_params blk prms), i_teasersCss blk] @
         (if p_test_mode prms then ''<!--test-->'' else ''''))"
proof -
  have "e_bformat env (template (e_cfg env)) args = Ok (filled ps args)" if "length args = 3" for args
    using assms that by (simp add: format_documented_def)
  then show ?thesis by (simp add: page_of_def)
qed

section \<open>Properties\<close>



lemma sample_takes: "takes_args sample_pieces 3"
  by code_simp

lemma sample_printf: "printf_documented (sql_printf (e_sql sample_env))"
  by (simp add: sample_env_def table_env_def table_sql_def ref_printf_documented)

lemma sample_sql: "informerSqlStr (e_cfg sample_env) = getInformer_sql"
  by (simp add: sample_env_def table_env_def sample_config_def)

lemma escape_plain: "extra_space s = 0 \<Longrightarrow> escape_string s = s"
  by (simp add: escape_string_eq concat_plain)

lemma filled_split:
  "Arg n \<in> set ps \<Longrightarrow> \<exists>u v. filled ps args = u @ args ! (n - 1) @ v"
proof -
  assume "Arg n \<in> set ps"
  then obtain ps1 ps2 where "ps = ps1 @ Arg n # ps2" by (meson split_list)
  then have "filled ps args = filled ps1 args @ args ! (n - 1) @ filled ps2 args"
    by (simp add: filled_def)
  then show ?thesis by blast
qed

lemma directives_in: "n \<in> set (directives ps) \<Longrightarrow> Arg n \<in> set ps"
  by (induction ps rule: directives.induct) auto

lemma sublist_fourth: "sublist m (a @ b @ c @ m @ r)"
  by (metis append.assoc sublist_appendI)

lemma sublist_member: "sublist (escape_string s) (json_member k (json_quoted s))"
proof -
  have "json_member k (json_quoted s) = (CHR 0x22 # k @ [CHR 0x22, CHR '':'', CHR 0x22]) @ escape_string s @ [CHR 0x22]"
    by (simp add: json_member_def json_quoted_def)
  then show ?thesis by (metis sublist_appendI)
qed

lemma Params_text_country: "sublist (escape_string (p_country p)) (Params_text p)"
proof -
  have "sublist (json_member ''country'' (json_quoted (p_country p))) (Params_text p)"
    unfolding Params_text_def by (rule sublist_fourth)
  then show ?thesis using sublist_member by (meson sublist_order.order_trans)
qed

text \<open>C23: what a client sends as \<^verbatim>\<open>country\<close> is reflected in the page byte for byte
  whenever it has no quote, backslash or control character: the JSON escaping leaves
  \<^verbatim>\<open><\<close>, \<^verbatim>\<open>>\<close> and \<^verbatim>\<open>/\<close> alone. The template places that JSON inside a
  script element, so a country of \<^verbatim>\<open></script><script>...\<close> leaves the data context.\<close>
theorem page_reflects_country:
  assumes "format_documented (e_bformat env)" and "template (e_cfg env) = template_of ps"
    and "takes_args ps 3" and "Arg 2 \<in> set ps"
    and "found_row env (p_informer_id prms) \<noteq> None" and "extra_space (p_country prms) = 0"
  shows "\<exists>html. fst (Core_Process env t0 t1 prms c) = Ok html \<and> sublist (p_country prms) html"
proof -
  from assms(5) obtain row where row: "found_row env (p_informer_id prms) = Some row" by blast
  let ?blk = "Informer_of_row env row"
  let ?args = "[Informer_text ?blk, Params_text (completed_params ?blk prms), i_teasersCss ?blk]"
  have "sublist (p_country prms) (Params_text (completed_params ?blk prms))"
    using Params_text_country [of "completed_params ?blk prms"] escape_plain [OF assms(6)]
    by (simp add: completed_params_def)
  moreover have "sublist (Params_text (completed_params ?blk prms)) (filled ps ?args)"
    using filled_split [OF assms(4), of ?args] by (auto simp: sublist_def)
  ultimately have "sublist (p_country prms) (filled ps ?args @ t)" for t
    by (meson sublist_append_rightI sublist_order.order_trans)
  with page_filled [OF assms(1-3), of ?blk prms] Process_found [OF row, of t0 t1 c] show ?thesis by auto
qed

theorem page_reflects_country_witness:
  "\<exists>html. fst (Core_Process sample_env 0 1 (sample_params ''g'' ''</script><script>alert(1)//'') (Core_new ''1'')) =
     Ok html \<and> sublist ''</script><script>alert(1)//'' html"
proof -
  have "extra_space ''</script><script>alert(1)//'' = 0" by code_simp
  moreover have "Arg 2 \<in> set sample_pieces" by (simp add: sample_pieces_def)
  ultimately show ?thesis
    using page_reflects_country [of sample_env sample_pieces "sample_params ''g'' ''</script><script>alert(1)//''" 0 1
        "Core_new ''1''"]
    by (simp add: sample_cfg ref_format_documented sample_takes sample_params_def sample_found)
qed



text \<open>The clean-up of a request for an unknown block dereferences the null pointer when the
  configuration asks for informer ids in the log.\<close>
theorem Core_log_null_informer:
  assumes "found_row env (p_informer_id prms) = None" and "logInformerId (e_cfg env)"
  shows "\<exists>c' c''. Core_Process env t0 t1 prms c = (Ok (template_error (e_cfg env)), c') \<and>
     Core_ProcessClean env g c' = (Fault NullDeref, g\<lparr>request_processed := request_processed g + 1\<rparr>, c'')"
proof -
  obtain c' where "Core_Process env t0 t1 prms c = (Ok (template_error (e_cfg env)), c')"
    and "c_informer c' = Null" and "c_params c' \<noteq> None"
    using Process_missing [OF assms(1), of t0 t1 c] by auto
  with clean_null_logged [of c' env g] assms(2) show ?thesis by auto
qed

definition logging_env :: "informer env" where
  "logging_env = sample_env\<lparr>e_cfg := (e_cfg sample_env)\<lparr>logInformerId := True\<rparr>\<rparr>"

theorem Core_log_null_informer_witness:
  "\<exists>c'. fst (Core_ProcessClean logging_env sample_counters
        (snd (Core_Process logging_env 0 1 (sample_params ''x'' '''') (Core_new ''1'')))) = c' \<and>
     c' = Fault NullDeref"
proof -
  have "found_row logging_env ''x'' = None"
    using sample_not_found
    by (simp add: found_row_def getInformer_cmd_def logging_env_def)
  then show ?thesis
    using Core_log_null_informer [of logging_env "sample_params ''x'' ''''" 0 1 "Core_new ''1''" sample_counters]
    by (auto simp: logging_env_def sample_params_def)
qed

text \<open>C22: the request asks for the block whose guid is the text of the parameter \<^verbatim>\<open>scr\<close>
  only if that text has no quote. At the first quote that is not doubled the SQL literal ends, and
  the rest of the client's text is read as SQL.\<close>
theorem getInformer_sql_text:
  assumes "printf_documented (sql_printf (e_sql env))"
    and "informerSqlStr (e_cfg env) = getInformer_sql"
    and "CHR 0x00 \<notin> set i" and "length i < 2 ^ 20"
  shows "getInformer_cmd env i = getInformer_prefix @ i @ getInformer_suffix \<and>
     last getInformer_prefix = CHR 0x27 \<and> CHR 0x27 \<notin> set (butlast getInformer_prefix) \<and>
     (CHR 0x27 \<notin> set i \<longrightarrow> sql_literal (i @ getInformer_suffix) = Some (i, endl @ ''LIMIT 1;'' @ endl)) \<and>
     (\<forall>v w. i = v @ CHR 0x27 # w \<and> CHR 0x27 \<notin> set v \<and> w \<noteq> [] \<and> hd w \<noteq> CHR 0x27 \<longrightarrow>
        sql_literal (i @ getInformer_suffix) = Some (v, w @ getInformer_suffix))"
proof (intro conjI allI impI)
  show "getInformer_cmd env i = getInformer_prefix @ i @ getInformer_suffix"
    using getInformer_printf [OF assms(1,4)] assms(2,3) by (simp add: getInformer_cmd_def c_str_ident)
  show "last getInformer_prefix = CHR 0x27" "CHR 0x27 \<notin> set (butlast getInformer_prefix)"
    by (rule getInformer_sql_shape)+
  show "sql_literal (i @ getInformer_suffix) = Some (i, endl @ ''LIMIT 1;'' @ endl)"
    if "CHR 0x27 \<notin> set i"
    using sql_literal_ends [OF that, of "endl @ ''LIMIT 1;'' @ endl"] by (simp add: getInformer_suffix_def)
  fix v w
  assume "i = v @ CHR 0x27 # w \<and> CHR 0x27 \<notin> set v \<and> w \<noteq> [] \<and> hd w \<noteq> CHR 0x27"
  then show "sql_literal (i @ getInformer_suffix) = Some (v, w @ getInformer_suffix)"
    using sql_literal_ends [of v "w @ getInformer_suffix"] by (cases w) auto
qed

theorem getInformer_sql_text_witness:
  "\<exists>rest. getInformer_cmd sample_env ''x';DROP TABLE Informer;--'' =
       getInformer_prefix @ ''x';DROP TABLE Informer;--'' @ getInformer_suffix \<and>
     sql_literal (''x';DROP TABLE Informer;--'' @ getInformer_suffix) = Some (''x'', rest) \<and>
     rest = '';DROP TABLE Informer;--'' @ getInformer_suffix"
proof -
  let ?i = "''x';DROP TABLE Informer;--''"
  have "CHR 0x00 \<notin> set ?i" and "length ?i < 2 ^ 20" by simp_all
  note t = getInformer_sql_text [OF sample_printf sample_sql this]
  have "sql_literal (?i @ getInformer_suffix) = Some (''x'', '';DROP TABLE Informer;--'' @ getInformer_suffix)"
    by (rule t [THEN conjunct2, THEN conjunct2, THEN conjunct2, THEN conjunct2, rule_format]) simp
  with t [THEN conjunct1] show ?thesis by blast
qed

text \<open>Each field of the block is read from the column of its name in the request of
  \<^verbatim>\<open>getInformer.sql\<close>, except \<^verbatim>\<open>blocked\<close>, which receives the column
  \<^verbatim>\<open>valid\<close>: a valid block is loaded as blocked.\<close>
theorem getInformer_columns:
  assumes "\<And>k. k < length selected \<Longrightarrow>
      col_int64 (e_sql env) row k = big (selected ! k) \<and> col_int (e_sql env) row k = int_of (selected ! k) \<and>
      col_string (e_sql env) row k = text (selected ! k) \<and> col_double (e_sql env) row k = real_of (selected ! k) \<and>
      col_bool (e_sql env) row k = flag (selected ! k)"
  shows "Informer_of_row env row =
     (e_junk env)\<lparr>
       i_id := big ''id'', i_guid := text ''guid'', i_title := text ''title'', i_account := text ''account'',
       i_domain := text ''domain'', i_capacity := int_of ''capacity'', i_auto_reload := int_of ''auto_reload'',
       i_blinking := int_of ''blinking'', i_shake := int_of ''shake'',
       i_blinking_reload := int_of ''blinking_reload'' \<noteq> 0, i_shake_reload := int_of ''shake_reload'' \<noteq> 0,
       i_shake_mouse := int_of ''shake_mouse'' \<noteq> 0, i_teasersCss := text ''teasersCss'',
       i_headerHtml := text ''headerHtml'', i_footerHtml := text ''footerHtml'',
       i_range_short_term := real_of ''range_short_term'', i_range_long_term := real_of ''range_long_term'',
       i_range_context := real_of ''range_context'', i_range_search := real_of ''range_search'',
       i_range_category := range_category (e_cfg env),
       i_retargeting_capacity := int_of ''retargeting_capacity'', i_blocked := flag ''valid'',
       i_nonrelevant := '''', i_social_branch := flag ''social_branch'', i_user_code := text ''user_code'',
       i_html_notification := flag ''html_notification'', i_plase_branch := flag ''place_branch'',
       i_retargeting_branch := flag ''retargeting_branch'', i_rating_division := int_of ''rating_division''\<rparr>"
proof -
  have cols:
    "k < 27 \<Longrightarrow> col_int64 (e_sql env) row k = big (selected ! k)"
    "k < 27 \<Longrightarrow> col_int (e_sql env) row k = int_of (selected ! k)"
    "k < 27 \<Longrightarrow> col_string (e_sql env) row k = text (selected ! k)"
    "k < 27 \<Longrightarrow> col_double (e_sql env) row k = real_of (selected ! k)"
    "k < 27 \<Longrightarrow> col_bool (e_sql env) row k = flag (selected ! k)" for k
    using assms by (simp_all add: selected_names)
  show ?thesis
    by (simp add: Informer_of_row_def Informer_new_def Let_def cols, simp add: selected_names)
qed

definition by_name_env :: "(string \<Rightarrow> string) \<Rightarrow> unit env" where
  "by_name_env text =
     \<lparr>e_sql =
        \<lparr>sql_printf = ref_printf, sql_first = (\<lambda>_. Inr (Some ())), sql_free = (\<lambda>_. None),
         col_int64 = (\<lambda>_ k. of_nat (length (text (selected ! k)))),
         col_int = (\<lambda>_ k. of_nat (length (text (selected ! k)))),
         col_string = (\<lambda>_ k. text (selected ! k)),
         col_double = (\<lambda>_ k. of_nat (length (text (selected ! k)))),
         col_bool = (\<lambda>_ k. text (selected ! k) \<noteq> '''')\<rparr>,
      e_cfg = e_cfg sample_env, e_tid = '''', e_bformat = ref_format, e_show_double = (\<lambda>_. ''''),
      e_show_elapsed = (\<lambda>_ _. ''''), e_junk = sample_block\<rparr>"

theorem getInformer_columns_witness:
  "i_blocked (Informer_of_row (by_name_env (\<lambda>n. if n = ''valid'' then ''1'' else '''')) ()) \<and>
   i_guid (Informer_of_row (by_name_env (\<lambda>n. if n = ''guid'' then ''ab'' else '''')) ()) = ''ab''"
  using getInformer_columns [of "by_name_env (\<lambda>n. if n = ''valid'' then ''1'' else '''')" "()"
      "\<lambda>n. of_nat (length (if n = ''valid'' then ''1'' else ''''))"
      "\<lambda>n. of_nat (length (if n = ''valid'' then ''1'' else ''''))"
      "\<lambda>n. if n = ''valid'' then ''1'' else ''''"
      "\<lambda>n. of_nat (length (if n = ''valid'' then ''1'' else ''''))"
      "\<lambda>n. (if n = ''valid'' then ''1'' else '''') \<noteq> ''''"]
    getInformer_columns [of "by_name_env (\<lambda>n. if n = ''guid'' then ''ab'' else '''')" "()"
      "\<lambda>n. of_nat (length (if n = ''guid'' then ''ab'' else ''''))"
      "\<lambda>n. of_nat (length (if n = ''guid'' then ''ab'' else ''''))"
      "\<lambda>n. if n = ''guid'' then ''ab'' else ''''"
      "\<lambda>n. of_nat (length (if n = ''guid'' then ''ab'' else ''''))"
      "\<lambda>n. (if n = ''guid'' then ''ab'' else '''') \<noteq> ''''"]
  by (simp add: by_name_env_def)

text \<open>The user-code request returns the stored code of the block, unescaped, inside a fixed
  frame, and the error template for an unknown block; it always returns normally and leaves the
  finishing time of the previous page in place.\<close>
theorem Core_UserCode_page:
  "fst (Core_UserCode env t0 prms c) =
     Ok (case found_row env (p_informer_id prms) of
           None \<Rightarrow> template_error (e_cfg env)
         | Some row \<Rightarrow> usercode_head @ i_user_code (Informer_of_row env row) @ ''</body></html>'') \<and>
   c_end (snd (Core_UserCode env t0 prms c)) = c_end c"
proof
  show "fst (Core_UserCode env t0 prms c) =
     Ok (case found_row env (p_informer_id prms) of
           None \<Rightarrow> template_error (e_cfg env)
         | Some row \<Rightarrow> usercode_head @ i_user_code (Informer_of_row env row) @ ''</body></html>'')"
    using UserCode_missing [of env prms t0 c] UserCode_found [of env prms _ t0 c]
    by (cases "found_row env (p_informer_id prms)") auto
  show "c_end (snd (Core_UserCode env t0 prms c)) = c_end c"
    by (auto simp: Core_UserCode_def getInformer_def Let_def log_missing_def getInformer_error_def
        clog_def split: sum.splits option.splits)
qed

end
