(* ===== verification/PageData.thy ===== *)
theory PageData
  imports CoreSpec JsonParse
begin

text \<open>
  The data a page carries, read again: what \<^verbatim>\<open>Params::toJson\<close> and
  \<^verbatim>\<open>Informer::toJson\<close> print is parsed by the parser of the same library to the
  values of the fields. An integer that is not negative is read as an unsigned one of the same bits.
\<close>

section \<open>The objects behind the texts\<close>

abbreviation read_int :: "u64 \<Rightarrow> json" where
  "read_int i \<equiv> as_read (JInteger i)"

definition Params_object :: "params \<Rightarrow> (string \<times> json) list" where
  "Params_object p =
     [(''capacity'', JUnsigned (ucast (p_capacity p))),
      (''country'', JString (p_country p)),
      (''informer_id'', JString (p_informer_id p)),
      (''informer_id_int'', read_int (p_informer_id_int p)),
      (''rating_division'', read_int (scast (p_rating_division p))),
      (''region'', JString (p_region p)),
      (''request'', JString ''initial''),
      (''test'', JBoolean (p_test_mode p))]"

definition Informer_object :: "informer \<Rightarrow> (string \<times> json) list" where
  "Informer_object blk =
     [(''account'', JString (i_account blk)),
      (''auto_reload'', JUnsigned (ucast (i_auto_reload blk))),
      (''blinking'', JUnsigned (ucast (i_blinking blk))),
      (''blinking_reload'', JBoolean (i_blinking_reload blk)),
      (''capacity'', JUnsigned (ucast (i_capacity blk))),
      (''domain'', JString (i_domain blk)),
      (''footerHtml'', JString (i_footerHtml blk)),
      (''headerHtml'', JString (i_headerHtml blk)),
      (''html_notification'', JBoolean (i_html_notification blk)),
      (''informer_id'', JString (i_guid blk)),
      (''informer_id_int'', read_int (i_id blk)),
      (''place_branch'', JBoolean (i_plase_branch blk)),
      (''retargeting_branch'', JBoolean (i_retargeting_branch blk)),
      (''retargeting_capacity'', JUnsigned (ucast (i_retargeting_capacity blk))),
      (''shake'', JUnsigned (ucast (i_shake blk))),
      (''shake_mouse'', JBoolean (i_shake_mouse blk)),
      (''shake_reload'', JBoolean (i_shake_reload blk)),
      (''social_branch'', JBoolean (i_social_branch blk)),
      (''title'', JString (i_title blk))]"

section \<open>Lemmas\<close>

text \<open>Members assigned in any order are the sorted entries of the object, and its text is read as them.\<close>

lemma fold_put_all:
  "\<forall>kv \<in> set kvs. P kv \<Longrightarrow> \<forall>kv \<in> set m. P kv \<Longrightarrow> \<forall>kv \<in> set (fold (\<lambda>(k, v) m. map_put m k v) kvs m). P kv"
proof (induction kvs arbitrary: m)
  case (Cons kv kvs)
  obtain k v where kv: "kv = (k, v)" by (cases kv)
  have "\<forall>kv \<in> set (map_put m k v). P kv" using Cons.prems map_put_value [of _ _ m k v] by (auto simp: kv)
  then show ?case using Cons.IH [of "map_put m k v"] Cons.prems(1) by (simp add: kv)
qed simp

lemma assigned_reads:
  assumes "obind (json_assigns JNull kvs) (\<lambda>j. Ok (json_dump sd (- 1) j)) = Ok page"
    and "kvs \<noteq> []" and "\<forall>kv \<in> set kvs. utf8 (fst kv) \<and> json_printable (snd kv)"
  shows "json_parse rd page =
    Some (Ok (as_read (JObject (fold (\<lambda>(k, v) m. map_put m k v) kvs []))))"
proof -
  let ?m = "fold (\<lambda>(k, v) m. map_put m k v) kvs []"
  have "json_printable (JObject ?m)"
    using std_map.good_assigns [OF map_sorted_Nil, of kvs] fold_put_all [OF assms(3), of "[]"] by simp
  moreover have "page = json_dump sd (- 1) (JObject ?m)" using assms(1,2) by (simp add: json_assigns_null)
  ultimately show ?thesis using json_parse_printed by blast
qed

lemma params_keys_utf8:
  "list_all utf8 [''informer_id'', ''informer_id_int'', ''test'', ''capacity'', ''rating_division'', ''country'',
     ''region'', ''request'', ''initial'']"
  by code_simp

lemma informer_keys_utf8:
  "list_all utf8 [''informer_id_int'', ''informer_id'', ''title'', ''account'', ''domain'', ''capacity'',
     ''auto_reload'', ''blinking'', ''shake'', ''blinking_reload'', ''shake_reload'', ''shake_mouse'',
     ''headerHtml'', ''footerHtml'', ''retargeting_capacity'', ''social_branch'',
     ''html_notification'', ''place_branch'', ''retargeting_branch'']"
  by code_simp

lemma Params_text_reads:
  assumes "list_all utf8 [p_informer_id p, p_country p, p_region p]"
  shows "json_parse rd (Params_text p) = Some (Ok (JObject (Params_object p)))"
  using assigned_reads [OF Params_toJson_text [unfolded Params_toJson_def], where rd = rd] assms params_keys_utf8
  by (simp add: Params_object_def less_char_def)

lemma Informer_text_reads:
  assumes "list_all utf8 [i_guid blk, i_title blk, i_account blk, i_domain blk, i_headerHtml blk, i_footerHtml blk]"
  shows "json_parse rd (Informer_text blk) = Some (Ok (JObject (Informer_object blk)))"
  using assigned_reads [OF Informer_toJson_text [unfolded Informer_toJson_def], where rd = rd] assms informer_keys_utf8
  by (simp add: Informer_object_def less_char_def)

definition params_utf8 :: "params \<Rightarrow> bool" where
  "params_utf8 p \<longleftrightarrow> list_all utf8 [p_informer_id p, p_country p, p_region p]"

definition informer_utf8 :: "informer \<Rightarrow> bool" where
  "informer_utf8 blk \<longleftrightarrow>
     list_all utf8 [i_guid blk, i_title blk, i_account blk, i_domain blk, i_headerHtml blk, i_footerHtml blk]"

lemma sample_page_data:
  "informer_utf8 (Informer_of_row sample_env sample_block)"
  "i_teasersCss (Informer_of_row sample_env sample_block) = ''b{}''"
proof -
  have "utf8 ''g''" "utf8 ''t''" by code_simp+
  then show "informer_utf8 (Informer_of_row sample_env sample_block)"
    "i_teasersCss (Informer_of_row sample_env sample_block) = ''b{}''"
    by (simp_all add: informer_utf8_def Informer_of_row_def Informer_new_def sample_env_def table_env_def
        table_sql_def sample_block_def)
qed

section \<open>Properties\<close>

text \<open>The JSON text of the parameters is a faithful record of them: with UTF-8 strings, it is
  produced without an exception and the library's own parser reads from it exactly the eight members,
  in key order, each with the value of its field; the query string and the posted data are not among them.
\<close>
theorem Params_toJson_readable:
  assumes "params_utf8 p"
  shows "\<exists>doc. Params_toJson sd p = Ok doc \<and> json_parse rd doc = Some (Ok (JObject (Params_object p)))"
  using assms Params_toJson_text Params_text_reads by (simp add: params_utf8_def)

theorem Params_toJson_readable_witness:
  "\<exists>doc. Params_toJson (\<lambda>r. []) (sample_params ''g'' ''</script>'') = Ok doc \<and>
     json_parse (\<lambda>t. None) doc = Some (Ok (JObject (Params_object (sample_params ''g'' ''</script>''))))"
proof -
  have "params_utf8 (sample_params ''g'' ''</script>'')" by code_simp
  then show ?thesis by (rule Params_toJson_readable)
qed



end
