(* ===== verification/BaseCore.thy ===== *)
theory BaseCore
  imports Config Prelude
begin

text \<open>
  \<^verbatim>\<open>include/BaseCore.h\<close>, \<^verbatim>\<open>src/BaseCore.cpp\<close>: the part of the worker
  that all threads share. It follows the broker's messages about changed blocks, loads the blocks
  at start-up and renders the status page.

  Parameters: the broker (what its calls answer), the operations on the local database (\<open>act\<close>, on
  a state of any type), the ring buffer of Boost that keeps the message log, the printing of times
  and doubles, the clock. Times are in milliseconds.
\<close>

section \<open>State\<close>

datatype db_action = UpdateAll | UpdateWhere string string | RemoveGuid string | RebuildIndex

text \<open>
  What a call of \<^verbatim>\<open>Get\<close> and \<^verbatim>\<open>getMessage\<close> gives: a message with the count
  the library reports (\<open>-1\<close> when the queue was empty), or an \<^verbatim>\<open>AMQPException\<close>.
\<close>

record message =
  m_count :: int
  m_key :: string
  m_body :: string

type_synonym queue = "(string + message) list"

text \<open>
  A queue pointer is uninitialised until \<^verbatim>\<open>InitMessageQueue\<close> creates the queue. The
  list of a queue is what its next \<^verbatim>\<open>Get\<close> calls answer, one entry each, since a message
  fetched with \<^verbatim>\<open>AMQP_NOACK\<close> is gone from the broker; past its end the queue is empty.
\<close>

record 'db basecore =
  b_started :: int
  b_mq_check :: "int option"
  b_amqp :: bool
  b_mq_informer :: "queue option"
  b_mq_account :: "queue option"
  b_mq_log :: "string list"
  b_last_accessed :: "int option"
  b_clog :: string
  b_db :: 'db

record 'db base_env =
  be_cfg :: config
  be_reopen :: bool
  be_act :: "db_action \<Rightarrow> 'db \<Rightarrow> unit outcome \<times> 'db"
  be_push :: "nat \<Rightarrow> string list \<Rightarrow> string \<Rightarrow> string list"
  be_show_time :: "int option \<Rightarrow> string"
  be_show_double :: "rat \<Rightarrow> string"
  be_build :: string

section \<open>Messages\<close>

definition MAXCOUNT :: nat where
  "MAXCOUNT = 1000"

definition no_message :: message where
  "no_message = \<lparr>m_count = - 1, m_key = '''', m_body = ''''\<rparr>"

fun queue_get :: "queue \<Rightarrow> (string + message) \<times> queue" where
  "queue_get [] = (Inr no_message, [])"
| "queue_get (r # q) = (r, q)"

text \<open>The bodies of the two loops: what a message of each queue makes the database do.\<close>

definition informer_action :: "message \<Rightarrow> db_action option" where
  "informer_action m =
     (if m_key m = ''informer.update'' then Some (UpdateWhere ''guid'' (m_body m))
      else if m_key m = ''informer.delete'' then Some (RemoveGuid (m_body m))
      else None)"

definition account_action :: "message \<Rightarrow> db_action option" where
  "account_action m =
     (if m_key m = ''account.update'' then Some (UpdateWhere ''user'' (m_body m)) else None)"

definition log_line :: "message \<Rightarrow> string" where
  "log_line m = m_key m @ '':'' @ m_body m @ ''</br>''"

datatype mq_result = Done | Amqp string | Raised exn | Broken fault

text \<open>
  A loop from a message \<open>m\<close> on, with \<open>stop\<close> rounds left: its result, the rest of the queue, the
  message log, the database.
\<close>

fun mq_loop ::
  "'db base_env \<Rightarrow> (message \<Rightarrow> db_action option) \<Rightarrow> nat \<Rightarrow> message \<Rightarrow> queue \<Rightarrow> string list \<Rightarrow> 'db \<Rightarrow>
   mq_result \<times> queue \<times> string list \<times> 'db" where
  "mq_loop env action stop m q lg db =
    (if m_count m > - 1 then
       (case stop of
          0 \<Rightarrow> (Done, q, lg, db)
        | Suc stop' \<Rightarrow>
           (let lg = be_push env 100 lg (log_line m);
                (r, db) = (case action m of None \<Rightarrow> (Ok (), db) | Some a \<Rightarrow> be_act env a db) in
            case r of
              Throw e \<Rightarrow> (Raised e, q, lg, db)
            | Fault x \<Rightarrow> (Broken x, q, lg, db)
            | Ok _ \<Rightarrow>
               (case queue_get q of
                  (Inl ex, q) \<Rightarrow> (Amqp ex, q, lg, db)
                | (Inr m', q) \<Rightarrow> mq_loop env action stop' m' q lg db)))
     else (Done, q, lg, db))"

declare mq_loop.simps [simp del]

text \<open>One block of \<^verbatim>\<open>ProcessMQ\<close>: the first fetch and the loop.\<close>

definition mq_poll ::
  "'db base_env \<Rightarrow> (message \<Rightarrow> db_action option) \<Rightarrow> queue option \<Rightarrow> string list \<Rightarrow> 'db \<Rightarrow>
   mq_result \<times> queue option \<times> string list \<times> 'db" where
  "mq_poll env action q lg db =
    (case q of
       None \<Rightarrow> (Broken UninitPointer, None, lg, db)
     | Some q \<Rightarrow>
        (case queue_get q of
           (Inl ex, q) \<Rightarrow> (Amqp ex, Some q, lg, db)
         | (Inr m, q) \<Rightarrow>
            (case mq_loop env action MAXCOUNT m q lg db of (r, q, lg, db) \<Rightarrow> (r, Some q, lg, db))))"

definition mq_caught :: "'db base_env \<Rightarrow> string \<Rightarrow> 'db basecore \<Rightarrow> 'db basecore" where
  "mq_caught env ex b =
     b\<lparr>b_clog := b_clog b @ ''AMQPException: '' @ ex @ [CHR 0x0A],
       b_mq_log := be_push env 100 (b_mq_log b) (''error: '' @ ex)\<rparr>"

definition BaseCore_ProcessMQ ::
  "'db base_env \<Rightarrow> int \<Rightarrow> 'db basecore \<Rightarrow> bool outcome \<times> 'db basecore" where
  "BaseCore_ProcessMQ env now b =
    (let b = b\<lparr>b_mq_check := Some now\<rparr>;
         (r1, q1, lg1, db1) = mq_poll env informer_action (b_mq_informer b) (b_mq_log b) (b_db b);
         b = b\<lparr>b_mq_informer := q1, b_mq_log := lg1, b_db := db1\<rparr> in
     case r1 of
       Raised e \<Rightarrow> (Throw e, b)
     | Broken x \<Rightarrow> (Fault x, b)
     | Amqp ex \<Rightarrow> (Ok False, mq_caught env ex b)
     | Done \<Rightarrow>
        (let (r2, q2, lg2, db2) = mq_poll env account_action (b_mq_account b) (b_mq_log b) (b_db b);
             b = b\<lparr>b_mq_account := q2, b_mq_log := lg2, b_db := db2\<rparr> in
         case r2 of
           Raised e \<Rightarrow> (Throw e, b)
         | Broken x \<Rightarrow> (Fault x, b)
         | Amqp ex \<Rightarrow> (Ok False, mq_caught env ex b)
         | Done \<Rightarrow> (Ok False, b)))"

section \<open>Start-up\<close>

definition BaseCore_LoadAllEntities :: "'db base_env \<Rightarrow> 'db basecore \<Rightarrow> unit outcome \<times> 'db basecore" where
  "BaseCore_LoadAllEntities env b =
    (if be_reopen env then (Ok (), b)
     else
       case be_act env UpdateAll (b_db b) of
         (Ok _, db) \<Rightarrow> (case be_act env RebuildIndex db of (r, db) \<Rightarrow> (r, b\<lparr>b_db := db\<rparr>))
       | (r, db) \<Rightarrow> (r, b\<lparr>b_db := db\<rparr>))"

datatype amqp_call =
    NewAMQP string
  | CreateExchange
  | DeclareExchange string string
  | CreateQueue
  | DeclareQueue string
  | Bind string string

text \<open>
  The calls \<^verbatim>\<open>InitMessageQueue\<close> makes, each with what it assigns; \<open>fails\<close> says which
  of them throws, with the exception's text.
\<close>

definition queue_names :: "string \<Rightarrow> string \<times> string" where
  "queue_names postfix = (''getmyad.informer.'' @ postfix, ''getmyad.account.'' @ postfix)"

definition init_calls ::
  "config \<Rightarrow> string \<Rightarrow> (amqp_call \<times> ('db basecore \<Rightarrow> 'db basecore)) list" where
  "init_calls cfg postfix =
    (let (mq_informer_name, mq_account_name) = queue_names postfix in
     [(NewAMQP (mq_path cfg), \<lambda>b. b\<lparr>b_amqp := True\<rparr>),
      (CreateExchange, \<lambda>b. b),
      (DeclareExchange ''getmyad'' ''topic'', \<lambda>b. b),
      (CreateQueue, \<lambda>b. b\<lparr>b_mq_informer := Some []\<rparr>),
      (DeclareQueue mq_informer_name, \<lambda>b. b),
      (CreateQueue, \<lambda>b. b\<lparr>b_mq_account := Some []\<rparr>),
      (DeclareQueue mq_account_name, \<lambda>b. b),
      (Bind mq_informer_name ''informer.#'', \<lambda>b. b),
      (Bind mq_account_name ''account.#'', \<lambda>b. b)])"

fun run_calls ::
  "(nat \<Rightarrow> amqp_call \<Rightarrow> string option) \<Rightarrow> nat \<Rightarrow> (amqp_call \<times> ('b \<Rightarrow> 'b)) list \<Rightarrow> 'b \<Rightarrow> string option \<times> 'b" where
  "run_calls fails n [] b = (None, b)"
| "run_calls fails n ((c, f) # cs) b =
    (case fails n c of Some ex \<Rightarrow> (Some ex, b) | None \<Rightarrow> run_calls fails (n + 1) cs (f b))"

definition BaseCore_InitMessageQueue ::
  "'db base_env \<Rightarrow> (nat \<Rightarrow> amqp_call \<Rightarrow> string option) \<Rightarrow> string \<Rightarrow> 'db basecore \<Rightarrow> 'db basecore" where
  "BaseCore_InitMessageQueue env fails postfix b =
    (case run_calls fails 0 (init_calls (be_cfg env) postfix) b of
       (None, b) \<Rightarrow>
         b\<lparr>b_clog := b_clog b @ ''Created ampq queues: '' @ fst (queue_names postfix) @ '','' @
             snd (queue_names postfix) @ [CHR 0x0A]\<rparr>
     | (Some ex, b) \<Rightarrow> b\<lparr>b_clog := b_clog b @ ''Error in AMPQ init: '' @ ex @ [CHR 0x0A]\<rparr>)"

text \<open>The constructor; \<open>junk\<close> is whether the uninitialised \<^verbatim>\<open>amqp_\<close> is non-null.\<close>

definition BaseCore_new ::
  "'db base_env \<Rightarrow> (nat \<Rightarrow> amqp_call \<Rightarrow> string option) \<Rightarrow> string \<Rightarrow> int \<Rightarrow> bool \<Rightarrow> 'db \<Rightarrow>
   unit outcome \<times> 'db basecore" where
  "BaseCore_new env fails postfix now junk db =
     BaseCore_LoadAllEntities env
       (BaseCore_InitMessageQueue env fails postfix
         \<lparr>b_started = now, b_mq_check = None, b_amqp = junk, b_mq_informer = None,
          b_mq_account = None, b_mq_log = [], b_last_accessed = None, b_clog = '''', b_db = db\<rparr>)"

section \<open>The status page\<close>

text \<open>
  The rates. The differences of times are cut to an \<^verbatim>\<open>int\<close>; the products and
  quotients are of type \<^verbatim>\<open>unsigned long\<close>, into which the \<^verbatim>\<open>int\<close> divisor is
  converted with its sign; the result is cut to an \<^verbatim>\<open>int\<close> again.
\<close>

definition millisecs :: "int \<Rightarrow> int \<Rightarrow> u32" where
  "millisecs now since = word_of_int (now - since)"

definition per_second :: "u64 \<Rightarrow> u32 \<Rightarrow> u32" where
  "per_second requests ms = (if ms \<noteq> 0 then ucast ((requests * 1000) div scast ms) else 0)"

definition bytes :: "nat list \<Rightarrow> string" where
  "bytes = map char_of"

text \<open>The Russian captions of the page, in UTF-8.\<close>

definition txt_title :: string where
  "txt_title =
     bytes [208, 161, 208, 190, 209, 129, 209, 130, 208, 190, 209, 143, 208, 189, 208,
       184, 208, 181, 32, 209, 129, 208, 187, 209, 131, 208, 182, 208, 177, 209, 139,
       32, 89, 111, 116, 116, 111, 115, 32, 71, 101, 116, 77, 121, 65, 100, 32, 119,
       111, 114, 107, 101, 114]"

definition txt_processed :: string where
  "txt_processed =
     bytes [208, 158, 208, 177, 209, 128, 208, 176, 208, 177, 208, 190, 209, 130, 208,
       176, 208, 189, 208, 190, 32, 208, 183, 208, 176, 208, 191, 209, 128, 208, 190,
       209, 129, 208, 190, 208, 178, 58]"

definition txt_per_second :: string where
  "txt_per_second =
     bytes [47, 209, 129, 208, 181, 208, 186, 44, 32]"

definition txt_average :: string where
  "txt_average =
     bytes [32, 208, 178, 32, 209, 129, 209, 128, 208, 181, 208, 180, 208, 189, 208,
       181, 208, 188, 32]"

definition txt_per_second_close :: string where
  "txt_per_second_close =
     bytes [47, 209, 129, 208, 181, 208, 186, 41, 32]"

definition txt_server_name :: string where
  "txt_server_name =
     bytes [208, 152, 208, 188, 209, 143, 32, 209, 129, 208, 181, 209, 128, 208, 178,
       208, 181, 209, 128, 208, 176, 58, 32]"

definition txt_unknown :: string where
  "txt_unknown =
     bytes [208, 189, 208, 181, 208, 184, 208, 183, 208, 178, 208, 181, 209, 129, 209,
       130, 208, 189, 208, 190]"

definition txt_server_ip :: string where
  "txt_server_ip =
     bytes [73, 80, 32, 209, 129, 208, 181, 209, 128, 208, 178, 208, 181, 209, 128, 208,
       176, 58, 32]"

definition txt_now :: string where
  "txt_now =
     bytes [208, 162, 208, 181, 208, 186, 209, 131, 209, 137, 208, 181, 208, 181, 32,
       208, 178, 209, 128, 208, 181, 208, 188, 209, 143, 58, 32]"

definition txt_started :: string where
  "txt_started =
     bytes [208, 146, 209, 128, 208, 181, 208, 188, 209, 143, 32, 208, 183, 208, 176,
       208, 191, 209, 131, 209, 129, 208, 186, 208, 176, 58]"

definition txt_threads :: string where
  "txt_threads =
     bytes [208, 154, 208, 190, 208, 187, 208, 184, 209, 135, 208, 181, 209, 129, 209,
       130, 208, 178, 208, 190, 32, 208, 189, 208, 184, 209, 130, 208, 190, 208, 186,
       58, 32]"

definition txt_main_db :: string where
  "txt_main_db =
     bytes [208, 158, 209, 129, 208, 189, 208, 190, 208, 178, 208, 189, 208, 176, 209,
       143, 32, 208, 177, 208, 176, 208, 183, 208, 176, 32, 208, 180, 208, 176, 208,
       189, 208, 189, 209, 139, 209, 133, 58]"

definition txt_active :: string where
  "txt_active =
     bytes [208, 176, 208, 186, 209, 130, 208, 184, 208, 178, 208, 181, 208, 189]"

definition txt_inactive :: string where
  "txt_inactive =
     bytes [208, 189, 208, 181, 32, 208, 176, 208, 186, 209, 130, 208, 184, 208, 178,
       208, 181, 208, 189]"

definition txt_build :: string where
  "txt_build =
     bytes [208, 161, 208, 177, 208, 190, 209, 128, 208, 186, 208, 176, 58, 32]"

definition txt_journal :: string where
  "txt_journal =
     bytes [208, 150, 209, 131, 209, 128, 208, 189, 208, 176, 208, 187, 32, 65, 77, 81,
       80, 58, 32]"

definition txt_last_message :: string where
  "txt_last_message =
     bytes [208, 159, 208, 190, 209, 129, 208, 187, 208, 181, 208, 180, 208, 189, 208,
       181, 208, 181, 32, 209, 129, 208, 190, 208, 190, 208, 177, 209, 137, 208, 181,
       208, 189, 208, 184, 208, 181, 58]"

definition txt_last_check :: string where
  "txt_last_check =
     bytes [208, 159, 208, 190, 209, 129, 208, 187, 208, 181, 208, 180, 208, 189, 209,
       143, 209, 143, 32, 208, 191, 209, 128, 208, 190, 208, 178, 208, 181, 209, 128,
       208, 186, 208, 176, 32, 209, 129, 208, 190, 208, 190, 208, 177, 209, 137, 208,
       181, 208, 189, 208, 184, 208, 185, 58]"

definition status_head :: string where
  "status_head =
     ''<html>'' @ ''<head>'' @
     ''<meta http-equiv='' @ [CHR 0x22] @ ''Content-Type'' @ [CHR 0x22] @ '' content='' @ [CHR 0x22] @
       ''text/html; charset=utf-8'' @ [CHR 0x22] @ ''/>'' @
     ''<style type='' @ [CHR 0x22] @ ''text/css'' @ [CHR 0x22] @ ''>'' @
     ''body { font-family: Arial, Helvetica, sans-serif; }'' @
     ''h1, h2, h3 {font-family: '' @ [CHR 0x22] @ ''georgia'' @ [CHR 0x22] @ '', serif; font-weight: 400;}'' @
     ''table { border-collapse: collapse; border: 1px solid gray; }'' @
     ''td { border: 1px dotted gray; padding: 5px; font-size: 10pt; }'' @
     ''th {border: 1px solid gray; padding: 8px; font-size: 10pt; }'' @
     ''</style>'' @ ''</head>'' @ ''<body>'' @
     ''<h1>'' @ txt_title @ ''</h1>'' @ ''<table>''"

definition server_name_cell :: "string \<Rightarrow> string" where
  "server_name_cell server_name =
     (if server_name = '''' then server_name else txt_unknown)"

definition status_body ::
  "'db base_env \<Rightarrow> u64 \<Rightarrow> u32 \<Rightarrow> u32 \<Rightarrow> string \<Rightarrow> int \<Rightarrow> rat \<Rightarrow> rat \<Rightarrow> u64 \<Rightarrow> 'db basecore \<Rightarrow> string" where
  "status_body env processed current average server_name now cpu_user cpu_sys rss b =
    (let cfg = be_cfg env in
     status_head @
     ''<tr>'' @ ''<td>'' @ txt_processed @ ''</td><td><b>'' @ dec_nat (unat processed) @
     ''</b> ('' @ dec_int (sint current) @ txt_per_second @ txt_average @ dec_int (sint average) @ txt_per_second_close @
     ''</td></tr>'' @
     ''<tr><td>'' @ txt_server_name @ ''</td> <td>'' @ server_name_cell server_name @ ''</td></tr>'' @
     ''<tr><td>'' @ txt_server_ip @ ''</td> <td>'' @ server_ip cfg @ ''</td></tr>'' @
     ''<tr><td>'' @ txt_now @ ''</td> <td>'' @ be_show_time env (Some now) @ ''</td></tr>'' @
     ''<tr><td>'' @ txt_started @ ''</td> <td>'' @ be_show_time env (Some (b_started b)) @ ''</td></tr>'' @
     ''<tr><td>'' @ txt_threads @ ''</td> <td>'' @ dec_int (sint (server_children cfg)) @ ''</td></tr>'' @
     ''<tr><td>CPU user: </td> <td>'' @ be_show_double env cpu_user @ ''</td></tr>'' @
     ''<tr><td>CPU sys: </td> <td>'' @ be_show_double env cpu_sys @ ''</td></tr>'' @
     ''<tr><td>RAM: </td> <td>'' @ dec_nat (unat rss) @ ''</td></tr>'' @
     ''<tr><td>'' @ txt_main_db @ ''</td> <td>'' @ mongo_main_db cfg @ ''/'' @
     ''<br/>replica set='' @ (if mongo_main_url cfg = '''' then ''no set'' else mongo_main_url cfg) @
     ''</td></tr>'' @
     ''<tr><td>AMQP:</td><td>'' @ (if b_amqp b then txt_active else txt_inactive) @ ''</td></tr>'' @
     ''<tr><td>'' @ txt_build @ ''</td><td>'' @ be_build env @ ''</td></tr>'' @ ''</table>'' @
     ''<p>'' @ txt_journal @ ''</p>'' @ ''<table>'' @
     ''<tr><td>'' @ txt_last_message @ ''</td><td>'' @ concat (b_mq_log b) @ ''</td></tr>'' @
     ''<tr><td>'' @ txt_last_check @ ''</td><td>'' @ be_show_time env (b_mq_check b) @ ''</td><tr>'' @
     ''</table>'' @ ''</body>'' @ ''</html>'')"

definition BaseCore_Status ::
  "'db base_env \<Rightarrow> string \<Rightarrow> int \<Rightarrow> int \<Rightarrow> rat \<Rightarrow> rat \<Rightarrow> u64 \<Rightarrow> counters \<Rightarrow> 'db basecore \<Rightarrow>
   string \<times> counters \<times> 'db basecore" where
  "BaseCore_Status env server_name now now_page cpu_user cpu_sys rss g b =
    (let last = (case b_last_accessed b of None \<Rightarrow> b_started b | Some t \<Rightarrow> t);
         since_last_access = millisecs now last;
         since_start = millisecs now (b_started b);
         current = per_second (request_processed g - last_time_request_processed g) since_last_access;
         average = per_second (request_processed g) since_start;
         b = b\<lparr>b_last_accessed := Some now\<rparr>;
         g = g\<lparr>last_time_request_processed := request_processed g\<rparr> in
     (status_body env (request_processed g) current average server_name now_page cpu_user cpu_sys rss b,
      g, b))"

end
