(* ===== verification/BaseCoreSpec.thy ===== *)
theory BaseCoreSpec
  imports BaseCore
begin

text \<open>
  What the shared core promises: which database operations a round of message processing performs
  and which messages it consumes, the bound of the message log, the queues after start-up, the
  rates of the status page.
\<close>

section \<open>Message processing\<close>

definition actions_of :: "(message \<Rightarrow> db_action option) \<Rightarrow> message list \<Rightarrow> db_action list" where
  "actions_of action ms = concat (map (\<lambda>m. case action m of None \<Rightarrow> [] | Some a \<Rightarrow> [a]) ms)"

definition run_actions :: "'db base_env \<Rightarrow> db_action list \<Rightarrow> 'db \<Rightarrow> 'db" where
  "run_actions env as db = fold (\<lambda>a db. snd (be_act env a db)) as db"

definition push_lines :: "'db base_env \<Rightarrow> string list \<Rightarrow> string list \<Rightarrow> string list" where
  "push_lines env ls lg = fold (\<lambda>l lg. be_push env 100 lg l) ls lg"

definition db_works :: "'db base_env \<Rightarrow> bool" where
  "db_works env \<longleftrightarrow> (\<forall>a db. fst (be_act env a db) = Ok ())"

definition present :: "message \<Rightarrow> bool" where
  "present m \<longleftrightarrow> - 1 < m_count m"

lemma actions_of_simps [simp]:
  "actions_of action [] = []"
  "actions_of action (m # ms) =
     (case action m of None \<Rightarrow> [] | Some a \<Rightarrow> [a]) @ actions_of action ms"
  by (simp_all add: actions_of_def)

lemma run_actions_simps [simp]:
  "run_actions env [] db = db"
  "run_actions env (a # as) db = run_actions env as (snd (be_act env a db))"
  "run_actions env (as @ bs) db = run_actions env bs (run_actions env as db)"
  by (simp_all add: run_actions_def)

lemma push_lines_simps [simp]:
  "push_lines env [] lg = lg"
  "push_lines env (l # ls) lg = push_lines env ls (be_push env 100 lg l)"
  "push_lines env (ls @ ls') lg = push_lines env ls' (push_lines env ls lg)"
  by (simp_all add: push_lines_def)

lemma loop_action:
  assumes "db_works env"
  shows "(case action m of None \<Rightarrow> (Ok (), db) | Some a \<Rightarrow> be_act env a db) =
     (Ok (), run_actions env (case action m of None \<Rightarrow> [] | Some a \<Rightarrow> [a]) db)"
  using assms by (cases "action m") (auto simp: db_works_def prod_eq_iff)

lemma mq_loop_messages:
  assumes "db_works env"
  shows "present m \<Longrightarrow> \<forall>m \<in> set ms. present m \<Longrightarrow>
     mq_loop env action stop m (map Inr ms) lg db =
       (Done, map Inr (drop stop ms), push_lines env (map log_line (take stop (m # ms))) lg,
        run_actions env (actions_of action (take stop (m # ms))) db)"
proof (induction ms arbitrary: stop m lg db)
  case Nil
  then show ?case
    by (cases stop) (simp_all add: mq_loop.simps [of env] no_message_def present_def loop_action [OF assms])
next
  case (Cons m' ms)
  then show ?case
    by (cases stop) (simp_all add: mq_loop.simps [of env _ _ m] present_def loop_action [OF assms])
qed

lemma mq_poll_messages:
  assumes "db_works env" and "\<forall>m \<in> set ms. present m"
  shows "mq_poll env action (Some (map Inr ms)) lg db =
     (Done, Some (map Inr (drop (MAXCOUNT + 1) ms)),
      push_lines env (map log_line (take MAXCOUNT ms)) lg,
      run_actions env (actions_of action (take MAXCOUNT ms)) db)"
proof (cases ms)
  case Nil
  then show ?thesis by (simp add: mq_poll_def mq_loop.simps [of env] no_message_def)
next
  case (Cons m ms')
  with assms(2) show ?thesis
    by (simp add: mq_poll_def mq_loop_messages [OF assms(1)])
qed

text \<open>What the loop does to the message log, whatever the broker answers.\<close>

lemma mq_loop_log:
  "mq_loop env action stop m q lg db = (r, q', lg', db') \<Longrightarrow> \<exists>ls. lg' = push_lines env ls lg"
proof (induction stop arbitrary: m q lg db r)
  case 0
  then have "lg' = push_lines env [] lg" by (auto simp: mq_loop.simps [of env] split: if_splits)
  then show ?case by blast
next
  case (Suc stop)
  let ?lg = "be_push env 100 lg (log_line m)"
  obtain r1 db1 where act: "(case action m of None \<Rightarrow> (Ok (), db) | Some a \<Rightarrow> be_act env a db) = (r1, db1)"
    by fastforce
  have step: "\<exists>ls. lg' = push_lines env ls ?lg \<Longrightarrow> ?case"
    using push_lines_simps(2) by metis
  show ?case
  proof (cases "- 1 < m_count m")
    case False
    with Suc.prems have "lg' = push_lines env [] lg" by (simp add: mq_loop.simps [of env])
    then show ?thesis by blast
  next
    case True
    show ?thesis
    proof (cases r1)
      case (Ok u)
      obtain a q1 where get: "queue_get q = (a, q1)" by fastforce
      show ?thesis
      proof (cases a)
        case (Inl ex)
        with True Ok act get Suc.prems have "lg' = push_lines env [] ?lg"
          by (simp add: mq_loop.simps [of env] Let_def)
        with step show ?thesis by blast
      next
        case (Inr m')
        with True Ok act get Suc.prems have "mq_loop env action stop m' q1 ?lg db1 = (r, q', lg', db')"
          by (simp add: mq_loop.simps [of env _ _ m] Let_def)
        from Suc.IH [OF this] step show ?thesis by blast
      qed
    next
      case (Throw e)
      with True act Suc.prems have "lg' = push_lines env [] ?lg"
        by (simp add: mq_loop.simps [of env] Let_def)
      with step show ?thesis by blast
    next
      case (Fault x)
      with True act Suc.prems have "lg' = push_lines env [] ?lg"
        by (simp add: mq_loop.simps [of env] Let_def)
      with step show ?thesis by blast
    qed
  qed
qed

lemma mq_poll_log:
  assumes "mq_poll env action q lg db = (r, q', lg', db')"
  shows "\<exists>ls. lg' = push_lines env ls lg"
proof -
  have "lg' = lg \<Longrightarrow> ?thesis" using push_lines_simps(1) by metis
  with assms show ?thesis
    by (auto simp: mq_poll_def dest: mq_loop_log split: option.splits prod.splits sum.splits)
qed

lemma ProcessMQ_log:
  "\<exists>ls. b_mq_log (snd (BaseCore_ProcessMQ env now b)) = push_lines env ls (b_mq_log b)"
proof -
  obtain r1 q1 lg1 db1 where 1: "mq_poll env informer_action (b_mq_informer b) (b_mq_log b) (b_db b) =
      (r1, q1, lg1, db1)" by (metis prod_cases4)
  obtain r2 q2 lg2 db2 where 2: "mq_poll env account_action (b_mq_account b) lg1 db1 = (r2, q2, lg2, db2)"
    by (metis prod_cases4)
  obtain ls1 ls2 where lg1: "lg1 = push_lines env ls1 (b_mq_log b)"
    and lg2: "lg2 = push_lines env ls2 lg1"
    using mq_poll_log [OF 1] mq_poll_log [OF 2] by blast
  have lg12: "lg2 = push_lines env (ls1 @ ls2) (b_mq_log b)" using lg1 lg2 by simp
  have caught: "be_push env 100 (push_lines env ls lg) x = push_lines env (ls @ [x]) lg" for ls lg x by simp
  show ?thesis
  proof (cases r1)
    case Done
    then show ?thesis
      using lg12 caught by (cases r2)
        (auto simp: BaseCore_ProcessMQ_def 1 2 Let_def mq_caught_def simp del: push_lines_simps)
  qed (use lg1 caught in \<open>auto simp: BaseCore_ProcessMQ_def 1 Let_def mq_caught_def simp del: push_lines_simps\<close>)
qed

text \<open>The ring buffer as documented: \<^verbatim>\<open>push_back\<close> on a full buffer drops the oldest.\<close>

definition ring_documented :: "(nat \<Rightarrow> string list \<Rightarrow> string \<Rightarrow> string list) \<Rightarrow> bool" where
  "ring_documented push \<longleftrightarrow>
     (\<forall>n xs x. 0 < n \<longrightarrow> push n xs x = (if length xs < n then xs @ [x] else tl xs @ [x]))"

definition ref_push :: "nat \<Rightarrow> string list \<Rightarrow> string \<Rightarrow> string list" where
  "ref_push n xs x = (if n = 0 then [] else if length xs < n then xs @ [x] else tl xs @ [x])"

lemma ref_push_documented: "ring_documented ref_push"
  by (simp add: ring_documented_def ref_push_def)

lemma push_lines_bounded:
  assumes "ring_documented (be_push env)"
  shows "length lg \<le> 100 \<Longrightarrow> length (push_lines env ls lg) \<le> 100"
  using assms by (induction ls arbitrary: lg) (auto simp: ring_documented_def)

lemma push_lines_last:
  assumes "ring_documented (be_push env)"
  shows "length lg \<le> 100 \<Longrightarrow>
     push_lines env ls lg = drop (length (lg @ ls) - 100) (lg @ ls)"
proof (induction ls arbitrary: lg)
  case Nil
  then show ?case by simp
next
  case (Cons l ls)
  show ?case
  proof (cases "length lg < 100")
    case True
    then show ?thesis using assms Cons.IH [of "lg @ [l]"] by (simp add: ring_documented_def)
  next
    case False
    with Cons.prems obtain x xs where lg: "lg = x # xs" "length xs = 99"
      by (cases lg) auto
    with assms Cons.IH [of "xs @ [l]"] show ?thesis by (simp add: ring_documented_def)
  qed
qed

section \<open>A concrete environment\<close>

text \<open>The database of the witnesses is the list of the actions performed on it.\<close>

definition trace_env :: "config \<Rightarrow> db_action list base_env" where
  "trace_env cfg =
     \<lparr>be_cfg = cfg, be_reopen = False, be_act = (\<lambda>a db. (Ok (), db @ [a])), be_push = ref_push,
      be_show_time = (\<lambda>_. ''''), be_show_double = (\<lambda>_. ''''), be_build = ''''\<rparr>"

definition idle_core :: "queue option \<Rightarrow> queue option \<Rightarrow> db_action list basecore" where
  "idle_core qi qa =
     \<lparr>b_started = 0, b_mq_check = None, b_amqp = True, b_mq_informer = qi, b_mq_account = qa,
      b_mq_log = [], b_last_accessed = None, b_clog = '''', b_db = []\<rparr>"

lemma trace_env_works: "db_works (trace_env cfg)"
  by (simp add: db_works_def trace_env_def)

lemma run_actions_trace: "run_actions (trace_env cfg) as db = db @ as"
  by (induction as arbitrary: db) (simp_all add: trace_env_def)

section \<open>Properties\<close>

text \<open>C11: a round of message processing performs, in order, the operation of each of the first
  thousand messages of either queue (block messages before account messages), and only these, when
  the broker and the database work. Of a longer queue it takes 1001 messages: the last one has
  been fetched without acknowledgement when the counter stops the loop, and its operation is
  never performed.\<close>
theorem ProcessMQ_messages:
  assumes "db_works env" and "\<forall>m \<in> set ms. present m" and "\<forall>m \<in> set ms'. present m"
    and "b_mq_informer b = Some (map Inr ms)" and "b_mq_account b = Some (map Inr ms')"
  shows "\<exists>b'. BaseCore_ProcessMQ env now b = (Ok False, b') \<and>
     b_db b' = run_actions env (actions_of informer_action (take 1000 ms) @
                                actions_of account_action (take 1000 ms')) (b_db b) \<and>
     b_mq_informer b' = Some (map Inr (drop 1001 ms)) \<and>
     b_mq_account b' = Some (map Inr (drop 1001 ms'))"
  using mq_poll_messages [OF assms(1,2)] mq_poll_messages [OF assms(1,3)]
  by (simp add: BaseCore_ProcessMQ_def assms(4,5) MAXCOUNT_def)

theorem ProcessMQ_messages_witness:
  "\<exists>b'. BaseCore_ProcessMQ (trace_env (sample_config '''' ''''))  5
       (idle_core (Some (map Inr (replicate 1001 \<lparr>m_count = 0, m_key = ''informer.update'', m_body = ''g''\<rparr>)))
                  (Some [])) = (Ok False, b') \<and>
     length (b_db b') = 1000 \<and> b_mq_informer b' = Some []"
proof -
  let ?m = "\<lparr>m_count = 0, m_key = ''informer.update'', m_body = ''g''\<rparr>"
  have len: "length (actions_of informer_action (replicate n ?m)) = n" for n
    by (induction n) (simp_all add: informer_action_def)
  show ?thesis
    using ProcessMQ_messages [OF trace_env_works, of "replicate 1001 ?m" "[]"
        "idle_core (Some (map Inr (replicate 1001 ?m))) (Some [])" "sample_config '''' ''''" 5]
    by (auto simp: present_def idle_core_def run_actions_trace len)
qed

text \<open>The message log never holds more than a hundred lines, whatever the broker and the
  database answer: every round leaves the last hundred of the lines written so far.\<close>
theorem ProcessMQ_log_bounded:
  assumes "ring_documented (be_push env)" and "length (b_mq_log b) \<le> 100"
  shows "length (b_mq_log (snd (BaseCore_ProcessMQ env now b))) \<le> 100 \<and>
     (\<exists>ls. let all = b_mq_log b @ ls in
        b_mq_log (snd (BaseCore_ProcessMQ env now b)) = drop (length all - 100) all)"
proof -
  obtain ls where "b_mq_log (snd (BaseCore_ProcessMQ env now b)) = push_lines env ls (b_mq_log b)"
    using ProcessMQ_log by blast
  then show ?thesis
    using push_lines_bounded [OF assms] push_lines_last [OF assms] unfolding Let_def by auto
qed

theorem ProcessMQ_log_bounded_witness:
  "length (b_mq_log (snd (BaseCore_ProcessMQ (trace_env (sample_config '''' '''')) 5
     (idle_core (Some [Inl ''broken'']) None)))) \<le> 100"
  using ProcessMQ_log_bounded [of "trace_env (sample_config '''' '''')" "idle_core (Some [Inl ''broken'']) None" 5]
  by (simp add: ref_push_documented trace_env_def idle_core_def)



section \<open>The status page\<close>

lemma sint_small: "0 \<le> d \<Longrightarrow> d < 2 ^ 31 \<Longrightarrow> sint (word_of_int d :: u32) = d"
  by (simp add: sint_sbintrunc' signed_take_bit_int_eq_self)

lemma mod_shift: "- n \<le> s \<Longrightarrow> s < 0 \<Longrightarrow> s mod n = s + n" for s n :: int
  by (metis add.commute add_neg_numeral_special(7) diff_add_cancel diff_ge_0_iff_ge mod_add_self2
      mod_pos_pos_trivial add_less_same_cancel2 diff_minus_eq_add)

lemma sint_wrapped: "2 ^ 31 \<le> d \<Longrightarrow> d < 2 ^ 32 \<Longrightarrow> sint (word_of_int d :: u32) = d - 2 ^ 32"
proof -
  assume d: "2 ^ 31 \<le> d" "d < 2 ^ 32"
  have "(d + 2 ^ 31) mod 2 ^ 32 = (d + 2 ^ 31 - 2 ^ 32) mod 2 ^ 32"
    by (rule minus_mod_self2 [symmetric])
  also have "\<dots> = d + 2 ^ 31 - 2 ^ 32" using d by (intro mod_pos_pos_trivial) auto
  finally show ?thesis by (simp add: int_word_sint)
qed

lemma millisecs_small:
  assumes "since \<le> now" and "now - since < 2 ^ 31"
  shows "unat (scast (millisecs now since) :: u64) = nat (now - since)"
    "millisecs now since = 0 \<longleftrightarrow> now = since"
proof -
  have s: "sint (millisecs now since) = now - since"
    unfolding millisecs_def using assms by (intro sint_small) auto
  then show "unat (scast (millisecs now since) :: u64) = nat (now - since)"
    using assms
    by (simp only: scast_eq unat_eq_nat_uint uint_word_of_int_eq s) (simp add: take_bit_int_eq_self)
  show "millisecs now since = 0 \<longleftrightarrow> now = since"
    using s by (metis diff_self eq_iff_diff_eq_0 signed_0 signed_word_eqI)
qed

lemma ucast_of_unat: "(ucast (w :: u64) :: u32) = word_of_nat (unat w)"
  by simp

lemma per_second_exact:
  assumes "unat requests * 1000 < 2 ^ 64" and "since < now" and "now - since < 2 ^ 31"
    and "unat requests * 1000 div nat (now - since) < 2 ^ 31"
  shows "sint (per_second requests (millisecs now since)) =
     int (unat requests * 1000 div nat (now - since))"
proof -
  let ?q = "unat requests * 1000 div nat (now - since)"
  have mult: "unat (requests * 1000) = unat requests * 1000"
    using assms(1) unat_mult_lem [of requests 1000] by simp
  then have q: "unat (requests * 1000 div scast (millisecs now since)) = ?q"
    using millisecs_small(1) [of since now] assms(2,3) by (simp add: unat_div_distrib)
  have "per_second requests (millisecs now since) =
      ucast (requests * 1000 div scast (millisecs now since))"
    using millisecs_small(2) [of since now] assms(2,3) by (simp add: per_second_def)
  also have "\<dots> = word_of_nat ?q"
    by (simp only: ucast_of_unat q)
  also have "\<dots> = word_of_int (int ?q)"
    by simp
  finally show ?thesis
    using assms(4) sint_small [of "int ?q"] by simp
qed

lemma millisecs_wrapped:
  assumes "2 ^ 31 \<le> now - since" and "now - since < 2 ^ 32"
  shows "millisecs now since \<noteq> 0" "2 ^ 63 \<le> unat (scast (millisecs now since) :: u64)"
proof -
  have s: "sint (millisecs now since) = now - since - 2 ^ 32"
    unfolding millisecs_def using assms by (rule sint_wrapped)
  then show "millisecs now since \<noteq> 0" using assms by auto
  have "uint (scast (millisecs now since) :: u64) = (now - since - 2 ^ 32) mod 2 ^ 64"
    by (simp only: scast_eq uint_word_of_int_eq s take_bit_eq_mod) simp
  also have "\<dots> = now - since - 2 ^ 32 + 2 ^ 64"
    using assms by (intro mod_shift) auto
  finally have "int (2 ^ 63) \<le> uint (scast (millisecs now since) :: u64)"
    using assms(1) by simp
  then show "2 ^ 63 \<le> unat (scast (millisecs now since) :: u64)"
    by (simp only: unat_eq_nat_uint nat_int_comparison(3) nat_0_le uint_ge_0)
qed

text \<open>A time span of 2^31 to 2^32 milliseconds (24.8 to 49.7 days) is negative as an int.\<close>

lemma per_second_wrapped:
  assumes "2 ^ 31 \<le> now - since" and "now - since < 2 ^ 32" and "unat requests * 1000 < 2 ^ 63"
  shows "per_second requests (millisecs now since) = 0"
proof -
  have "unat (requests * 1000) = unat requests * 1000"
    using assms(3) unat_mult_lem [of requests 1000] by simp
  then have "unat (requests * 1000 div scast (millisecs now since)) = 0"
    using millisecs_wrapped(2) [OF assms(1,2)] assms(3) by (simp only: unat_div_distrib) (simp add: div_less)
  then have "requests * 1000 div scast (millisecs now since) = 0" by (simp only: unat_eq_0)
  then show ?thesis by (simp add: per_second_def)
qed

text \<open>C25: the rates of the status page. Up to 24.8 days after the previous look (and the start),
  and while the counts fit, they are the exact quotients, requests per second rounded down, and the
  next look counts from here. Between 24.8 and 49.7 days after the start the cut time difference is
  negative and the average is shown as 0, whatever was served.\<close>
theorem Status_rates:
  assumes "previous = (case b_last_accessed b of None \<Rightarrow> b_started b | Some t \<Rightarrow> t)"
    and "new_requests = request_processed g - last_time_request_processed g"
    and "previous < now" and "now - previous < 2 ^ 31" and "unat new_requests * 1000 < 2 ^ 63"
    and "unat new_requests * 1000 div nat (now - previous) < 2 ^ 31"
    and "unat (request_processed g) * 1000 < 2 ^ 63" and "b_started b < now"
    and "unat (request_processed g) * 1000 div nat (now - b_started b) < 2 ^ 31"
    and "now - b_started b < 2 ^ 32"
  shows "\<exists>current average.
     BaseCore_Status env name now now_page cu cs rss g b =
       (status_body env (request_processed g) current average name now_page cu cs rss (b\<lparr>b_last_accessed := Some now\<rparr>),
        g\<lparr>last_time_request_processed := request_processed g\<rparr>, b\<lparr>b_last_accessed := Some now\<rparr>) \<and>
     sint current = int (unat new_requests * 1000 div nat (now - previous)) \<and>
     sint average = (if now - b_started b < 2 ^ 31
                     then int (unat (request_processed g) * 1000 div nat (now - b_started b)) else 0)"
proof -
  let ?cur = "per_second new_requests (millisecs now previous)"
  let ?avg = "per_second (request_processed g) (millisecs now (b_started b))"
  have "sint ?cur = int (unat new_requests * 1000 div nat (now - previous))"
    using assms(3-6) by (intro per_second_exact) auto
  moreover have "sint ?avg = (if now - b_started b < 2 ^ 31
      then int (unat (request_processed g) * 1000 div nat (now - b_started b)) else 0)"
  proof (cases "now - b_started b < 2 ^ 31")
    case True
    with assms(7-9) show ?thesis using per_second_exact [of "request_processed g" "b_started b" now] by auto
  next
    case False
    with assms(7,10) show ?thesis using per_second_wrapped [of now "b_started b" "request_processed g"] by auto
  qed
  ultimately show ?thesis
    by (intro exI [of _ ?cur] exI [of _ ?avg])
      (simp add: BaseCore_Status_def Let_def assms(1,2) [symmetric])
qed

theorem Status_rates_witness:
  "\<exists>current average.
     BaseCore_Status (trace_env (sample_config '''' '''')) ''w'' 2000 2000 0 0 0
       \<lparr>request_processed = 30, last_time_request_processed = 10\<rparr>
       (idle_core None None\<lparr>b_last_accessed := Some 1000\<rparr>) =
       (status_body (trace_env (sample_config '''' '''')) 30 current average ''w'' 2000 0 0 0
          (idle_core None None\<lparr>b_last_accessed := Some 2000\<rparr>),
        \<lparr>request_processed = 30, last_time_request_processed = 30\<rparr>,
        idle_core None None\<lparr>b_last_accessed := Some 2000\<rparr>) \<and>
     sint current = 20 \<and> sint average = 15"
  using Status_rates [OF refl refl, of "idle_core None None\<lparr>b_last_accessed := Some 1000\<rparr>" 2000
      "\<lparr>request_processed = 30, last_time_request_processed = 10\<rparr>"
      "trace_env (sample_config '''' '''')" "''w''" 2000 0 0 0]
  by (simp add: idle_core_def)

text \<open>The status page never shows the name of the server: the cell is empty while no name is
  known, and says \<^verbatim>\<open>unknown\<close> for every known name.\<close>
theorem Status_hides_server_name:
  "fst (BaseCore_Status env name now now_page cu cs rss g b) =
     fst (BaseCore_Status env (if name = '''' then '''' else ''x'') now now_page cu cs rss g b) \<and>
   server_name_cell '''' = '''' \<and> server_name_cell (c # cs') = txt_unknown"
  by (simp add: BaseCore_Status_def Let_def status_body_def server_name_cell_def)

end
