(* ===== verification/CgiService.thy ===== *)
theory CgiService
  imports Core BaseCore UrlParser Cookie
begin

text \<open>
  \<^verbatim>\<open>include/CgiService.h\<close>, \<^verbatim>\<open>src/CgiService.cpp\<close>: the FastCGI front end.
  Each worker thread accepts requests and hands them to \<open>ProcessRequest\<close>, which reads the
  environment and the body, parses the query, asks the core (or the status page), and answers.

  What the code does to the outside is the list of \<open>event\<close>s it causes. The FastCGI request is a
  record of what the library reports about it. Parameters: \<^verbatim>\<open>boost::split\<close>,
  \<^verbatim>\<open>boost::u32regex_replace\<close>, \<^verbatim>\<open>boost::to_lower\<close>, Boost's calendar, the clock,
  the names the compiler gives to exception types.
\<close>

section \<open>State and environment\<close>

text \<open>Output and the two FastCGI calls that end an answer; a line for the system log.\<close>

datatype event = Out string | Flush | Finish | Warn string | Err string

record request =
  rq_err :: int
  rq_env :: "string \<Rightarrow> string option"
  rq_in :: string

text \<open>
  What the threads share. \<open>s_leaked\<close> counts the \<^verbatim>\<open>UrlParser\<close> objects that were
  allocated and never deleted.
\<close>

record 'db service =
  s_server_name :: string
  s_base :: "'db basecore"
  s_counters :: counters
  s_leaked :: nat

record ('row, 'db, 'ptime) cgi_env =
  ce_core :: "'row env"
  ce_base :: "'db base_env"
  ce_lower :: "string \<Rightarrow> string"
  ce_split :: "string \<Rightarrow> string \<Rightarrow> string list"
  ce_strip :: "string \<Rightarrow> string outcome"
  ce_time :: "'ptime time_api"
  ce_type_name :: "exn \<Rightarrow> string"

text \<open>
  The readings of one request: the clock for the core and for the status page, \<^verbatim>\<open>time\<close>,
  the local time a year from now, the CPU statistics, and the bytes that follow the body's
  buffer in memory up to the first NUL.
\<close>

record 'ptime readings =
  rd_start :: int
  rd_end :: int
  rd_now :: int
  rd_now_page :: int
  rd_time :: int
  rd_expiry :: 'ptime
  rd_cpu_user :: rat
  rd_cpu_sys :: rat
  rd_rss :: u64
  rd_beyond :: string

abbreviation crlf :: string where
  "crlf \<equiv> [CHR 0x0D, CHR 0x0A]"

definition STDIN_MAX :: nat where
  "STDIN_MAX = 6000000"

section \<open>Answers\<close>

definition Response :: "request \<Rightarrow> string \<Rightarrow> string \<Rightarrow> event list" where
  "Response req content cookie =
    (if content = '''' then []
     else if rq_err req \<noteq> 0 then [Warn ''------------ ERROR ----------'']
     else
       [Out (''Status: 200 OK'' @ crlf),
        Out (''Content-type: text/html'' @ crlf),
        Out (''Set-Cookie: '' @ c_str cookie @ crlf),
        Out (''Pragma: no-cache'' @ crlf),
        Out (''Expires: Fri, 01 Jan 1990 00:00:00 GMT'' @ crlf),
        Out (''Cache-Control: no-cache, must-revalidate, no-cache='' @ [CHR 0x22] @ ''Set-Cookie'' @
             [CHR 0x22] @ '', private'' @ crlf),
        Out crlf,
        Out (c_str content @ crlf),
        Flush,
        Finish])"

definition Response_status :: "request \<Rightarrow> nat \<Rightarrow> event list" where
  "Response_status req status =
    (if rq_err req \<noteq> 0 then [Warn ''------------ ERROR ----------'']
     else
       [Out (''Status: '' @ dec_nat status @ '' OK'' @ crlf),
        Out (''Content-type: text/html'' @ crlf),
        Out (crlf @ crlf),
        Flush,
        Finish])"

section \<open>Reading the request\<close>

text \<open>\<^verbatim>\<open>strtol(s, &end, 10)\<close>: the value, clamped to 64 bits, and the text at \<^verbatim>\<open>end\<close>.\<close>

definition strtol10 :: "string \<Rightarrow> int \<times> string" where
  "strtol10 s =
    (let t = dropWhile is_space s;
         neg = (t \<noteq> [] \<and> hd t = CHR ''-'');
         t = (if t \<noteq> [] \<and> (hd t = CHR ''-'' \<or> hd t = CHR ''+'') then tl t else t);
         ds = takeWhile is_digit t in
     if ds = [] then (0, s)
     else
       (let v = (if neg then - int (digits_value 0 ds) else int (digits_value 0 ds)) in
        (max (- (2 ^ 63)) (min v (2 ^ 63 - 1)), dropWhile is_digit t)))"

text \<open>
  The posted data. The buffer is filled with blanks, then with what the client sent; the string
  is built from it as a C string, so it ends at a NUL of the data or else in the memory behind the
  buffer, and is then brought to the announced length.
\<close>

definition resize :: "string \<Rightarrow> nat \<Rightarrow> string" where
  "resize s n = take n s @ replicate (n - length s) (CHR 0x00)"

definition read_post :: "string \<Rightarrow> nat \<Rightarrow> string \<Rightarrow> string" where
  "read_post input content_length beyond =
    (let content = take content_length input @ replicate (content_length - length input) (CHR '' '') in
     resize (c_str (content @ beyond @ [CHR 0x00])) content_length)"

definition content_length_of :: "int \<Rightarrow> nat" where
  "content_length_of v =
    (let n = unat (word_of_int v :: u64) in if STDIN_MAX < n then STDIN_MAX else n)"

definition read_body :: "request \<Rightarrow> string \<Rightarrow> event list \<times> string" where
  "read_body req beyond =
    (case rq_env req ''CONTENT_LENGTH'' of
       None \<Rightarrow> ([], '''')
     | Some text \<Rightarrow>
        (let (v, rest) = strtol10 text;
             content_length = content_length_of v in
         (if rest \<noteq> '''' then [Warn (''Can't Parse 'CONTENT_LENGTH'' @ [CHR 0x27])] else [],
          if 0 < content_length then read_post (rq_in req) content_length beyond else '''')))"

text \<open>The cookie of the client: the last one whose text contains the configured name.\<close>

definition find_cookie :: "(string \<Rightarrow> string \<Rightarrow> string list) \<Rightarrow> string \<Rightarrow> string \<Rightarrow> string" where
  "find_cookie split name resp =
     fold
       (\<lambda>s cookie_value.
          if str_contains name s then
            (let name_value = split ''='' s in
             if length name_value = 2 then name_value ! 1 else cookie_value)
          else cookie_value)
       (split '';'' resp) ''''"

definition err_exception :: "('row, 'db, 'ptime) cgi_env \<Rightarrow> exn \<Rightarrow> string \<Rightarrow> event" where
  "err_exception env ex text =
     Err (''exception '' @ c_str (ce_type_name env ex) @ '': name: '' @ c_str ex @ '' while processing: '' @ c_str text)"

definition client_cookie :: "('row, 'db, 'ptime) cgi_env \<Rightarrow> request \<Rightarrow> int \<Rightarrow> (event list \<times> string) outcome" where
  "client_cookie env req now =
    (let raw = (case rq_env req ''HTTP_COOKIE'' of
                  None \<Rightarrow> ''''
                | Some resp \<Rightarrow> find_cookie (ce_split env) (cookie_name (e_cfg (ce_core env))) resp) in
     case (case ce_strip env raw of
             Ok v \<Rightarrow> Ok ([], v)
           | Throw ex \<Rightarrow> Ok ([err_exception env ex raw], '''')
           | Fault x \<Rightarrow> Fault x) of
       Ok (evs, v) \<Rightarrow> Ok (evs, if v = '''' then dec_int now else v)
     | Throw ex \<Rightarrow> Throw ex
     | Fault x \<Rightarrow> Fault x)"

section \<open>One request\<close>

text \<open>The result of a request: \<open>None\<close> if the query parser does not return.\<close>

type_synonym 'db result = "(unit outcome \<times> event list \<times> 'db service \<times> core) option"

definition request_params :: "('row, 'db, 'ptime) cgi_env \<Rightarrow> params \<Rightarrow> string \<Rightarrow> string \<Rightarrow> params_map \<Rightarrow> params" where
  "request_params env junk query postq url =
     Params_test_mode (UrlParser_param url ''test'' = ''true'')
       (Params_region (UrlParser_param url ''region'')
         (Params_country (UrlParser_param url ''country'')
           (Params_informer_id (ce_lower env) (UrlParser_param url ''scr'')
             (Params_post postq (Params_get query (Params_new junk))))))"

definition response_cookie :: "('row, 'db, 'ptime) cgi_env \<Rightarrow> string \<Rightarrow> 'ptime \<Rightarrow> string outcome" where
  "response_cookie env cookie_value expiry =
    (let cfg = e_cfg (ce_core env) in
     obind (Expires_ptime (ce_time env) expiry) (\<lambda>e.
       Ok (Cookie_to_string
             (Cookie_name_value_credentials (cookie_name cfg) cookie_value
               (Credentials_authority_path_expires (Authority_string (cookie_domain cfg))
                 (Path_string (cookie_path cfg)) e)))))"

text \<open>
  The second \<^verbatim>\<open>try\<close> block: the core's page, the cookie, the answer, the clean-up. Its
  handler answers 503 and cleans nothing up.
\<close>

definition answer_request ::
  "('row, 'db, 'ptime) cgi_env \<Rightarrow> 'ptime readings \<Rightarrow> request \<Rightarrow> string \<Rightarrow> string \<Rightarrow> params_map \<Rightarrow> params \<Rightarrow>
   'db service \<Rightarrow> core \<Rightarrow> unit outcome \<times> event list \<times> 'db service \<times> core" where
  "answer_request env rd req query cookie_value url prm svc core =
    (let failed = (\<lambda>ex core.
           (Ok (), err_exception env ex query # Response_status req 503,
            svc\<lparr>s_leaked := s_leaked svc + 2\<rparr>, core));
         (result, core) =
           (if UrlParser_param url ''show'' = ''usercode''
            then Core_UserCode (ce_core env) (rd_start rd) prm core
            else Core_Process (ce_core env) (rd_start rd) (rd_end rd) prm core) in
     case result of
       Throw ex \<Rightarrow> failed ex core
     | Fault x \<Rightarrow> (Fault x, [], svc, core)
     | Ok html \<Rightarrow>
        (case response_cookie env cookie_value (rd_expiry rd) of
           Throw ex \<Rightarrow> failed ex core
         | Fault x \<Rightarrow> (Fault x, [], svc, core)
         | Ok cookie \<Rightarrow>
            (let evs =
                   (if html = '''' then Err (''empty request '' @ c_str query @ '': '') # Response_status req 500
                    else Response req html cookie);
                 (r, g, core) = Core_ProcessClean (ce_core env) (s_counters svc) core;
                 svc = svc\<lparr>s_counters := g\<rparr> in
             case r of
               Throw ex \<Rightarrow>
                 (Ok (), evs @ err_exception env ex query # Response_status req 503,
                  svc\<lparr>s_leaked := s_leaked svc + 2\<rparr>, core)
             | Fault x \<Rightarrow> (Fault x, evs, svc, core)
             | Ok _ \<Rightarrow> (Ok (), evs, svc, core))))"

definition answer_status ::
  "('row, 'db, 'ptime) cgi_env \<Rightarrow> 'ptime readings \<Rightarrow> request \<Rightarrow> 'db service \<Rightarrow> event list \<times> 'db service" where
  "answer_status env rd req svc =
    (let svc =
           (if s_server_name svc = '''' then
              (case rq_env req ''SERVER_NAME'' of
                 None \<Rightarrow> svc | Some name \<Rightarrow> svc\<lparr>s_server_name := name\<rparr>)
            else svc);
         (page, g, b) =
           BaseCore_Status (ce_base env) (s_server_name svc) (rd_now rd) (rd_now_page rd)
             (rd_cpu_user rd) (rd_cpu_sys rd) (rd_rss rd) (s_counters svc) (s_base svc) in
     (Response req page '''', svc\<lparr>s_counters := g, s_base := b, s_leaked := s_leaked svc + 2\<rparr>))"

definition dispatch_request ::
  "('row, 'db, 'ptime) cgi_env \<Rightarrow> 'ptime readings \<Rightarrow> params \<Rightarrow> request \<Rightarrow> string \<Rightarrow> string \<Rightarrow> string \<Rightarrow>
   'db service \<Rightarrow> core \<Rightarrow> 'db result" where
  "dispatch_request env rd junk req query postq cookie_value svc core =
    (case (UrlParser_parse query, UrlParser_parse postq) of
       (Some (Ok url), Some (Ok post)) \<Rightarrow>
         Some
          (if UrlParser_param url ''show'' = ''status'' then
             (case answer_status env rd req svc of (evs, svc) \<Rightarrow> (Ok (), evs, svc, core))
           else
             answer_request env rd req query cookie_value url
               (request_params env junk query postq url) svc core)
     | (Some (Throw ex), _) \<Rightarrow> Some (Throw ex, [], svc, core)
     | (Some (Fault x), _) \<Rightarrow> Some (Fault x, [], svc, core)
     | (Some (Ok _), Some (Throw ex)) \<Rightarrow> Some (Throw ex, [], svc, core)
     | (Some (Ok _), Some (Fault x)) \<Rightarrow> Some (Fault x, [], svc, core)
     | _ \<Rightarrow> None)"

definition with_events :: "event list \<Rightarrow> 'db result \<Rightarrow> 'db result" where
  "with_events evs = map_option (\<lambda>(r, evs', svc, core). (r, evs @ evs', svc, core))"

definition ProcessRequest ::
  "('row, 'db, 'ptime) cgi_env \<Rightarrow> 'ptime readings \<Rightarrow> params \<Rightarrow> request \<Rightarrow> 'db service \<Rightarrow> core \<Rightarrow> 'db result" where
  "ProcessRequest env rd junk req svc core =
    (if rq_err req \<noteq> 0 then Some (Ok (), [Warn ''------------ ERROR ----------''], svc, core)
     else
       case rq_env req ''QUERY_STRING'' of
         None \<Rightarrow> Some (Ok (), [Warn ''query string is not set''], svc, core)
       | Some query \<Rightarrow>
          (case read_body req (rd_beyond rd) of
             (evs, postq) \<Rightarrow>
               (case rq_env req ''REMOTE_ADDR'' of
                  None \<Rightarrow> Some (Ok (), evs @ [Warn ''remote address is not set''], svc, core)
                | Some ip \<Rightarrow>
                   (case rq_env req ''SCRIPT_NAME'' of
                      None \<Rightarrow> Some (Ok (), evs @ [Warn ''script name is not set''], svc, core)
                    | Some script_name \<Rightarrow>
                       (case client_cookie env req (rd_time rd) of
                          Throw ex \<Rightarrow> Some (Throw ex, evs, svc, core)
                        | Fault x \<Rightarrow> Some (Fault x, evs, svc, core)
                        | Ok (evs', cookie_value) \<Rightarrow>
                            with_events (evs @ evs')
                              (dispatch_request env rd junk req query postq cookie_value svc core))))))"

section \<open>A worker thread\<close>

text \<open>
  \<^verbatim>\<open>Serve\<close> on the requests it accepts, in order, until accepting fails. The core is
  replaced once, after the request numbered 10000000; the old one is deleted without deleting the
  block it may still point to.
\<close>

fun serve_loop ::
  "('row, 'db, 'ptime) cgi_env \<Rightarrow> params \<Rightarrow> u32 \<Rightarrow> ('ptime readings \<times> request) list \<Rightarrow> 'db service \<Rightarrow> core \<Rightarrow>
   'db result" where
  "serve_loop env junk count_req [] svc core = Some (Ok (), [], svc, core)"
| "serve_loop env junk count_req ((rd, req) # reqs) svc core =
    (case ProcessRequest env rd junk req svc core of
       Some (Ok _, evs, svc, core) \<Rightarrow>
         (let core = (if count_req = 10000000 then Core_new (e_tid (ce_core env)) else core) in
          with_events evs (serve_loop env junk (count_req + 1) reqs svc core))
     | r \<Rightarrow> r)"

definition Serve ::
  "('row, 'db, 'ptime) cgi_env \<Rightarrow> params \<Rightarrow> ('ptime readings \<times> request) list \<Rightarrow> 'db service \<Rightarrow> 'db result" where
  "Serve env junk reqs svc = serve_loop env junk 0 reqs svc (Core_new (e_tid (ce_core env)))"

end
