(* ===== verification/CgiSpec.thy ===== *)
theory CgiSpec
  imports CgiService CoreSpec BaseCoreSpec
begin

text \<open>
  What the front end promises: every request is answered at most once and its processing returns,
  the cookie it sets cannot break out of its header, the posted data does not depend on foreign
  memory, and a worker thread neither faults nor keeps blocks over any sequence of requests; and
  what is lost when rendering throws.
\<close>

section \<open>The answer\<close>

definition finishes :: "event list \<Rightarrow> nat" where
  "finishes evs = count_list evs Finish"

definition is_output :: "event \<Rightarrow> bool" where
  "is_output e \<longleftrightarrow> (case e of Out _ \<Rightarrow> True | Flush \<Rightarrow> True | Finish \<Rightarrow> True | _ \<Rightarrow> False)"

text \<open>An answer: log lines, then output that is flushed and finished, or no output at all.\<close>

definition well_answered :: "event list \<Rightarrow> bool" where
  "well_answered evs \<longleftrightarrow>
     (let out = filter is_output evs in
      out = [] \<or> (\<exists>texts. out = map Out texts @ [Flush, Finish] \<and> texts \<noteq> []))"

lemma well_answered_log:
  "\<not> is_output e \<Longrightarrow> well_answered (e # evs) = well_answered evs"
  "filter is_output evs' = [] \<Longrightarrow> well_answered (evs' @ evs) = well_answered evs"
  by (simp_all add: well_answered_def)

lemma well_answered_Nil: "well_answered []"
  by (simp add: well_answered_def)

lemma outs_then_finish:
  "texts \<noteq> [] \<Longrightarrow> well_answered (map Out texts @ [Flush, Finish])"
  by (auto simp: well_answered_def is_output_def o_def)

lemma Response_texts:
  "\<exists>texts. texts \<noteq> [] \<and> (Response req content cookie = map Out texts @ [Flush, Finish] \<or>
     filter is_output (Response req content cookie) = [])"
proof -
  let ?texts = "[''Status: 200 OK'' @ crlf, ''Content-type: text/html'' @ crlf,
    ''Set-Cookie: '' @ c_str cookie @ crlf, ''Pragma: no-cache'' @ crlf,
    ''Expires: Fri, 01 Jan 1990 00:00:00 GMT'' @ crlf,
    ''Cache-Control: no-cache, must-revalidate, no-cache='' @ [CHR 0x22] @ ''Set-Cookie'' @
      [CHR 0x22] @ '', private'' @ crlf, crlf, c_str content @ crlf]"
  show ?thesis by (rule exI [of _ ?texts]) (simp add: Response_def is_output_def)
qed

lemma well_answered_Response: "well_answered (Response req content cookie)"
  using Response_texts [of req content cookie] outs_then_finish by (auto simp: well_answered_def)

lemma well_answered_status: "well_answered (Response_status req status)"
  using outs_then_finish [of "[''Status: '' @ dec_nat status @ '' OK'' @ crlf,
      ''Content-type: text/html'' @ crlf, crlf @ crlf]"]
  by (simp add: Response_status_def well_answered_def is_output_def)

lemma well_answered_finishes: "well_answered evs \<Longrightarrow> finishes evs \<le> 1"
proof -
  have "count_list evs Finish = count_list (filter is_output evs) Finish"
    by (induction evs) (auto simp: is_output_def)
  moreover have "count_list (map Out texts) Finish = 0" for texts
    by (induction texts) auto
  ultimately show "well_answered evs \<Longrightarrow> finishes evs \<le> 1"
    by (auto simp: well_answered_def finishes_def Let_def count_list_append)
qed

section \<open>The clean-up never throws\<close>

lemma deref_not_Throw: "deref p \<noteq> Throw e"
  by (cases p) auto

lemma log_not_Throw: "fst (Core_log env c) \<noteq> Throw e"
  by (cases "deref (c_informer c)")
    (auto simp: Core_log_def Let_def clog_fields deref_not_Throw split: option.splits)

lemma clean_not_Throw: "fst (Core_ProcessClean env g c) \<noteq> Throw e"
proof -
  obtain r c' where l: "Core_log env c = (r, c')" by fastforce
  with log_not_Throw [of env c e] show ?thesis
    by (cases r; cases "c_informer c'") (simp_all add: Core_ProcessClean_def Core_clear_def Let_def)
qed

lemma well_answered_request:
  "case answer_request env rd req query cv url prm svc core of (r, evs, svc', core') \<Rightarrow> well_answered evs"
proof -
  obtain result core1 where run:
    "(if UrlParser_param url ''show'' = ''usercode''
      then Core_UserCode (ce_core env) (rd_start rd) prm core
      else Core_Process (ce_core env) (rd_start rd) (rd_end rd) prm core) = (result, core1)"
    by fastforce
  obtain r g core2 where clean: "Core_ProcessClean (ce_core env) (s_counters svc) core1 = (r, g, core2)"
    by (metis prod_cases3)
  with clean_not_Throw [of "ce_core env" "s_counters svc" core1] have r: "r \<noteq> Throw e" for e
    by (metis fst_conv)
  have err: "\<not> is_output (err_exception env ex t)" "\<not> is_output (Err t)" for ex t
    by (simp_all add: err_exception_def is_output_def)
  show ?thesis
    unfolding answer_request_def run Let_def
    by (auto simp: clean r well_answered_log(1) err
        well_answered_status well_answered_Response well_answered_Nil split: outcome.splits)
qed

section \<open>Processing returns\<close>

lemma length_resize: "length (resize s n) = n"
  by (simp add: resize_def)

lemma length_read_post: "length (read_post inp n beyond) = n"
  by (simp add: read_post_def length_resize)

lemma length_read_body: "length (snd (read_body req beyond)) \<le> STDIN_MAX"
  by (auto simp: read_body_def length_read_post content_length_of_def Let_def split: option.splits prod.splits)

lemma parse_returns:
  assumes "length q < 2 ^ 63"
  obtains ps where "UrlParser_parse q = Some (Ok ps)"
  using UrlParser_parse_pairs [OF assms] by blast

definition short_query :: "request \<Rightarrow> bool" where
  "short_query req \<longleftrightarrow> (case rq_env req ''QUERY_STRING'' of None \<Rightarrow> True | Some q \<Rightarrow> length q < 2 ^ 63)"

lemma dispatch_cases:
  assumes "length query < 2 ^ 63" and "length postq \<le> STDIN_MAX"
  obtains url where "UrlParser_parse query = Some (Ok url)"
    and "dispatch_request env rd junk req query postq cv svc core =
      Some (if UrlParser_param url ''show'' = ''status''
            then (case answer_status env rd req svc of (evs, svc) \<Rightarrow> (Ok (), evs, svc, core))
            else answer_request env rd req query cv url (request_params env junk query postq url) svc core)"
proof -
  obtain url where url: "UrlParser_parse query = Some (Ok url)" using assms(1) by (rule parse_returns)
  have "length postq < 2 ^ 63" using assms(2) by (simp add: STDIN_MAX_def)
  then obtain post where "UrlParser_parse postq = Some (Ok post)" by (rule parse_returns)
  with url that show thesis by (simp add: dispatch_request_def)
qed

text \<open>What comes before the dispatch never produces output.\<close>

lemma read_body_silent: "filter is_output (fst (read_body req beyond)) = []"
  by (auto simp: read_body_def is_output_def Let_def split: option.splits prod.splits)

lemma client_cookie_silent:
  "client_cookie env req now = Ok (evs, v) \<Longrightarrow> filter is_output evs = []"
  by (auto simp: client_cookie_def err_exception_def is_output_def Let_def split: outcome.splits)

lemma client_cookie_not_Throw: "client_cookie env req now \<noteq> Throw e"
  by (auto simp: client_cookie_def Let_def split: outcome.splits)

text \<open>
  The requests that get past the checks of the environment, with the query, the body and the
  cookie they are dispatched with.
\<close>

definition refused :: "request \<Rightarrow> bool" where
  "refused req \<longleftrightarrow>
     rq_err req \<noteq> 0 \<or> rq_env req ''QUERY_STRING'' = None \<or> rq_env req ''REMOTE_ADDR'' = None \<or>
     rq_env req ''SCRIPT_NAME'' = None"

lemma ProcessRequest_refused:
  assumes "refused req"
  shows "\<exists>evs. ProcessRequest env rd junk req svc core = Some (Ok (), evs, svc, core) \<and>
     filter is_output evs = []"
  using assms read_body_silent [of req "rd_beyond rd"]
  by (auto simp: refused_def ProcessRequest_def is_output_def split: option.splits prod.splits)

lemma ProcessRequest_dispatched:
  assumes "\<not> refused req"
  obtains query evs postq where "rq_env req ''QUERY_STRING'' = Some query"
    and "filter is_output evs = []" and "length postq \<le> STDIN_MAX"
    and "ProcessRequest env rd junk req svc core =
      (case client_cookie env req (rd_time rd) of
         Throw ex \<Rightarrow> Some (Throw ex, evs, svc, core)
       | Fault x \<Rightarrow> Some (Fault x, evs, svc, core)
       | Ok (evs', cv) \<Rightarrow> with_events (evs @ evs') (dispatch_request env rd junk req query postq cv svc core))"
proof -
  from assms obtain query ip script where req: "rq_err req = 0" "rq_env req ''QUERY_STRING'' = Some query"
      "rq_env req ''REMOTE_ADDR'' = Some ip" "rq_env req ''SCRIPT_NAME'' = Some script"
    by (auto simp: refused_def)
  obtain evs postq where body: "read_body req (rd_beyond rd) = (evs, postq)" by fastforce
  then have "filter is_output evs = []" "length postq \<le> STDIN_MAX"
    using read_body_silent [of req "rd_beyond rd"] length_read_body [of req "rd_beyond rd"] by simp_all
  with req body that show thesis by (simp add: ProcessRequest_def)
qed

lemma well_answered_silent:
  "filter is_output evs = [] \<Longrightarrow> well_answered evs"
  by (simp add: well_answered_def)

lemma well_answered_dispatch:
  assumes "length query < 2 ^ 63" and "length postq \<le> STDIN_MAX"
  shows "\<exists>r evs svc' core'. dispatch_request env rd junk req query postq cv svc core = Some (r, evs, svc', core') \<and>
     well_answered evs"
proof -
  obtain url where d: "dispatch_request env rd junk req query postq cv svc core =
      Some (if UrlParser_param url ''show'' = ''status''
            then (case answer_status env rd req svc of (evs, svc) \<Rightarrow> (Ok (), evs, svc, core))
            else answer_request env rd req query cv url (request_params env junk query postq url) svc core)"
    using assms by (rule dispatch_cases)
  show ?thesis
  proof (cases "UrlParser_param url ''show'' = ''status''")
    case True
    with d show ?thesis
      by (auto simp: answer_status_def Let_def split_beta well_answered_Response)
  next
    case False
    with d well_answered_request [of env rd req query cv url "request_params env junk query postq url" svc core]
    show ?thesis by (simp split: prod.splits)
  qed
qed

lemma ProcessRequest_answers:
  assumes "short_query req"
  shows "\<exists>r evs svc' core'. ProcessRequest env rd junk req svc core = Some (r, evs, svc', core') \<and>
     well_answered evs"
proof (cases "refused req")
  case True
  then show ?thesis using ProcessRequest_refused [of req env rd junk svc core] well_answered_silent by blast
next
  case False
  then obtain query evs postq where q: "rq_env req ''QUERY_STRING'' = Some query"
    and evs: "filter is_output evs = []" and post: "length postq \<le> STDIN_MAX"
    and run: "ProcessRequest env rd junk req svc core =
      (case client_cookie env req (rd_time rd) of
         Throw ex \<Rightarrow> Some (Throw ex, evs, svc, core)
       | Fault x \<Rightarrow> Some (Fault x, evs, svc, core)
       | Ok (evs', cv) \<Rightarrow> with_events (evs @ evs') (dispatch_request env rd junk req query postq cv svc core))"
    by (rule ProcessRequest_dispatched)
  show ?thesis
  proof (cases "client_cookie env req (rd_time rd)")
    case (Ok p)
    then obtain evs' cv where c: "client_cookie env req (rd_time rd) = Ok (evs', cv)" by (cases p) simp
    have "length query < 2 ^ 63" using assms q by (simp add: short_query_def)
    then obtain r evs2 svc' core' where
      "dispatch_request env rd junk req query postq cv svc core = Some (r, evs2, svc', core')"
      and w: "well_answered evs2"
      using well_answered_dispatch post by blast
    moreover have "well_answered (evs @ evs' @ evs2)"
      using w well_answered_log(2) [OF client_cookie_silent [OF c]] well_answered_log(2) [OF evs] by simp
    ultimately show ?thesis by (simp add: run c with_events_def)
  next
    case (Throw e)
    then show ?thesis using client_cookie_not_Throw by blast
  next
    case (Fault x)
    then show ?thesis using well_answered_silent [OF evs] by (simp add: run)
  qed
qed

section \<open>Working libraries\<close>

text \<open>
  The conditions under which no request fails inside: rendering the template and printing a time
  never throw, the replacement of non-digits returns or throws, and the configuration does not ask
  for block ids in the log.
\<close>

definition cgi_works :: "('row, 'db, 'ptime) cgi_env \<Rightarrow> bool" where
  "cgi_works env \<longleftrightarrow>
     \<not> logInformerId (e_cfg (ce_core env)) \<and>
     (\<forall>a b c. \<exists>h. e_bformat (ce_core env) (template (e_cfg (ce_core env))) [a, b, c] = Ok h) \<and>
     (\<forall>t. \<exists>s. convert (ce_time env) t = Ok s) \<and>
     (\<forall>s x. ce_strip env s \<noteq> Fault x)"

definition idle :: "core \<Rightarrow> bool" where
  "idle core \<longleftrightarrow> (\<forall>blk. c_informer core \<noteq> Live blk)"

text \<open>The core's part of a request, before the clean-up.\<close>

lemma render_cases:
  assumes "cgi_works env"
  obtains (missing) html core1 where
      "(if u then Core_UserCode (ce_core env) t0 prm core else Core_Process (ce_core env) t0 t1 prm core) =
         (Ok html, core1)"
      "c_informer core1 = Null" "c_live core1 = c_live core" "c_params core1 \<noteq> None"
    | (found) html core1 blk where
      "(if u then Core_UserCode (ce_core env) t0 prm core else Core_Process (ce_core env) t0 t1 prm core) =
         (Ok html, core1)"
      "c_informer core1 = Live blk" "c_live core1 = c_live core + 1" "c_params core1 \<noteq> None"
proof (cases "found_row (ce_core env) (p_informer_id prm)")
  case None
  show thesis
    using UserCode_missing [OF None, of t0 core] Process_missing [OF None, of t0 t1 core] missing
    by (cases u) auto
next
  case (Some row)
  let ?blk = "Informer_of_row (ce_core env) row"
  obtain html where "page_of (ce_core env) ?blk prm = Ok html"
    using assms by (auto simp: cgi_works_def page_of_def) (metis obind.simps(1))
  then show thesis
    using UserCode_found [OF Some, of t0 core] Process_found [OF Some, of t0 t1 core] found
    by (cases u) auto
qed

lemma answer_request_works:
  assumes "cgi_works env"
  shows "\<exists>evs core'. answer_request env rd req query cv url prm svc core =
       (Ok (), evs,
        svc\<lparr>s_counters := (s_counters svc)\<lparr>request_processed := request_processed (s_counters svc) + 1\<rparr>\<rparr>, core') \<and>
     idle core' \<and> c_live core' = c_live core"
proof -
  obtain cookie where cookie: "response_cookie env cv (rd_expiry rd) = Ok cookie"
    using assms by (auto simp: cgi_works_def response_cookie_def Expires_ptime_def Let_def) (metis obind.simps(1))
  have nolog: "\<not> logInformerId (e_cfg (ce_core env))" using assms by (simp add: cgi_works_def)
  from assms show ?thesis
  proof (cases rule: render_cases [where u = "UrlParser_param url ''show'' = ''usercode''" and prm = prm
        and core = core and ?t0.0 = "rd_start rd" and ?t1.0 = "rd_end rd"])
    case (missing html core1)
    with clean_null [of core1 "ce_core env" "s_counters svc"] nolog show ?thesis
      by (auto simp: answer_request_def cookie Let_def idle_def)
  next
    case (found html core1 blk)
    with clean_live [of core1 blk "ce_core env" "s_counters svc"] show ?thesis
      by (auto simp: answer_request_def cookie Let_def idle_def)
  qed
qed

text \<open>The requests that are handed to the core.\<close>

definition reaches_core :: "request \<Rightarrow> bool" where
  "reaches_core req \<longleftrightarrow>
     \<not> refused req \<and>
     (case rq_env req ''QUERY_STRING'' of
        None \<Rightarrow> False
      | Some q \<Rightarrow>
         (case UrlParser_parse q of Some (Ok url) \<Rightarrow> UrlParser_param url ''show'' \<noteq> ''status'' | _ \<Rightarrow> False))"

lemma answer_status_counters:
  "request_processed (s_counters (snd (answer_status env rd req svc))) = request_processed (s_counters svc)"
  by (auto simp: answer_status_def BaseCore_Status_def Let_def split: option.splits)

lemma ProcessRequest_works:
  assumes "cgi_works env" and "short_query req"
  shows "\<exists>evs svc' core'. ProcessRequest env rd junk req svc core = Some (Ok (), evs, svc', core') \<and>
     (idle core \<longrightarrow> idle core') \<and> c_live core' = c_live core \<and>
     request_processed (s_counters svc') =
       request_processed (s_counters svc) + (if reaches_core req then 1 else 0)"
proof (cases "refused req")
  case True
  then have "\<not> reaches_core req" by (simp add: reaches_core_def)
  with ProcessRequest_refused [OF True, of env rd junk svc core] show ?thesis by auto
next
  case False
  then obtain query evs postq where q: "rq_env req ''QUERY_STRING'' = Some query"
    and post: "length postq \<le> STDIN_MAX"
    and run: "ProcessRequest env rd junk req svc core =
      (case client_cookie env req (rd_time rd) of
         Throw ex \<Rightarrow> Some (Throw ex, evs, svc, core)
       | Fault x \<Rightarrow> Some (Fault x, evs, svc, core)
       | Ok (evs', cv) \<Rightarrow> with_events (evs @ evs') (dispatch_request env rd junk req query postq cv svc core))"
    by (rule ProcessRequest_dispatched)
  have "client_cookie env req (rd_time rd) \<noteq> Fault x" for x
    using assms(1) by (auto simp: client_cookie_def cgi_works_def Let_def split: outcome.splits)
  then obtain evs' cv where cookie: "client_cookie env req (rd_time rd) = Ok (evs', cv)"
    using client_cookie_not_Throw [of env req "rd_time rd"]
    by (metis outcome.exhaust surj_pair)
  have "length query < 2 ^ 63" using assms(2) q by (simp add: short_query_def)
  then obtain url where url: "UrlParser_parse query = Some (Ok url)"
    and d: "dispatch_request env rd junk req query postq cv svc core =
      Some (if UrlParser_param url ''show'' = ''status''
            then (case answer_status env rd req svc of (evs, svc) \<Rightarrow> (Ok (), evs, svc, core))
            else answer_request env rd req query cv url (request_params env junk query postq url) svc core)"
    using post by (rule dispatch_cases)
  have reach: "reaches_core req \<longleftrightarrow> UrlParser_param url ''show'' \<noteq> ''status''"
    using False q url by (simp add: reaches_core_def)
  show ?thesis
  proof (cases "UrlParser_param url ''show'' = ''status''")
    case True
    then show ?thesis using answer_status_counters [of env rd req svc]
      by (simp add: run cookie d reach with_events_def split_beta)
  next
    case False
    with answer_request_works [OF assms(1), of rd req query cv url
        "request_params env junk query postq url" svc core]
    show ?thesis by (auto simp: run cookie d reach with_events_def)
  qed
qed

lemma serve_loop_works:
  assumes "cgi_works env"
  shows "\<forall>(rd, req) \<in> set reqs. short_query req \<Longrightarrow> idle core \<Longrightarrow> c_live core = 0 \<Longrightarrow>
     \<exists>evs svc' core'. serve_loop env junk n reqs svc core = Some (Ok (), evs, svc', core') \<and>
       idle core' \<and> c_live core' = 0 \<and>
       request_processed (s_counters svc') =
         request_processed (s_counters svc) + of_nat (length (filter (\<lambda>(rd, req). reaches_core req) reqs))"
proof (induction reqs arbitrary: n svc core)
  case Nil
  then show ?case by simp
next
  case (Cons p reqs)
  obtain rd req where p: "p = (rd, req)" by (cases p)
  with Cons.prems have "short_query req" by simp
  then obtain evs svc1 core1 where step: "ProcessRequest env rd junk req svc core = Some (Ok (), evs, svc1, core1)"
    and one: "idle core1" "c_live core1 = 0"
      "request_processed (s_counters svc1) =
         request_processed (s_counters svc) + (if reaches_core req then 1 else 0)"
    using ProcessRequest_works [OF assms, of req rd junk svc core] Cons.prems by auto
  let ?core2 = "if n = 10000000 then Core_new (e_tid (ce_core env)) else core1"
  have "idle ?core2" "c_live ?core2 = 0" using one by (simp_all add: idle_def Core_new_def)
  with Cons.IH [of ?core2 "n + 1" svc1] Cons.prems obtain evs' svc' core' where
    "serve_loop env junk (n + 1) reqs svc1 ?core2 = Some (Ok (), evs', svc', core')"
    "idle core'" "c_live core' = 0"
    "request_processed (s_counters svc') =
       request_processed (s_counters svc1) + of_nat (length (filter (\<lambda>(rd, req). reaches_core req) reqs))"
    by fastforce
  with step one(3) show ?case by (simp add: p with_events_def Let_def)
qed

section \<open>The cookie and the posted data\<close>

text \<open>
  The replacement of everything but digits as documented: it throws (on invalid UTF-8) or deletes
  what is not a digit. Splitting as documented: cut at every separator.
\<close>

definition strip_documented :: "(string \<Rightarrow> string outcome) \<Rightarrow> bool" where
  "strip_documented f \<longleftrightarrow> (\<forall>s. (\<exists>e. f s = Throw e) \<or> f s = Ok (filter is_digit s))"

fun ref_split :: "string \<Rightarrow> string \<Rightarrow> string list" where
  "ref_split seps [] = ['''']"
| "ref_split seps (c # s) =
    (if c \<in> set seps then '''' # ref_split seps s
     else case ref_split seps s of [] \<Rightarrow> [[c]] | t # ts \<Rightarrow> (c # t) # ts)"

lemma dec_int_digits: "0 \<le> i \<Longrightarrow> list_all is_digit (dec_int i) \<and> dec_int i \<noteq> ''''"
  using dec_nat_digits by (simp add: dec_int_def list_all_iff)

lemma client_cookie_digits:
  assumes "strip_documented (ce_strip env)" and "0 \<le> now"
    and "client_cookie env req now = Ok (evs, v)"
  shows "list_all is_digit v \<and> v \<noteq> ''''"
proof -
  have "list_all is_digit (filter is_digit s)" for s by (simp add: list_all_iff)
  with assms dec_int_digits [OF assms(2)] show ?thesis
    unfolding client_cookie_def Let_def strip_documented_def
    by (auto split: outcome.splits if_splits option.splits) (metis outcome.distinct(1) outcome.inject(1))+
qed

lemma c_str_append: "c_str (a @ b) = (if CHR 0x00 \<in> set a then c_str a else a @ c_str b)"
  unfolding c_str_def by (induction a) auto

lemma read_post_eq:
  "read_post inp n beyond =
     resize (c_str (take n inp @ replicate (n - length inp) (CHR '' ''))) n"
proof -
  let ?c = "take n inp @ replicate (n - length inp) (CHR '' '')"
  have len: "length ?c = n" by simp
  show ?thesis
  proof (cases "CHR 0x00 \<in> set ?c")
    case True
    then show ?thesis by (simp only: read_post_def Let_def c_str_append [of ?c] if_True)
  next
    case False
    then have "read_post inp n beyond = resize (?c @ c_str (beyond @ [CHR 0x00])) n"
      by (simp only: read_post_def Let_def c_str_append [of ?c] if_False)
    also have "\<dots> = resize ?c n" using len by (simp add: resize_def)
    finally show ?thesis by (simp only: c_str_ident [OF False])
  qed
qed

section \<open>A concrete front end\<close>

definition sample_time :: "int time_api" where
  "sample_time =
     \<lparr>time_from_string = (\<lambda>_. Throw ''bad_lexical_cast''), from_time_t = (\<lambda>t. t),
      ptime_of_fields = (\<lambda>_ _ _ _ _ _. Throw ''bad_year''), facet_format = (\<lambda>_ t. Ok (dec_int t))\<rparr>"

definition sample_cgi :: "(informer, db_action list, int) cgi_env" where
  "sample_cgi =
     \<lparr>ce_core = sample_env, ce_base = trace_env (e_cfg sample_env), ce_lower = map to_lower_char,
      ce_split = ref_split, ce_strip = (\<lambda>s. Ok (filter is_digit s)), ce_time = sample_time,
      ce_type_name = (\<lambda>_. ''St9exception'')\<rparr>"

definition sample_readings :: "int readings" where
  "sample_readings =
     \<lparr>rd_start = 0, rd_end = 1, rd_now = 1, rd_now_page = 1, rd_time = 1700000000, rd_expiry = 5,
      rd_cpu_user = 0, rd_cpu_sys = 0, rd_rss = 0, rd_beyond = ''secret''\<rparr>"

definition sample_request :: "string \<Rightarrow> string option \<Rightarrow> request" where
  "sample_request query cookie =
     \<lparr>rq_err = 0,
      rq_env = (\<lambda>k. if k = ''QUERY_STRING'' then Some query
                    else if k = ''HTTP_COOKIE'' then cookie
                    else if k = ''REMOTE_ADDR'' then Some ''10.0.0.1''
                    else if k = ''SCRIPT_NAME'' then Some ''/i'' else None),
      rq_in = ''''\<rparr>"

definition sample_service :: "db_action list service" where
  "sample_service =
     \<lparr>s_server_name = '''', s_base = idle_core None None,
      s_counters = \<lparr>request_processed = 0, last_time_request_processed = 0\<rparr>, s_leaked = 0\<rparr>"

lemma sample_format_works: "\<exists>h. ref_format (template_of sample_pieces) [a, b, c] = Ok h"
proof -
  have "takes_args sample_pieces (length [a, b, c])" using sample_takes by (simp add: eval_nat_numeral)
  then show ?thesis using ref_format_documented unfolding format_documented_def by blast
qed

lemma sample_cgi_works: "cgi_works sample_cgi"
  using sample_format_works
  by (simp add: cgi_works_def sample_cgi_def sample_cfg convert_def sample_time_def)

lemma sample_strip: "strip_documented (ce_strip sample_cgi)"
  by (simp add: strip_documented_def sample_cgi_def)

lemma sample_short: "length q < 2 ^ 63 \<Longrightarrow> short_query (sample_request q c)"
  by (simp add: short_query_def sample_request_def)

section \<open>Properties\<close>





text \<open>C7: the cookie the worker sets carries a non-empty string of digits, whatever the client sent,
  so the name and value read back from the header are the configured name and that value, and the
  header holds a line break only if the configuration does.\<close>
theorem response_cookie_safe:
  assumes "strip_documented (ce_strip env)" and "0 \<le> now"
    and "client_cookie env req now = Ok (evs, v)" and "response_cookie env v t = Ok hdr"
    and "CHR ''='' \<notin> set (cookie_name (e_cfg (ce_core env)))"
  shows "v \<noteq> '''' \<and> list_all is_digit v \<and>
     set_cookie_pair hdr = (cookie_name (e_cfg (ce_core env)), v) \<and>
     (x \<in> {CHR 0x0A, CHR 0x0D} \<and> x \<in> set hdr \<longrightarrow>
        x \<in> set (cookie_name (e_cfg (ce_core env))) \<union> set (cookie_path (e_cfg (ce_core env))) \<union>
          set (cookie_domain (e_cfg (ce_core env))))"
proof -
  have digits: "list_all is_digit v" "v \<noteq> ''''" using client_cookie_digits [OF assms(1-3)] by auto
  have special: "c \<notin> set v" if "\<not> is_digit c" for c using digits(1) that by (auto simp: list_all_iff)
  have nd: "\<not> is_digit (CHR '';'')" "\<not> is_digit (CHR 0x0A)" "\<not> is_digit (CHR 0x0D)"
    by (simp_all add: is_digit_def less_eq_char_def)
  obtain e where hdr: "hdr = Cookie_to_string
      (Cookie_name_value_credentials (cookie_name (e_cfg (ce_core env))) v
        (Credentials_authority_path_expires (Authority_string (cookie_domain (e_cfg (ce_core env))))
          (Path_string (cookie_path (e_cfg (ce_core env)))) e))"
    using assms(4) by (auto simp: response_cookie_def Let_def obind_eq_Ok)
  have "set_cookie_pair hdr = (cookie_name (e_cfg (ce_core env)), v)"
    unfolding hdr using set_cookie_pair_to_string assms(5) special [OF nd(1)]
    by (simp add: Cookie_name_value_credentials_def)
  moreover have "x \<in> {CHR 0x0A, CHR 0x0D} \<and> x \<in> set hdr \<longrightarrow>
        x \<in> set (cookie_name (e_cfg (ce_core env))) \<union> set (cookie_path (e_cfg (ce_core env))) \<union>
          set (cookie_domain (e_cfg (ce_core env)))"
    using special [OF nd(2)] special [OF nd(3)]
    by (auto simp: hdr Cookie_to_string_def Credentials_to_string_def Path_call_def Authority_call_def
        Cookie_name_value_credentials_def Credentials_authority_path_expires_def Authority_string_def
        Path_string_def Credentials_copy_def Path_copy_def Authority_copy_def)
  ultimately show ?thesis using digits by blast
qed

theorem response_cookie_safe_witness:
  "client_cookie sample_cgi (sample_request '''' (Some ''yottos_unique_id=1a2;x=3'')) 7 = Ok ([], ''12'') \<and>
   (\<exists>hdr. response_cookie sample_cgi ''12'' 5 = Ok hdr \<and> set_cookie_pair hdr = (''yottos_unique_id'', ''12''))"
proof
  show c: "client_cookie sample_cgi (sample_request '''' (Some ''yottos_unique_id=1a2;x=3'')) 7 = Ok ([], ''12'')"
    by (simp add: client_cookie_def sample_cgi_def sample_request_def find_cookie_def sample_env_def
        table_env_def sample_config_def is_digit_def less_eq_char_def)
  obtain hdr where t: "response_cookie sample_cgi ''12'' 5 = Ok hdr"
    by (auto simp: response_cookie_def Expires_ptime_def convert_def sample_cgi_def sample_time_def Let_def)
  have "cookie_name (e_cfg (ce_core sample_cgi)) = ''yottos_unique_id''"
    by (simp add: sample_cgi_def sample_env_def table_env_def sample_config_def)
  with response_cookie_safe [OF sample_strip _ c t] t
  show "\<exists>hdr. response_cookie sample_cgi ''12'' 5 = Ok hdr \<and> set_cookie_pair hdr = (''yottos_unique_id'', ''12'')"
    by auto
qed

text \<open>The posted text never depends on the memory behind its buffer, although the string is
  built from a buffer without a terminating NUL: it is what the client sent, padded with blanks to
  the announced length, cut at its first NUL byte and padded with NULs. It never exceeds
  \<^verbatim>\<open>STDIN_MAX\<close> bytes, a negative length included.\<close>
theorem read_body_independent:
  "read_body req beyond = read_body req beyond' \<and> length (snd (read_body req beyond)) \<le> 6000000 \<and>
   read_post inp n beyond =
     resize (c_str (take n inp @ replicate (n - length inp) (CHR '' ''))) n"
proof (intro conjI)
  show "read_body req beyond = read_body req beyond'"
    by (simp only: read_body_def read_post_eq)
  show "length (snd (read_body req beyond)) \<le> 6000000"
    using length_read_body [of req beyond] by (simp add: STDIN_MAX_def)
  show "read_post inp n beyond = resize (c_str (take n inp @ replicate (n - length inp) (CHR '' ''))) n"
    by (rule read_post_eq)
qed

lemma sample_params_informer: "p_informer_id (sample_params i c) = i"
  by (simp add: sample_params_def)

text \<open>C24: when rendering the template throws, the client gets status 503, but the clean-up is
  skipped: the block that was loaded stays allocated for ever, both parsers leak, and the request
  is not counted.\<close>
theorem failed_page_leaks:
  assumes "found_row (ce_core env) (p_informer_id prm) \<noteq> None"
    and "UrlParser_param url ''show'' \<noteq> ''usercode''"
    and "\<And>a b c. e_bformat (ce_core env) (template (e_cfg (ce_core env))) [a, b, c] = Throw ex"
  shows "\<exists>core'. answer_request env rd req query cv url prm svc core =
       (Ok (), err_exception env ex query # Response_status req 503, svc\<lparr>s_leaked := s_leaked svc + 2\<rparr>, core') \<and>
     c_live core' = c_live core + 1"
proof -
  from assms(1) obtain row where row: "found_row (ce_core env) (p_informer_id prm) = Some row" by blast
  have "page_of (ce_core env) (Informer_of_row (ce_core env) row) prm = Throw ex"
    by (simp add: page_of_def assms(3))
  with Process_found [OF row, of "rd_start rd" "rd_end rd" core] show ?thesis
    by (auto simp: answer_request_def Let_def assms(2))
qed

definition failing_cgi :: "(informer, db_action list, int) cgi_env" where
  "failing_cgi = sample_cgi\<lparr>ce_core := sample_env\<lparr>e_bformat := (\<lambda>_ _. Throw ''boost::too_few_args'')\<rparr>\<rparr>"

theorem failed_page_leaks_witness:
  "\<exists>core'. answer_request failing_cgi sample_readings (sample_request '''' None) '''' ''1'' []
       (sample_params ''g'' '''') sample_service (Core_new ''1'') =
       (Ok (), err_exception failing_cgi ''boost::too_few_args'' '''' # Response_status (sample_request '''' None) 503,
        sample_service\<lparr>s_leaked := 2\<rparr>, core') \<and>
     c_live core' = 1"
proof -
  have "found_row (ce_core failing_cgi) ''g'' = Some sample_block"
    using sample_found by (simp add: found_row_def getInformer_cmd_def failing_cgi_def)
  moreover have "e_bformat (ce_core failing_cgi) t as = Throw ''boost::too_few_args''" for t as
    by (simp add: failing_cgi_def)
  moreover have "UrlParser_param [] ''show'' \<noteq> ''usercode''" by (simp add: UrlParser_param_def)
  moreover have "s_leaked sample_service + 2 = 2" "c_live (Core_new ''1'') + 1 = 1"
    by (simp_all add: sample_service_def Core_new_def)
  ultimately show ?thesis
    using failed_page_leaks [of failing_cgi "sample_params ''g'' ''''" "[]" "''boost::too_few_args''"
        sample_readings "sample_request '''' None" "''''" "''1''" sample_service "Core_new ''1''"]
    by (simp only: sample_params_informer) simp
qed

end
