(* ===== verification/ServeSpec.thy ===== *)
theory ServeSpec
  imports CgiSpec
begin

text \<open>
  The worker thread against an abstract server. A thread keeps one core (the block pointer, the
  parameters, times and text of the last request) over all its requests; the abstract server keeps
  nothing but the service, and answers every request as if it were the first. The relation between
  the two is that nothing a request leaves in the core can be observed by a later one.
\<close>

section \<open>The abstract server\<close>

text \<open>A result without the core.\<close>

definition seen :: "'db result \<Rightarrow> (unit outcome \<times> event list \<times> 'db service) option" where
  "seen = map_option (\<lambda>(r, evs, svc, core). (r, evs, svc))"

definition answer_fresh ::
  "('row, 'db, 'ptime) cgi_env \<Rightarrow> params \<Rightarrow> 'ptime readings \<times> request \<Rightarrow> 'db service \<Rightarrow>
   (unit outcome \<times> event list \<times> 'db service) option" where
  "answer_fresh env junk p svc =
     seen (ProcessRequest env (fst p) junk (snd p) svc (Core_new (e_tid (ce_core env))))"

fun abstract_server ::
  "('row, 'db, 'ptime) cgi_env \<Rightarrow> params \<Rightarrow> ('ptime readings \<times> request) list \<Rightarrow> 'db service \<Rightarrow>
   (unit outcome \<times> event list \<times> 'db service) option" where
  "abstract_server env junk [] svc = Some (Ok (), [], svc)"
| "abstract_server env junk (p # reqs) svc =
     (case answer_fresh env junk p svc of
        Some (Ok _, evs, svc') \<Rightarrow>
          map_option (\<lambda>(r, evs', svc''). (r, evs @ evs', svc'')) (abstract_server env junk reqs svc')
      | r \<Rightarrow> r)"

section \<open>The core is overwritten before it is read\<close>

lemma getInformer_informer: "c_informer (snd (getInformer env i c)) = c_informer (snd (getInformer env i c'))"
  by (cases "found_row env i") (simp_all add: getInformer_result)

lemma getInformer_found: "fst (getInformer env i c) = fst (getInformer env i c')"
  by (simp add: getInformer_result)

text \<open>What of the core the clean-up can depend on, besides the texts it logs.\<close>

definition same_view :: "core \<Rightarrow> core \<Rightarrow> bool" where
  "same_view c c' \<longleftrightarrow> c_informer c = c_informer c' \<and> c_params c = c_params c'"

lemma same_view_updates:
  "same_view c c' \<Longrightarrow> same_view (clog s c) (clog t c')"
  "same_view c c' \<Longrightarrow> same_view (c\<lparr>c_params := p\<rparr>) (c'\<lparr>c_params := p\<rparr>)"
  "same_view c c' \<Longrightarrow> same_view (c\<lparr>c_retHtml := h, c_end := e\<rparr>) (c'\<lparr>c_retHtml := h, c_end := e\<rparr>)"
  by (simp_all add: same_view_def clog_fields)

lemma getInformer_view:
  "c_params c = c_params c' \<Longrightarrow> same_view (snd (getInformer env i c)) (snd (getInformer env i c'))"
  by (simp add: same_view_def getInformer_result(2) getInformer_informer [of env i c c'])

lemma Process_view:
  "fst (Core_Process env t0 t1 prm c) = fst (Core_Process env t0 t1 prm c') \<and>
   same_view (snd (Core_Process env t0 t1 prm c)) (snd (Core_Process env t0 t1 prm c'))"
proof -
  let ?b = "\<lambda>c. c\<lparr>c_start := Some t0, c_params := Some prm\<rparr>"
  obtain f d where d: "getInformer env (p_informer_id prm) (?b c) = (f, d)" by fastforce
  obtain f' d' where d': "getInformer env (p_informer_id prm) (?b c') = (f', d')" by fastforce
  have f: "f' = f" using getInformer_found [of env _ "?b c" "?b c'"] d d' by (metis fst_conv)
  have v: "same_view d d'" using getInformer_view [of "?b c" "?b c'" env "p_informer_id prm"] d d' by simp
  then have i: "c_informer d' = c_informer d" by (simp add: same_view_def)
  show ?thesis
    using v by (auto simp: Core_Process_def d d' f i log_missing_def Let_def same_view_updates split: outcome.splits)
qed

lemma UserCode_view:
  "fst (Core_UserCode env t0 prm c) = fst (Core_UserCode env t0 prm c') \<and>
   same_view (snd (Core_UserCode env t0 prm c)) (snd (Core_UserCode env t0 prm c'))"
proof -
  let ?b = "\<lambda>c. c\<lparr>c_start := Some t0, c_params := Some prm\<rparr>"
  obtain f d where d: "getInformer env (p_informer_id prm) (?b c) = (f, d)" by fastforce
  obtain f' d' where d': "getInformer env (p_informer_id prm) (?b c') = (f', d')" by fastforce
  have f: "f' = f" using getInformer_found [of env _ "?b c" "?b c'"] d d' by (metis fst_conv)
  have v: "same_view d d'" using getInformer_view [of "?b c" "?b c'" env "p_informer_id prm"] d d' by simp
  then show ?thesis
    by (auto simp: Core_UserCode_def d d' f log_missing_def Let_def same_view_updates) (simp add: same_view_def)
qed

lemma clean_view:
  assumes "same_view c c'"
  shows "fst (Core_ProcessClean env g c) = fst (Core_ProcessClean env g c') \<and>
    fst (snd (Core_ProcessClean env g c)) = fst (snd (Core_ProcessClean env g c'))"
proof -
  have log: "fst (Core_log env c) = fst (Core_log env c')"
    and i: "c_informer (snd (Core_log env d)) = c_informer d" for d
    using assms by (auto simp: same_view_def Core_log_def Let_def clog_fields split: option.splits outcome.splits)
  obtain r d r' d' where d: "Core_log env c = (r, d)" "Core_log env c' = (r', d')" by fastforce
  have "r' = r" "c_informer d' = c_informer d"
    using log i [of c] i [of c'] assms d by (simp_all add: same_view_def)
  then show ?thesis
    by (cases r; cases "c_informer d") (simp_all add: Core_ProcessClean_def d Core_clear_def Let_def)
qed

section \<open>Requests\<close>

definition without_core :: "'r \<times> 'e \<times> 's \<times> core \<Rightarrow> 'r \<times> 'e \<times> 's" where
  "without_core = (\<lambda>(r, evs, svc, core). (r, evs, svc))"

lemma seen_simps [simp]:
  "seen None = None" "seen (Some (r, evs, svc, core)) = Some (r, evs, svc)"
  by (simp_all add: seen_def)

lemma answer_request_fresh:
  "without_core (answer_request env rd req query cv url prm svc c) =
   without_core (answer_request env rd req query cv url prm svc c')"
proof -
  let ?run = "\<lambda>c. if UrlParser_param url ''show'' = ''usercode''
      then Core_UserCode (ce_core env) (rd_start rd) prm c
      else Core_Process (ce_core env) (rd_start rd) (rd_end rd) prm c"
  obtain r d r' d' where d: "?run c = (r, d)" "?run c' = (r', d')" by fastforce
  have v: "r' = r" "same_view d d'"
    using Process_view [of "ce_core env" "rd_start rd" "rd_end rd" prm c c']
      UserCode_view [of "ce_core env" "rd_start rd" prm c c'] d
    by (auto split: if_splits)
  obtain q g e q' g' e' where e: "Core_ProcessClean (ce_core env) (s_counters svc) d = (q, g, e)"
      "Core_ProcessClean (ce_core env) (s_counters svc) d' = (q', g', e')"
    by (metis prod_cases3)
  have "q' = q" "g' = g" using clean_view [OF v(2), of "ce_core env" "s_counters svc"] e by simp_all
  then show ?thesis
    unfolding answer_request_def Let_def d e v(1) without_core_def
    by (simp add: e split: outcome.split)
qed

lemma dispatch_request_fresh:
  "seen (dispatch_request env rd junk req query postq cv svc c) =
   seen (dispatch_request env rd junk req query postq cv svc c')"
proof -
  have "seen (Some (answer_request env rd req query cv url prm svc c)) =
      seen (Some (answer_request env rd req query cv url prm svc c'))" for url prm
    using answer_request_fresh [of env rd req query cv url prm svc c c']
    by (simp add: seen_def without_core_def)
  then show ?thesis
    by (simp add: dispatch_request_def split_beta split: option.split outcome.split)
qed

lemma seen_with_events:
  "seen (with_events evs m) = map_option (\<lambda>(r, evs', svc). (r, evs @ evs', svc)) (seen m)"
  by (cases m) (auto simp: with_events_def seen_def)

lemma ProcessRequest_fresh:
  "seen (ProcessRequest env rd junk req svc c) = seen (ProcessRequest env rd junk req svc c')"
proof -
  obtain evs postq where body: "read_body req (rd_beyond rd) = (evs, postq)" by (rule prod.exhaust)
  consider "rq_err req \<noteq> 0" | "rq_err req = 0" "rq_env req ''QUERY_STRING'' = None"
    | query where "rq_err req = 0" "rq_env req ''QUERY_STRING'' = Some query" "rq_env req ''REMOTE_ADDR'' = None"
    | query ip where "rq_err req = 0" "rq_env req ''QUERY_STRING'' = Some query" "rq_env req ''REMOTE_ADDR'' = Some ip"
        "rq_env req ''SCRIPT_NAME'' = None"
    | (run) query ip script where "rq_err req = 0" "rq_env req ''QUERY_STRING'' = Some query"
        "rq_env req ''REMOTE_ADDR'' = Some ip" "rq_env req ''SCRIPT_NAME'' = Some script"
    by (meson not_None_eq)
  then show ?thesis
  proof cases
    case run
    show ?thesis
    proof (cases "client_cookie env req (rd_time rd)")
      case (Ok a)
      then show ?thesis
        using dispatch_request_fresh [of env rd junk req query postq "snd a" svc c c']
        by (cases a) (simp only: ProcessRequest_def run body seen_with_events
            if_False not_not simp_thms option.case prod.case outcome.case snd_conv)
    qed (simp_all only: ProcessRequest_def run body if_False not_not simp_thms
        option.case prod.case outcome.case seen_simps)
  qed (simp_all only: ProcessRequest_def body if_True if_False not_not simp_thms
      option.case prod.case seen_simps)
qed

lemma serve_loop_fresh: "seen (serve_loop env junk n reqs svc c) = abstract_server env junk reqs svc"
proof (induction reqs arbitrary: n svc c)
  case (Cons p reqs)
  obtain rd req where p: "p = (rd, req)" by (cases p)
  have fresh: "answer_fresh env junk p svc = seen (ProcessRequest env rd junk req svc c)"
    unfolding answer_fresh_def p fst_conv snd_conv by (rule ProcessRequest_fresh)
  show ?case
  proof (cases "ProcessRequest env rd junk req svc c")
    case (Some q)
    obtain r evs svc' c' where q: "q = (r, evs, svc', c')" by (cases q)
    then show ?thesis using Some fresh Cons.IH
      by (cases r) (simp_all add: p Let_def seen_with_events)
  next
    case None
    with fresh show ?thesis by (simp add: p)
  qed
qed simp

section \<open>Property\<close>


end
