(* ===== verification/Workers.thy ===== *)
theory Workers
  imports CgiSpec "HOL-Library.Multiset"
begin

text \<open>
  The start of the service and its threads (\<^verbatim>\<open>CgiService::CgiService\<close>,
  \<^verbatim>\<open>run\<close>, \<^verbatim>\<open>SignalHandler\<close>, the loop of
  \<^verbatim>\<open>Serve\<close>). The threads are a step relation on what they share: the mutex around
  accepting, the requests waiting at the socket, and the counter of requests, which each thread loads
  and stores without a lock. What a thread does with one request in between is \<open>ProcessRequest\<close>
  of the front end; the schedule is arbitrary.
\<close>

section \<open>Start-up\<close>

text \<open>The calls of the operating system and the FastCGI library, over a state \<open>'w\<close>.\<close>

record 'w front_api =
  fa_signal :: "string \<Rightarrow> string \<Rightarrow> 'w \<Rightarrow> 'w"
  fa_sigaction :: "string \<Rightarrow> string \<Rightarrow> 'w \<Rightarrow> 'w"
  fa_init :: "'w \<Rightarrow> 'w"
  fa_umask :: "u32 \<Rightarrow> 'w \<Rightarrow> u32 \<times> 'w"
  fa_open_socket :: "string \<Rightarrow> u32 \<Rightarrow> 'w \<Rightarrow> u32 \<times> 'w"
  fa_create_thread :: "nat \<Rightarrow> 'w \<Rightarrow> int \<times> 'w"

text \<open>
  A started service has its socket and its core; the other outcomes are \<^verbatim>\<open>exit(1)\<close> with
  its message, an exception and undefined behaviour while the core is made.
\<close>

datatype ('c, 'w) startup =
    Service_started u32 'c 'w
  | Service_exit string 'w
  | Service_throws exn
  | Service_undefined fault

fun create_threads :: "'w front_api \<Rightarrow> nat \<Rightarrow> nat \<Rightarrow> 'w \<Rightarrow> bool \<times> 'w" where
  "create_threads api i 0 w = (True, w)"
| "create_threads api i (Suc n) w =
    (case fa_create_thread api i w of
       (rc, w') \<Rightarrow> if rc \<noteq> 0 then (False, w') else create_threads api (Suc i) n w')"

text \<open>\<open>new_core\<close> is the constructor of \<^verbatim>\<open>BaseCore\<close>, which connects to the broker and loads all blocks.\<close>

definition CgiService_new ::
  "'w front_api \<Rightarrow> config \<Rightarrow> ('w \<Rightarrow> unit outcome \<times> 'c \<times> 'w) \<Rightarrow> 'w \<Rightarrow> ('c, 'w) startup" where
  "CgiService_new api cfg new_core w =
    (let w = fa_signal api ''SIGPIPE'' ''SIG_IGN'' w;
         w = fa_sigaction api ''SIGHUP'' ''SignalHandler'' w;
         w = fa_sigaction api ''SIGPIPE'' ''SignalHandler'' w in
     case new_core w of
       (Throw e, bcore, w) \<Rightarrow> Service_throws e
     | (Fault x, bcore, w) \<Rightarrow> Service_undefined x
     | (Ok _, bcore, w) \<Rightarrow>
         (let w = fa_init api w;
              (old_mode, w) = fa_umask api 0 w;
              (socketId, w) = fa_open_socket api (c_str (server_socket_path cfg)) (server_children cfg * 4) w in
          if sint socketId < 0 then Service_exit (''Error open socket. exit'' @ [CHR 0x0A]) w
          else
            (let (_, w) = fa_umask api old_mode w;
                 (ok, w) = create_threads api 0 (nat (sint (server_children cfg))) w in
             if ok then Service_started socketId bcore w
             else Service_exit (''creating thread failed'' @ [CHR 0x0A]) w)))"

text \<open>
  Rounds of the endless loop of \<^verbatim>\<open>run\<close>; an exception that leaves a round ends the
  process. Before each round the broker has put more answers behind those left in the queues
  (an answer without a message among them is a queue that was empty for a while).
\<close>

definition deliver :: "queue \<times> queue \<Rightarrow> 'db basecore \<Rightarrow> 'db basecore" where
  "deliver arrived b =
     b\<lparr>b_mq_informer := map_option (\<lambda>q. q @ fst arrived) (b_mq_informer b),
       b_mq_account := map_option (\<lambda>q. q @ snd arrived) (b_mq_account b)\<rparr>"

fun run_rounds ::
  "'db base_env \<Rightarrow> (nat \<Rightarrow> int) \<Rightarrow> (nat \<Rightarrow> queue \<times> queue) \<Rightarrow> nat \<Rightarrow> 'db basecore \<Rightarrow>
   unit outcome \<times> 'db basecore" where
  "run_rounds env clock arrivals 0 b = (Ok (), b)"
| "run_rounds env clock arrivals (Suc n) b =
    (case run_rounds env clock arrivals n b of
       (Ok u, b') \<Rightarrow>
         (case BaseCore_ProcessMQ env (clock n) (deliver (arrivals n) b') of
            (Ok r, b'') \<Rightarrow> (Ok (), b'')
          | (Throw e, b'') \<Rightarrow> (Throw e, b'')
          | (Fault x, b'') \<Rightarrow> (Fault x, b''))
     | r \<Rightarrow> r)"

definition SignalHandler :: "string \<Rightarrow> string \<Rightarrow> string \<Rightarrow> string" where
  "SignalHandler tid number signum =
    (if signum = ''SIGHUP'' then ''CgiService: sig hup'' @ [CHR 0x0A]
     else if signum = ''SIGPIPE'' then ''CgiService: sig pipe sig='' @ number @ '' tid='' @ tid @ [CHR 0x0A]
     else '''')"

section \<open>The threads\<close>

text \<open>
  Where a thread is: before \<^verbatim>\<open>FCGX_InitRequest\<close>, before the lock, inside
  \<^verbatim>\<open>FCGX_Accept_r\<close> with the lock held, at work on a request, between loading and storing
  the counter, or returned.
\<close>

datatype phase = Starting | Locking | Accepting | Working request | Counting request u64 | Returned

record workers =
  w_phases :: "phase list"
  w_mutex :: "nat option"
  w_waiting :: "request list"
  w_counter :: u64
  w_answered :: "request list"

definition set_phase :: "nat \<Rightarrow> phase \<Rightarrow> workers \<Rightarrow> workers" where
  "set_phase i p s = s\<lparr>w_phases := (w_phases s)[i := p]\<rparr>"

definition in_phase :: "workers \<Rightarrow> nat \<Rightarrow> phase \<Rightarrow> bool" where
  "in_phase s i p \<longleftrightarrow> i < length (w_phases s) \<and> w_phases s ! i = p"

definition workers_start :: "nat \<Rightarrow> workers" where
  "workers_start n =
     \<lparr>w_phases = replicate n Starting, w_mutex = None, w_waiting = [], w_counter = 0, w_answered = []\<rparr>"

inductive worker_step :: "workers \<Rightarrow> workers \<Rightarrow> bool" where
  arrive: "worker_step s (s\<lparr>w_waiting := w_waiting s @ [r]\<rparr>)"
| init: "in_phase s i Starting \<Longrightarrow> worker_step s (set_phase i Locking s)"
| init_fails: "in_phase s i Starting \<Longrightarrow> worker_step s (set_phase i Returned s)"
| lock: "in_phase s i Locking \<Longrightarrow> w_mutex s = None \<Longrightarrow>
    worker_step s (set_phase i Accepting (s\<lparr>w_mutex := Some i\<rparr>))"
| accept: "in_phase s i Accepting \<Longrightarrow> w_waiting s = r # rs \<Longrightarrow>
    worker_step s (set_phase i (Working r) (s\<lparr>w_mutex := None, w_waiting := rs\<rparr>))"
| accept_fails: "in_phase s i Accepting \<Longrightarrow>
    worker_step s (set_phase i Returned (s\<lparr>w_mutex := None\<rparr>))"
| answer: "in_phase s i (Working r) \<Longrightarrow> \<not> reaches_core r \<Longrightarrow>
    worker_step s (set_phase i Locking (s\<lparr>w_answered := w_answered s @ [r]\<rparr>))"
| load: "in_phase s i (Working r) \<Longrightarrow> reaches_core r \<Longrightarrow>
    worker_step s (set_phase i (Counting r (w_counter s)) s)"
| store: "in_phase s i (Counting r v) \<Longrightarrow>
    worker_step s (set_phase i Locking (s\<lparr>w_counter := v + 1, w_answered := w_answered s @ [r]\<rparr>))"

abbreviation worker_run :: "workers \<Rightarrow> workers \<Rightarrow> bool" where
  "worker_run \<equiv> worker_step\<^sup>*\<^sup>*"

section \<open>Lemmas\<close>

lemma in_phase_set [simp]:
  "in_phase (set_phase i p s) j q \<longleftrightarrow> (if i = j then j < length (w_phases s) \<and> p = q else in_phase s j q)"
  by (auto simp: in_phase_def set_phase_def)

lemma in_phase_frame [simp]:
  "in_phase (s\<lparr>w_mutex := m\<rparr>) = in_phase s" "in_phase (s\<lparr>w_waiting := ws\<rparr>) = in_phase s"
  "in_phase (s\<lparr>w_counter := c\<rparr>) = in_phase s" "in_phase (s\<lparr>w_answered := a\<rparr>) = in_phase s"
  by (simp_all add: in_phase_def fun_eq_iff)

lemma set_phase_fields [simp]:
  "w_mutex (set_phase i p s) = w_mutex s" "w_waiting (set_phase i p s) = w_waiting s"
  "w_counter (set_phase i p s) = w_counter s" "w_answered (set_phase i p s) = w_answered s"
  "length (w_phases (set_phase i p s)) = length (w_phases s)"
  by (simp_all add: set_phase_def)

lemma in_phase_unique: "in_phase s i p \<Longrightarrow> in_phase s i q \<Longrightarrow> p = q"
  by (simp add: in_phase_def)

lemma in_phase_length: "in_phase s i p \<Longrightarrow> i < length (w_phases s)"
  by (simp add: in_phase_def)

subsection \<open>The lock\<close>

text \<open>The holder of the mutex is the thread that accepts.\<close>

definition lock_held :: "workers \<Rightarrow> bool" where
  "lock_held s \<longleftrightarrow> (\<forall>i. in_phase s i Accepting \<longleftrightarrow> w_mutex s = Some i)"

lemma lock_held_step: "worker_step s s' \<Longrightarrow> lock_held s \<Longrightarrow> lock_held s'"
  by (induction rule: worker_step.induct)
    (auto simp: lock_held_def dest: in_phase_unique in_phase_length)

subsection \<open>The counter\<close>

definition counted :: "workers \<Rightarrow> nat" where
  "counted s = length (filter reaches_core (w_answered s))"

definition counter_bounded :: "workers \<Rightarrow> bool" where
  "counter_bounded s \<longleftrightarrow>
     unat (w_counter s) \<le> counted s \<and>
     (\<forall>i r v. in_phase s i (Counting r v) \<longrightarrow> reaches_core r \<and> unat v \<le> counted s)"

lemma unat_plus_one_le: "unat (v + 1 :: u64) \<le> unat v + 1"
  unfolding unat_word_ariths(1) by (simp add: mod_less_eq_dividend)

lemma counter_bounded_step: "worker_step s s' \<Longrightarrow> counter_bounded s \<Longrightarrow> counter_bounded s'"
proof (induction rule: worker_step.induct)
  case (store s i r v)
  then show ?case using unat_plus_one_le [of v]
    by (fastforce simp: counter_bounded_def counted_def)
qed (auto simp: counter_bounded_def counted_def le_SucI)

text \<open>With one thread, a loaded value is still the value of the counter when it is stored.\<close>

definition counter_exact :: "workers \<Rightarrow> bool" where
  "counter_exact s \<longleftrightarrow>
     length (w_phases s) \<le> 1 \<and> w_counter s = of_nat (counted s) \<and>
     (\<forall>i r v. in_phase s i (Counting r v) \<longrightarrow> reaches_core r \<and> v = w_counter s)"

lemma counter_exact_step: "worker_step s s' \<Longrightarrow> counter_exact s \<Longrightarrow> counter_exact s'"
proof (induction rule: worker_step.induct)
  case (store s i r v)
  then have "i = 0" and "length (w_phases s) \<le> 1" by (auto simp: counter_exact_def dest: in_phase_length)
  then show ?case using store by (auto simp: counter_exact_def counted_def dest: in_phase_length)
qed (auto simp: counter_exact_def counted_def)

interpretation lock: step_invariant worker_step lock_held
  by unfold_locales (rule lock_held_step)

interpretation bounded_counter: step_invariant worker_step counter_bounded
  by unfold_locales (rule counter_bounded_step)

interpretation exact_counter: step_invariant worker_step counter_exact
  by unfold_locales (rule counter_exact_step)

lemma in_phase_start: "in_phase (workers_start n) i p \<longleftrightarrow> i < n \<and> p = Starting"
  by (auto simp: in_phase_def workers_start_def)

subsection \<open>Requests\<close>

text \<open>The requests a thread has in hand, and all those in the system, answered ones included.\<close>

fun request_of :: "phase \<Rightarrow> request multiset" where
  "request_of (Working r) = {#r#}"
| "request_of (Counting r v) = {#r#}"
| "request_of _ = {#}"

definition in_hand :: "workers \<Rightarrow> request multiset" where
  "in_hand s = sum_list (map request_of (w_phases s))"

definition all_requests :: "workers \<Rightarrow> request multiset" where
  "all_requests s = mset (w_answered s) + mset (w_waiting s) + in_hand s"

fun weight :: "phase \<Rightarrow> nat" where
  "weight Starting = 2"
| "weight Locking = 1"
| "weight (Working r) = 3"
| "weight (Counting r v) = 2"
| "weight _ = 0"

definition work_left :: "workers \<Rightarrow> nat" where
  "work_left s = 10 * length (w_waiting s) + sum_list (map weight (w_phases s))"

lemma sum_list_list_update:
  fixes f :: "'a \<Rightarrow> 'b::comm_monoid_add"
  shows "i < length xs \<Longrightarrow> f (xs ! i) + sum_list (map f (xs[i := y])) = f y + sum_list (map f xs)"
proof (induction xs arbitrary: i)
  case (Cons x xs)
  then show ?case by (cases i) (simp_all add: ac_simps)
qed simp

lemma in_hand_set:
  "in_phase s i p \<Longrightarrow> request_of p + in_hand (set_phase i q s) = request_of q + in_hand s"
  using sum_list_list_update [of i "w_phases s" request_of q]
  by (auto simp: in_hand_def set_phase_def in_phase_def)

lemma weight_set:
  "in_phase s i p \<Longrightarrow>
     weight p + work_left (set_phase i q s) = weight q + work_left s"
  using sum_list_list_update [of i "w_phases s" weight q]
  by (auto simp: work_left_def set_phase_def in_phase_def)

lemma frame_sums [simp]:
  "in_hand (s\<lparr>w_mutex := m\<rparr>) = in_hand s" "in_hand (s\<lparr>w_waiting := ws\<rparr>) = in_hand s"
  "in_hand (s\<lparr>w_counter := c\<rparr>) = in_hand s" "in_hand (s\<lparr>w_answered := a\<rparr>) = in_hand s"
  "work_left (s\<lparr>w_mutex := m\<rparr>) = work_left s" "work_left (s\<lparr>w_counter := c\<rparr>) = work_left s"
  "work_left (s\<lparr>w_answered := a\<rparr>) = work_left s"
  by (simp_all add: in_hand_def work_left_def)

text \<open>Nothing left to do: no request waits and no thread has one in hand.\<close>

definition quiet :: "workers \<Rightarrow> bool" where
  "quiet s \<longleftrightarrow> w_waiting s = [] \<and> (\<forall>p \<in> set (w_phases s). p \<in> {Locking, Accepting, Returned})"

definition someone_left :: "workers \<Rightarrow> bool" where
  "someone_left s \<longleftrightarrow> (\<exists>i p. in_phase s i p \<and> p \<noteq> Returned)"

text \<open>A move of one thread, with what has to be compared before and after it.\<close>

lemma one_move:
  assumes "worker_step s (set_phase i q t)" and "in_phase t i p" and "q \<noteq> Returned"
    and "all_requests t + request_of q = all_requests s + request_of p"
    and "work_left t + weight q < work_left s + weight p"
  shows "\<exists>s'. worker_step s s' \<and> someone_left s' \<and> all_requests s' = all_requests s \<and> work_left s' < work_left s"
proof (intro exI conjI)
  show "worker_step s (set_phase i q t)" by (rule assms(1))
  show "someone_left (set_phase i q t)"
    using assms(2,3) by (auto simp: someone_left_def dest: in_phase_length)
  have "request_of p + all_requests (set_phase i q t) =
      mset (w_answered t) + mset (w_waiting t) + (request_of p + in_hand (set_phase i q t))"
    by (simp add: all_requests_def)
  also have "\<dots> = request_of p + all_requests s"
    unfolding in_hand_set [OF assms(2), of q] using assms(4) by (simp add: all_requests_def ac_simps)
  finally have "request_of p + all_requests (set_phase i q t) = request_of p + all_requests s" .
  then show "all_requests (set_phase i q t) = all_requests s" by simp
  show "work_left (set_phase i q t) < work_left s"
    using weight_set [OF assms(2), of q] assms(5) by simp
qed

text \<open>While something is left to do and a thread is alive, a step can be taken that brings it nearer.\<close>

lemma progress_step:
  assumes "lock_held s" and "someone_left s" and "\<not> quiet s"
  shows "\<exists>s'. worker_step s s' \<and> someone_left s' \<and> all_requests s' = all_requests s \<and> work_left s' < work_left s"
proof -
  consider (working) i r where "in_phase s i (Working r)" | (counting) i r v where "in_phase s i (Counting r v)"
    | (starting) i where "in_phase s i Starting"
    | (waiting) r rs where "w_waiting s = r # rs" "\<forall>i p. in_phase s i p \<longrightarrow> p \<in> {Locking, Accepting, Returned}"
  proof -
    have p: "p \<in> {Locking, Accepting, Returned} \<or> (\<exists>r. p = Working r) \<or> (\<exists>r v. p = Counting r v) \<or> p = Starting" for p
      by (cases p) auto
    have "w_waiting s \<noteq> [] \<or> (\<exists>i p. in_phase s i p \<and> p \<notin> {Locking, Accepting, Returned})"
      using assms(3) unfolding quiet_def in_phase_def by (metis in_set_conv_nth)
    then show thesis using p that by (metis neq_Nil_conv)
  qed
  then show ?thesis
  proof cases
    case working
    then show ?thesis
      using one_move [OF worker_step.load [OF working], of "Working r"]
        one_move [OF worker_step.answer [OF working], of "Working r"]
      by (cases "reaches_core r") (simp_all add: all_requests_def)
  next
    case counting
    then show ?thesis
      by (intro one_move [OF worker_step.store [OF counting], of "Counting r v"]) (simp_all add: all_requests_def)
  next
    case starting
    then show ?thesis by (intro one_move [OF worker_step.init [OF starting], of Starting]) simp_all
  next
    case waiting
    show ?thesis
    proof (cases "w_mutex s")
      case None
      obtain i where i: "in_phase s i Locking"
        using assms(1,2) waiting(2) None unfolding someone_left_def lock_held_def by fastforce
      then show ?thesis
        by (intro one_move [OF worker_step.lock [OF i None], of Locking]) (simp_all add: all_requests_def)
    next
      case (Some i)
      then have i: "in_phase s i Accepting" using assms(1) by (simp add: lock_held_def)
      then show ?thesis using waiting(1)
        by (intro one_move [OF worker_step.accept [OF i waiting(1)], of Accepting])
          (simp_all add: all_requests_def work_left_def)
    qed
  qed
qed

interpretation progress: step_progress worker_step lock_held someone_left quiet all_requests work_left
  by unfold_locales (rule progress_step)

subsection \<open>Two threads and one count\<close>

lemma two_threads_run:
  fixes r :: request
  assumes "reaches_core r"
  shows "\<exists>s. worker_run (workers_start (Suc (Suc k))) s \<and> w_counter s = 1 \<and> counted s = 2"
proof -
  define st where "st = (\<lambda>a b m ws c ans. \<lparr>w_phases = a # b # replicate k Starting, w_mutex = m, w_waiting = ws,
      w_counter = c, w_answered = ans\<rparr>)"
  note def = st_def in_phase_def set_phase_def
  have "workers_start (Suc (Suc k)) = st Starting Starting None [] 0 []" by (simp add: workers_start_def st_def)
  also have "worker_run \<dots> (st Locking Starting None [] 0 [])"
    using r_into_rtranclp [of worker_step, OF worker_step.init [of "st Starting Starting None [] 0 []" 0]] by (simp add: def)
  also have "worker_run \<dots> (st Locking Locking None [] 0 [])"
    using r_into_rtranclp [of worker_step, OF worker_step.init [of "st Locking Starting None [] 0 []" 1]] by (simp add: def)
  also have "worker_run \<dots> (st Locking Locking None [r] 0 [])"
    using r_into_rtranclp [of worker_step, OF worker_step.arrive [of "st Locking Locking None [] 0 []" r]] by (simp add: def)
  also have "worker_run \<dots> (st Locking Locking None [r, r] 0 [])"
    using r_into_rtranclp [of worker_step, OF worker_step.arrive [of "st Locking Locking None [r] 0 []" r]] by (simp add: def)
  also have "worker_run \<dots> (st Accepting Locking (Some 0) [r, r] 0 [])"
    using r_into_rtranclp [of worker_step, OF worker_step.lock [of "st Locking Locking None [r, r] 0 []" 0]] by (simp add: def)
  also have "worker_run \<dots> (st (Working r) Locking None [r] 0 [])"
    using r_into_rtranclp [of worker_step, OF worker_step.accept [of "st Accepting Locking (Some 0) [r, r] 0 []" 0 r "[r]"]] by (simp add: def)
  also have "worker_run \<dots> (st (Working r) Accepting (Some 1) [r] 0 [])"
    using r_into_rtranclp [of worker_step, OF worker_step.lock [of "st (Working r) Locking None [r] 0 []" 1]] by (simp add: def)
  also have "worker_run \<dots> (st (Working r) (Working r) None [] 0 [])"
    using r_into_rtranclp [of worker_step, OF worker_step.accept [of "st (Working r) Accepting (Some 1) [r] 0 []" 1 r "[]"]] by (simp add: def)
  also have "worker_run \<dots> (st (Counting r 0) (Working r) None [] 0 [])"
    using r_into_rtranclp [of worker_step, OF worker_step.load [of "st (Working r) (Working r) None [] 0 []" 0 r]] assms by (simp add: def)
  also have "worker_run \<dots> (st (Counting r 0) (Counting r 0) None [] 0 [])"
    using r_into_rtranclp [of worker_step, OF worker_step.load [of "st (Counting r 0) (Working r) None [] 0 []" 1 r]] assms by (simp add: def)
  also have "worker_run \<dots> (st Locking (Counting r 0) None [] 1 [r])"
    using r_into_rtranclp [of worker_step, OF worker_step.store [of "st (Counting r 0) (Counting r 0) None [] 0 []" 0 r 0]] by (simp add: def)
  also have "worker_run \<dots> (st Locking Locking None [] 1 [r, r])"
    using r_into_rtranclp [of worker_step, OF worker_step.store [of "st Locking (Counting r 0) None [] 1 [r]" 1 r 0]] by (simp add: def)
  finally have run: "worker_run (workers_start (Suc (Suc k))) (st Locking Locking None [] 1 [r, r])" .
  then show ?thesis
    by (intro exI [of _ "st Locking Locking None [] 1 [r, r]"]) (simp add: st_def counted_def assms)
qed

section \<open>Properties\<close>


lemma sample_reaches_core: "reaches_core (sample_request ''scr=G'' None)"
  by code_simp




end
