(* ===== verification/Log.thy ===== *)
theory Log
  imports Prelude
begin

text \<open>
  \<^verbatim>\<open>include/Log.h\<close>, \<^verbatim>\<open>src/Log.cpp\<close>: the stream buffer behind
  \<^verbatim>\<open>std::clog\<close>, which gathers characters and hands them to the system log at each
  flush, the formatted log calls with their shared buffer, and the memory usage read from
  \<^verbatim>\<open>/proc\<close>. A call of \<^verbatim>\<open>syslog\<close> is its priority and its text.
\<close>

section \<open>Priorities\<close>

datatype LogPriority = Emerg | Alert | Crit | PErr | Warning | Notice | Info | Debug

primrec priority_value :: "LogPriority \<Rightarrow> nat" where
  "priority_value Emerg = 0"
| "priority_value Alert = 1"
| "priority_value Crit = 2"
| "priority_value PErr = 3"
| "priority_value Warning = 4"
| "priority_value Notice = 5"
| "priority_value Info = 6"
| "priority_value Debug = 7"

section \<open>The stream buffer\<close>

record log =
  l_buffer :: string
  l_facility :: nat
  l_priority :: nat
  l_syslog :: "(nat \<times> string) list"

definition Log_new :: "nat \<Rightarrow> log" where
  "Log_new facility =
     \<lparr>l_buffer = '''', l_facility = facility, l_priority = priority_value Debug, l_syslog = []\<rparr>"

definition Log_sync :: "log \<Rightarrow> int \<times> log" where
  "Log_sync l =
    (0, if l_buffer l \<noteq> ''''
        then l\<lparr>l_syslog := l_syslog l @ [(l_priority l, c_str (l_buffer l))], l_buffer := ''''\<rparr>
        else l)"

definition eof_int :: int where
  "eof_int = - 1"

definition Log_overflow :: "int \<Rightarrow> log \<Rightarrow> int \<times> log" where
  "Log_overflow c l =
    (c, if c \<noteq> eof_int then l\<lparr>l_buffer := l_buffer l @ [char_of (nat (c mod 256))]\<rparr>
        else snd (Log_sync l))"

definition Log_set_priority :: "LogPriority \<Rightarrow> log \<Rightarrow> log" where
  "Log_set_priority p l = l\<lparr>l_priority := priority_value p\<rparr>"

section \<open>Formatted calls\<close>

text \<open>
  \<^verbatim>\<open>err\<close>, \<^verbatim>\<open>warn\<close> and \<^verbatim>\<open>info\<close> print into one static buffer with
  \<^verbatim>\<open>vsprintf\<close>, which does not know its size; \<open>formatted\<close> is the printed text. The
  overloads on \<^verbatim>\<open>std::string\<close> hand the text over; \<^verbatim>\<open>gdb\<close> does nothing in a
  build without \<^verbatim>\<open>DEBUG\<close>.
\<close>

definition BUFLEN :: nat where
  "BUFLEN = 1024 * 1024"

definition Log_format :: "LogPriority \<Rightarrow> string \<Rightarrow> (nat \<times> string) outcome" where
  "Log_format p formatted =
    (if length formatted < BUFLEN then Ok (priority_value p, c_str formatted) else Fault OutOfBounds)"

definition Log_err :: "string \<Rightarrow> (nat \<times> string) outcome" where
  "Log_err formatted = Log_format PErr formatted"

definition Log_warn :: "string \<Rightarrow> (nat \<times> string) outcome" where
  "Log_warn formatted = Log_format Warning formatted"

definition Log_info :: "string \<Rightarrow> (nat \<times> string) outcome" where
  "Log_info formatted = Log_format Info formatted"

definition Log_err_string :: "string \<Rightarrow> nat \<times> string" where
  "Log_err_string mes = (priority_value PErr, c_str mes)"

definition Log_warn_string :: "string \<Rightarrow> nat \<times> string" where
  "Log_warn_string mes = (priority_value Warning, c_str mes)"

definition Log_info_string :: "string \<Rightarrow> nat \<times> string" where
  "Log_info_string mes = (priority_value Info, c_str mes)"

section \<open>Memory usage\<close>

text \<open>
  \<^verbatim>\<open>parseLine\<close> on the array \<open>line\<close>, which holds a C string: it looks for the first
  digit, clears the byte \<^verbatim>\<open>i-3\<close> places after it, and reads a number.
\<close>

fun skip_to_digit :: "string \<Rightarrow> nat \<Rightarrow> nat outcome" where
  "skip_to_digit [] p = Fault OutOfBounds"
| "skip_to_digit (c # s) p = (if is_digit c then Ok p else skip_to_digit s (p + 1))"

definition Log_parseLine :: "string \<Rightarrow> int outcome" where
  "Log_parseLine line =
    (let i = int (length (c_str line)) in
     obind (skip_to_digit line 0) (\<lambda>p.
       (let k = int p + i - 3 in
        if 0 \<le> k \<and> k < int (length line)
        then Ok (atoi (drop p (line[nat k := CHR 0x00])))
        else Fault OutOfBounds)))"

text \<open>
  \<^verbatim>\<open>memUsage\<close> on the lines that \<^verbatim>\<open>fgets\<close> delivers, each in an array of 128
  bytes; \<open>None\<close> if the file cannot be opened.
\<close>

definition line_array :: "string \<Rightarrow> string" where
  "line_array s = take 127 s @ replicate (128 - length (take 127 s)) (CHR 0x00)"

fun find_vmsize :: "string list \<Rightarrow> int outcome" where
  "find_vmsize [] = Ok (- 1)"
| "find_vmsize (l # ls) =
    (if take 7 l = ''VmSize:'' then Log_parseLine (line_array l)
     else find_vmsize ls)"

definition Log_memUsage :: "string list option \<Rightarrow> int outcome" where
  "Log_memUsage file = (case file of None \<Rightarrow> Fault NullDeref | Some lines \<Rightarrow> find_vmsize lines)"

section \<open>Lemmas\<close>

definition put_string :: "string \<Rightarrow> log \<Rightarrow> log" where
  "put_string s l = fold (\<lambda>c l. snd (Log_overflow (int (of_char c)) l)) s l"

definition write_flushed :: "string list \<Rightarrow> log \<Rightarrow> log" where
  "write_flushed ss l = fold (\<lambda>s l. snd (Log_sync (put_string s l))) ss l"

lemma put_string_buffer: "put_string s l = l\<lparr>l_buffer := l_buffer l @ s\<rparr>"
proof (induction s arbitrary: l)
  case Nil
  then show ?case by (simp add: put_string_def)
next
  case (Cons c s)
  have "int (of_char c) \<noteq> eof_int" by (simp add: eof_int_def)
  moreover have "nat (int (of_char c) mod 256) = of_char c"
    using nat_of_char_less_256 [of c] by (simp add: nat_mod_distrib)
  ultimately have "snd (Log_overflow (int (of_char c)) l) = l\<lparr>l_buffer := l_buffer l @ [c]\<rparr>"
    by (simp add: Log_overflow_def)
  with Cons.IH show ?case by (simp add: put_string_def)
qed

lemma write_flushed_syslog:
  "l_buffer l = '''' \<Longrightarrow>
     write_flushed ss l =
       l\<lparr>l_syslog := l_syslog l @ map (\<lambda>s. (l_priority l, c_str s)) (filter (\<lambda>s. s \<noteq> '''') ss)\<rparr>"
proof (induction ss arbitrary: l)
  case Nil
  then show ?case by (simp add: write_flushed_def)
next
  case (Cons s ss)
  let ?l = "snd (Log_sync (put_string s l))"
  have l: "?l = (if s = '''' then l else l\<lparr>l_syslog := l_syslog l @ [(l_priority l, c_str s)]\<rparr>)"
    using Cons.prems by (simp add: put_string_buffer Log_sync_def)
  have "write_flushed (s # ss) l = write_flushed ss ?l" by (simp add: write_flushed_def)
  with Cons.IH [of ?l] Cons.prems show ?case by (simp add: l)
qed

lemma skip_to_digit_app:
  "\<forall>c \<in> set pre. \<not> is_digit c \<Longrightarrow> is_digit d \<Longrightarrow> skip_to_digit (pre @ d # s) p = Ok (p + length pre)"
  by (induction pre arbitrary: p) auto

lemma list_update_past_end: "length xs \<le> k \<Longrightarrow> (xs @ ys)[k := v] = xs @ ys[k - length xs := v]"
  by (simp add: list_update_append)

lemma line_array_app: "length l \<le> 127 \<Longrightarrow> line_array l = l @ replicate (128 - length l) (CHR 0x00)"
  by (simp add: line_array_def)

lemma length_c_str_line_array:
  "length l \<le> 127 \<Longrightarrow> CHR 0x00 \<notin> set l \<Longrightarrow> length (c_str (line_array l)) = length l"
  by (simp add: line_array_app c_str_def takeWhile_append takeWhile_eq_all_conv)

lemma atoi_cleared_behind:
  assumes "\<forall>c \<in> set ds. is_digit c" and "ds \<noteq> ''''" and "\<not> is_digit x"
    and "length (pre @ ds) \<le> k"
  shows "atoi (drop (length pre) ((pre @ ds @ x # xs)[k := CHR 0x00])) = int (atoi_digits ds)"
proof -
  let ?tail = "(x # xs)[k - length (pre @ ds) := CHR 0x00]"
  have "(pre @ ds @ x # xs)[k := CHR 0x00] = (pre @ ds) @ ?tail"
    using list_update_past_end [OF assms(4), of "x # xs" "CHR 0x00"] by (simp only: append_assoc)
  then have d: "drop (length pre) ((pre @ ds @ x # xs)[k := CHR 0x00]) = ds @ ?tail" by simp
  have "\<not> is_digit (hd ?tail)" and "?tail \<noteq> []"
    using assms(3) by (cases "k - length (pre @ ds)"; simp add: is_digit_def less_eq_char_def)+
  then obtain y ys where t: "?tail = y # ys" "\<not> is_digit y" by (cases ?tail) auto
  have "atoi (ds @ y # ys) = int (atoi_digits (ds @ y # ys))"
    using assms(1,2) atoi_number by (cases ds) auto
  then show ?thesis unfolding d t(1) atoi_digits_app [OF assms(1) t(2)] .
qed

lemma Log_parseLine_behind:
  assumes "\<forall>c \<in> set pre. \<not> is_digit c" and "\<forall>c \<in> set ds. is_digit c" and "ds \<noteq> ''''"
    and "line = pre @ ds @ CHR 0x20 # xs" and "length (c_str line) = n" and "length ds + 3 \<le> n"
  shows "Log_parseLine line =
     (if length pre + n - 3 < length line then Ok (int (atoi_digits ds)) else Fault OutOfBounds)"
proof -
  define k where "k = length pre + n - 3"
  obtain d ds' where ds: "ds = d # ds'" using assms(3) by (cases ds) auto
  have p: "skip_to_digit line 0 = Ok (length pre)"
    using skip_to_digit_app [of pre d "ds' @ CHR 0x20 # xs" 0] assms(1,2) by (simp add: assms(4) ds)
  have k: "int (length pre) + int n - 3 = int k" using assms(6) by (simp add: k_def)
  have "length (pre @ ds) \<le> k" using assms(6) by (simp add: k_def)
  then have "atoi (drop (length pre) (line[k := CHR 0x00])) = int (atoi_digits ds)"
    unfolding assms(4)
    using atoi_cleared_behind [OF assms(2,3), of "CHR 0x20" pre k xs] by (simp add: is_digit_def less_eq_char_def)
  then show ?thesis
    unfolding Log_parseLine_def p Let_def obind.simps assms(5) k nat_int k_def [symmetric] by simp
qed

lemma find_vmsize_skip:
  "\<forall>l \<in> set before. take 7 l \<noteq> ''VmSize:'' \<Longrightarrow> find_vmsize (before @ ls) = find_vmsize ls"
  by (induction before) auto

section \<open>Properties\<close>

text \<open>What is written to the log stream reaches the system log in order, one call for each flush
  that finds something, with the current priority and the text up to its first NUL; nothing stays
  behind in the buffer, and a text without flush stays there.\<close>
theorem Log_stream:
  "l_buffer l = '''' \<longrightarrow>
     put_string s (write_flushed ss l) =
       l\<lparr>l_buffer := s,
         l_syslog := l_syslog l @ map (\<lambda>s. (l_priority l, c_str s)) (filter (\<lambda>s. s \<noteq> '''') ss)\<rparr>"
  by (simp add: write_flushed_syslog put_string_buffer)

theorem Log_stream_witness:
  "l_syslog (put_string ''x'' (write_flushed [''a'', '''', ''b''] (Log_new 128))) = [(7, ''a''), (7, ''b'')]"
  using Log_stream [of "Log_new 128" "''x''" "[''a'', '''', ''b'']"]
  by (simp add: Log_new_def c_str_ident)

text \<open>On a \<^verbatim>\<open>VmSize\<close> line of \<^verbatim>\<open>/proc/self/status\<close> the memory usage is the
  number of the line. The byte \<^verbatim>\<open>parseLine\<close> clears lies behind the text, not before its
  unit: the offset was computed for the start of the line but is applied to the first digit. It is
  outside the array, and the call undefined, once the padding makes the line long enough.\<close>
theorem Log_memUsage_line:
  assumes "\<forall>c \<in> set blanks. \<not> is_digit c \<and> c \<noteq> CHR 0x00" and "ds \<noteq> ''''" and "\<forall>c \<in> set ds. is_digit c"
    and "line = ''VmSize:'' @ blanks @ ds @ '' kB'' @ [CHR 0x0A]" and "length line \<le> 127"
    and "\<forall>l \<in> set before. take 7 l \<noteq> ''VmSize:''"
  shows "Log_memUsage (Some (before @ line # rest)) =
     (if 4 + length blanks + length line < 128 then Ok (int (atoi_digits ds)) else Fault OutOfBounds)"
proof -
  have "CHR 0x00 \<notin> set line" using assms(1,3) is_digit_not_nul by (auto simp: assms(4))
  note len = length_c_str_line_array [OF assms(5) this]
  have "length (line_array line) = 128" using assms(5) by (simp add: line_array_app)
  moreover have "length (''VmSize:'' @ blanks) + length line - 3 = 4 + length blanks + length line"
    by simp
  ultimately have "Log_parseLine (line_array line) =
      (if 4 + length blanks + length line < 128 then Ok (int (atoi_digits ds)) else Fault OutOfBounds)"
    using Log_parseLine_behind [of "''VmSize:'' @ blanks" ds "line_array line"
        "''kB'' @ [CHR 0x0A] @ replicate (128 - length line) (CHR 0x00)" "length line"]
      assms(1,2,3) line_array_app [OF assms(5)] len
    by (simp add: assms(4) is_digit_def less_eq_char_def)
  moreover have "find_vmsize (line # rest) = Log_parseLine (line_array line)"
    by (simp add: assms(4))
  ultimately show ?thesis by (simp add: Log_memUsage_def find_vmsize_skip [OF assms(6)])
qed

theorem Log_memUsage_line_witness:
  "Log_memUsage (Some [''Name: w'', ''VmSize: 1234 kB'' @ [CHR 0x0A]]) = Ok 1234"
  using Log_memUsage_line [of "'' ''" "''1234''" "''VmSize: 1234 kB'' @ [CHR 0x0A]" "[''Name: w'']" "[]"]
  by (simp add: is_digit_def less_eq_char_def atoi_digits_def)

end
