(* ===== verification/BoostHelpers.thy ===== *)
theory BoostHelpers
  imports Prelude
begin

text \<open>
  \<^verbatim>\<open>src/BoostHelpers.cpp\<close>: the checks of the paths named in the configuration and the
  reading of a time. The file system is a parameter: the calls of \<^verbatim>\<open>boost::filesystem\<close>
  and of POSIX that the code makes, over a state \<open>'w\<close> of the disk. A call of boost throws
  (a \<^verbatim>\<open>filesystem_error\<close>) or returns. \<open>p_elems\<close> are the elements that
  iterating over a path visits, \<open>p_append\<close> is \<^verbatim>\<open>/=\<close>. The
  diagnostic lines are not modelled.
\<close>

record stat_info =
  st_uid :: u32
  st_gid :: u32
  st_mode :: u32

record 'w file_api =
  p_elems :: "string \<Rightarrow> string list"
  p_append :: "string \<Rightarrow> string \<Rightarrow> string"
  p_parent :: "string \<Rightarrow> string option"
  f_uid :: u32
  f_gid :: u32
  f_exists :: "'w \<Rightarrow> string \<Rightarrow> bool outcome"
  f_is_regular :: "'w \<Rightarrow> string \<Rightarrow> bool outcome"
  f_is_directory :: "'w \<Rightarrow> string \<Rightarrow> bool outcome"
  f_stat :: "'w \<Rightarrow> string \<Rightarrow> stat_info option"
  f_create_directories :: "'w \<Rightarrow> string \<Rightarrow> bool outcome \<times> 'w"
  f_open_create :: "'w \<Rightarrow> string \<Rightarrow> bool \<times> 'w"
  f_unlink :: "'w \<Rightarrow> string \<Rightarrow> 'w"
  f_read :: "'w \<Rightarrow> string \<Rightarrow> string option"

section \<open>The directory of the configuration\<close>

definition getConfigDir :: "'w file_api \<Rightarrow> 'w \<Rightarrow> string \<Rightarrow> string outcome" where
  "getConfigDir api w filePath =
    (case f_is_regular api w filePath of
       Ok r \<Rightarrow>
         Ok (if \<not> r then ''''
             else case p_parent api filePath of Some d \<Rightarrow> d @ ''/'' | None \<Rightarrow> ''./'')
     | Throw e \<Rightarrow> Ok ''''
     | Fault x \<Rightarrow> Fault x)"

definition fileExists :: "'w file_api \<Rightarrow> 'w \<Rightarrow> string \<Rightarrow> bool outcome" where
  "fileExists api w path = f_exists api w path"

section \<open>Checking a path\<close>

text \<open>The permission bits of \<^verbatim>\<open>sys/stat.h\<close>.\<close>

definition S_IRUSR :: u32 where "S_IRUSR = 256"
definition S_IWUSR :: u32 where "S_IWUSR = 128"
definition S_IXUSR :: u32 where "S_IXUSR = 64"
definition S_IRGRP :: u32 where "S_IRGRP = 32"
definition S_IWGRP :: u32 where "S_IWGRP = 16"
definition S_IXGRP :: u32 where "S_IXGRP = 8"
definition S_IROTH :: u32 where "S_IROTH = 4"
definition S_IWOTH :: u32 where "S_IWOTH = 2"
definition S_IXOTH :: u32 where "S_IXOTH = 1"

definition file_allowed :: "u32 \<Rightarrow> u32 \<Rightarrow> stat_info \<Rightarrow> bool" where
  "file_allowed uid gid info =
    (if st_uid info \<noteq> uid \<and> st_gid info \<noteq> gid then st_mode info AND (S_IROTH OR S_IWOTH) \<noteq> 0
     else if st_uid info = uid \<and> st_gid info \<noteq> gid then st_mode info AND (S_IRUSR OR S_IWUSR) \<noteq> 0
     else if st_uid info \<noteq> uid \<and> st_gid info = gid then st_mode info AND (S_IRGRP OR S_IWGRP) \<noteq> 0
     else st_mode info AND (S_IRUSR OR S_IWUSR) \<noteq> 0)"

definition dir_allowed :: "u32 \<Rightarrow> u32 \<Rightarrow> stat_info \<Rightarrow> bool" where
  "dir_allowed uid gid info =
    (if st_uid info \<noteq> uid \<and> st_gid info \<noteq> gid then st_mode info AND (S_IROTH OR S_IXOTH) \<noteq> 0
     else if st_uid info = uid \<and> st_gid info \<noteq> gid then st_mode info AND (S_IRUSR OR S_IXUSR) \<noteq> 0
     else if st_uid info \<noteq> uid \<and> st_gid info = gid then st_mode info AND (S_IRGRP OR S_IXGRP) \<noteq> 0
     else st_mode info AND (S_IRUSR OR S_IXUSR) \<noteq> 0)"

text \<open>
  A step of the loop either goes on or returns false. \<open>info\<close> is the variable that
  \<^verbatim>\<open>stat\<close> fills, \<open>None\<close> before its first success; a failed call leaves
  it as it was.
\<close>

datatype check = Continue | Rejected

definition create_missing :: "'w file_api \<Rightarrow> bool \<Rightarrow> string \<Rightarrow> 'w \<Rightarrow> check outcome \<times> 'w" where
  "create_missing api checkWrite test w =
    (if checkWrite then
       (case f_create_directories api w test of
          (Ok made, w') \<Rightarrow> (Ok (if made then Continue else Rejected), w')
        | (Throw e, w') \<Rightarrow> (Ok Rejected, w')
        | (Fault x, w') \<Rightarrow> (Fault x, w'))
     else (Ok Rejected, w))"

definition permitted :: "(stat_info \<Rightarrow> bool) \<Rightarrow> stat_info option \<Rightarrow> check outcome" where
  "permitted allowed info =
    (case info of None \<Rightarrow> Fault Uninitialised
     | Some i \<Rightarrow> Ok (if allowed i then Continue else Rejected))"

definition check_existing ::
  "'w file_api \<Rightarrow> bool \<Rightarrow> string \<Rightarrow> stat_info option \<Rightarrow> 'w \<Rightarrow> check outcome \<times> 'w" where
  "check_existing api checkWrite test info w =
    (case f_is_regular api w test of
       Ok True \<Rightarrow> (permitted (file_allowed (f_uid api) (f_gid api)) info, w)
     | Ok False \<Rightarrow>
         (case f_is_directory api w test of
            Ok True \<Rightarrow> (permitted (dir_allowed (f_uid api) (f_gid api)) info, w)
          | Ok False \<Rightarrow> create_missing api checkWrite test w
          | Throw e \<Rightarrow> (Throw e, w)
          | Fault x \<Rightarrow> (Fault x, w))
     | Throw e \<Rightarrow> (Throw e, w)
     | Fault x \<Rightarrow> (Fault x, w))"

definition next_info :: "'w file_api \<Rightarrow> 'w \<Rightarrow> string \<Rightarrow> stat_info option \<Rightarrow> stat_info option" where
  "next_info api w test info = (case f_stat api w (c_str test) of Some i \<Rightarrow> Some i | None \<Rightarrow> info)"

definition check_element ::
  "'w file_api \<Rightarrow> bool \<Rightarrow> string \<Rightarrow> stat_info option \<Rightarrow> 'w \<Rightarrow> check outcome \<times> stat_info option \<times> 'w"
where
  "check_element api checkWrite test info w =
    (if test = '''' \<or> test = ''/'' then (Ok Continue, info, w)
     else
       (case f_exists api w test of
          Ok True \<Rightarrow>
            (let info' = next_info api w test info in
             case check_existing api checkWrite test info' w of (r, w') \<Rightarrow> (r, info', w'))
        | Ok False \<Rightarrow> (case create_missing api checkWrite test w of (r, w') \<Rightarrow> (r, info, w'))
        | Throw x \<Rightarrow> (Throw x, info, w)
        | Fault x \<Rightarrow> (Fault x, info, w)))"

fun check_loop ::
  "'w file_api \<Rightarrow> bool \<Rightarrow> string list \<Rightarrow> string \<Rightarrow> stat_info option \<Rightarrow> 'w \<Rightarrow> check outcome \<times> 'w"
where
  "check_loop api checkWrite [] test0 info w = (Ok Continue, w)"
| "check_loop api checkWrite (e # es) test0 info w =
    (let test = p_append api test0 e in
     case check_element api checkWrite test info w of
       (Ok Continue, info', w') \<Rightarrow> check_loop api checkWrite es test info' w'
     | (r, info', w') \<Rightarrow> (r, w'))"

definition try_create :: "'w file_api \<Rightarrow> string \<Rightarrow> 'w \<Rightarrow> 'w" where
  "try_create api path w =
    (let file = c_str (path @ ''test'') in
     case f_open_create api w file of (opened, w') \<Rightarrow> if opened then f_unlink api w' file else w')"

text \<open>
  For a file the loop stops before the last element; stepping back from the end of an empty path
  is undefined.
\<close>

definition checkPath ::
  "'w file_api \<Rightarrow> string \<Rightarrow> bool \<Rightarrow> bool \<Rightarrow> 'w \<Rightarrow> bool outcome \<times> 'w" where
  "checkPath api path checkWrite isFile w =
    (let es = p_elems api path in
     if isFile \<and> es = [] then (Fault OutOfBounds, w)
     else
       (case check_loop api checkWrite (if isFile then butlast es else es) '''' None w of
          (Ok Continue, w') \<Rightarrow> (Ok True, if isFile \<and> checkWrite then try_create api path w' else w')
        | (Ok Rejected, w') \<Rightarrow> (Ok False, w')
        | (Throw e, w') \<Rightarrow> (Throw e, w')
        | (Fault x, w') \<Rightarrow> (Fault x, w')))"

section \<open>Reading a time\<close>

text \<open>
  \<open>time_match\<close> is \<^verbatim>\<open>regex_match\<close> with the expression below: where it matches, the
  offset of the second group, from which \<^verbatim>\<open>atoi\<close> reads. The result is an int.
\<close>

definition timeRegex :: string where
  "timeRegex = ''('' @ [CHR 0x5C] @ ''d+):('' @ [CHR 0x5C] @ ''d+):('' @ [CHR 0x5C] @ ''d+)''"

definition getSeconds :: "(string \<Rightarrow> string \<Rightarrow> nat option) \<Rightarrow> string \<Rightarrow> u32" where
  "getSeconds time_match s =
    (case time_match timeRegex (c_str s) of
       Some second \<Rightarrow> word_of_int (atoi (drop second (c_str s)))
     | None \<Rightarrow> - 1)"

section \<open>Lemmas\<close>

text \<open>The paths the loop looks at, and what a read-only check asks of each.\<close>

fun path_prefixes :: "'w file_api \<Rightarrow> string \<Rightarrow> string list \<Rightarrow> string list" where
  "path_prefixes api test0 [] = []"
| "path_prefixes api test0 (e # es) = (let test = p_append api test0 e in test # path_prefixes api test es)"

definition checked_elems :: "'w file_api \<Rightarrow> string \<Rightarrow> bool \<Rightarrow> string list" where
  "checked_elems api path isFile =
     path_prefixes api '''' (if isFile then butlast (p_elems api path) else p_elems api path)"

definition readable :: "'w file_api \<Rightarrow> 'w \<Rightarrow> string \<Rightarrow> bool" where
  "readable api w p \<longleftrightarrow>
     p = '''' \<or> p = ''/'' \<or>
     f_exists api w p = Ok True \<and>
     (case f_stat api w (c_str p) of
        None \<Rightarrow> False
      | Some i \<Rightarrow>
          f_is_regular api w p = Ok True \<and> file_allowed (f_uid api) (f_gid api) i
          \<or> f_is_regular api w p = Ok False \<and> f_is_directory api w p = Ok True
            \<and> dir_allowed (f_uid api) (f_gid api) i)"

text \<open>A disk on which no question fails, and what exists has its information.\<close>

definition answers :: "'w file_api \<Rightarrow> 'w \<Rightarrow> bool" where
  "answers api w \<longleftrightarrow>
     (\<forall>p. (f_exists api w p = Ok True \<and> f_stat api w (c_str p) \<noteq> None \<or> f_exists api w p = Ok False)
        \<and> f_is_regular api w p \<in> {Ok True, Ok False}
        \<and> f_is_directory api w p \<in> {Ok True, Ok False})"

lemma check_element_readable:
  assumes "answers api w"
  shows "\<exists>info'. check_element api False test info w =
    (Ok (if readable api w test then Continue else Rejected), info', w)"
proof -
  have e: "f_exists api w test = Ok True \<and> f_stat api w (c_str test) \<noteq> None \<or> f_exists api w test = Ok False"
    and r: "f_is_regular api w test = Ok True \<or> f_is_regular api w test = Ok False"
    and d: "f_is_directory api w test = Ok True \<or> f_is_directory api w test = Ok False"
    using assms unfolding answers_def by blast+
  consider "test = '''' \<or> test = ''/''" | "f_exists api w test = Ok False"
    | i where "f_exists api w test = Ok True" "f_stat api w (c_str test) = Some i"
    using e by blast
  then show ?thesis
  proof cases
    case 1
    then show ?thesis by (auto simp: check_element_def readable_def)
  next
    case 2
    then show ?thesis by (simp add: check_element_def readable_def create_missing_def)
  next
    case 3
    then show ?thesis using r d
      by (auto simp: check_element_def readable_def check_existing_def create_missing_def permitted_def
          next_info_def)
  qed
qed

lemma check_loop_readable:
  assumes "answers api w"
  shows "check_loop api False es test0 info w =
    (Ok (if \<forall>p \<in> set (path_prefixes api test0 es). readable api w p then Continue else Rejected), w)"
proof (induction es arbitrary: test0 info)
  case Nil
  then show ?case by simp
next
  case (Cons e es)
  obtain info' where "check_element api False (p_append api test0 e) info w =
      (Ok (if readable api w (p_append api test0 e) then Continue else Rejected), info', w)"
    using check_element_readable [OF assms] by blast
  then show ?case by (simp add: Let_def Cons.IH)
qed

lemma check_element_write_api:
  "check_element (api\<lparr>f_open_create := opn, f_unlink := unl\<rparr>) = check_element api"
proof -
  let ?api = "api\<lparr>f_open_create := opn, f_unlink := unl\<rparr>"
  have p: "f_exists ?api = f_exists api" "f_is_regular ?api = f_is_regular api"
    "f_is_directory ?api = f_is_directory api" "f_stat ?api = f_stat api"
    "f_create_directories ?api = f_create_directories api" "f_uid ?api = f_uid api" "f_gid ?api = f_gid api"
    by simp_all
  show ?thesis
    by (intro ext) (unfold check_element_def check_existing_def create_missing_def next_info_def p, rule refl)
qed

lemma check_loop_write_api:
  "check_loop (api\<lparr>f_open_create := opn, f_unlink := unl\<rparr>) checkWrite es test info w =
   check_loop api checkWrite es test info w"
proof (induction es arbitrary: test info w)
  case Nil
  then show ?case by (simp only: check_loop.simps)
next
  case (Cons e es)
  have p: "p_append (api\<lparr>f_open_create := opn, f_unlink := unl\<rparr>) = p_append api" by simp
  show ?case unfolding check_loop.simps check_element_write_api p Cons.IH by (rule refl)
qed

section \<open>Properties\<close>

text \<open>A path that is only to be read passes exactly if each of its prefixes (the last element
  aside for a file) is a regular file or a directory with one of the two permission bits of the
  caller's class; the check leaves the disk as it is. One bit is enough: of a file that may be
  written but not read, or a directory that may be read but not entered, the check says yes.\<close>
theorem checkPath_read_only:
  "answers api w \<Longrightarrow> isFile \<longrightarrow> p_elems api path \<noteq> [] \<Longrightarrow>
     checkPath api path False isFile w =
       (Ok (\<forall>p \<in> set (checked_elems api path isFile). readable api w p), w)"
  by (simp add: checkPath_def Let_def check_loop_readable checked_elems_def)

definition sample_disk :: "unit file_api" where
  "sample_disk =
     \<lparr>p_elems = (\<lambda>p. if p = ''a/b'' then [''a'', ''b''] else [p]),
      p_append = (\<lambda>p e. if p = '''' then e else p @ ''/'' @ e),
      p_parent = (\<lambda>p. None), f_uid = 33, f_gid = 33,
      f_exists = (\<lambda>w p. Ok True),
      f_is_regular = (\<lambda>w p. Ok (p = ''a/b'')),
      f_is_directory = (\<lambda>w p. Ok (p \<noteq> ''a/b'')),
      f_stat = (\<lambda>w p. Some \<lparr>st_uid = 0, st_gid = 0, st_mode = (if p = ''a/b'' then 2 else 5)\<rparr>),
      f_create_directories = (\<lambda>w p. (Ok True, w)),
      f_open_create = (\<lambda>w p. (False, w)), f_unlink = (\<lambda>w p. w), f_read = (\<lambda>w p. None)\<rparr>"

theorem checkPath_read_only_witness:
  "checkPath sample_disk ''a/b'' False False () = (Ok True, ())"
proof -
  have "answers sample_disk ()" by (simp add: answers_def sample_disk_def)
  moreover have "\<forall>p \<in> set (checked_elems sample_disk ''a/b'' False). readable sample_disk () p"
    by (simp add: checked_elems_def Let_def readable_def sample_disk_def c_str_def file_allowed_def
        dir_allowed_def S_IROTH_def S_IWOTH_def S_IXOTH_def)
  ultimately show ?thesis
    using checkPath_read_only [of sample_disk "()" False "''a/b''"] by (simp add: sample_disk_def)
qed

text \<open>The trial creation of the file at the end of a write check has no say: whatever opening
  and removing do, the answer is the same, so a path passes whose file cannot be created.\<close>
theorem checkPath_write_untested:
  "fst (checkPath (api\<lparr>f_open_create := opn, f_unlink := unl\<rparr>) path checkWrite isFile w) =
   fst (checkPath api path checkWrite isFile w)"
  by (simp add: checkPath_def Let_def check_loop_write_api split: outcome.split check.split prod.split)

text \<open>What the expression matches: three groups of digits, the second behind the first colon.\<close>

definition matches_time :: "(string \<Rightarrow> string \<Rightarrow> nat option) \<Rightarrow> bool" where
  "matches_time time_match \<longleftrightarrow>
     (\<forall>h m s. h \<noteq> '''' \<and> m \<noteq> '''' \<and> s \<noteq> '''' \<and> (\<forall>c \<in> set (h @ m @ s). is_digit c) \<longrightarrow>
        time_match timeRegex (h @ '':'' @ m @ '':'' @ s) = Some (length h + 1))"

text \<open>Of a time written as hours, minutes and seconds, \<^verbatim>\<open>getSeconds\<close> returns the
  minutes as an int: hours and seconds have no part in it, so an interval of thirty seconds is zero.\<close>
theorem getSeconds_minutes:
  assumes "matches_time time_match" and "h \<noteq> ''''" and "m \<noteq> ''''" and "s \<noteq> ''''"
    and digits: "\<forall>c \<in> set (h @ m @ s). is_digit c"
  shows "getSeconds time_match (h @ '':'' @ m @ '':'' @ s) = word_of_nat (atoi_digits m)"
proof -
  let ?t = "h @ '':'' @ m @ '':'' @ s"
  have "CHR 0x00 \<notin> set ?t" using digits by (auto dest: is_digit_not_nul)
  then have "c_str ?t = ?t" by (rule c_str_ident)
  moreover have "time_match timeRegex ?t = Some (length h + 1)"
    using assms by (simp add: matches_time_def)
  moreover have "atoi (m @ '':'' @ s) = int (atoi_digits m)"
  proof -
    have "atoi (m @ '':'' @ s) = int (atoi_digits (m @ '':'' @ s))"
      using assms(3) digits by (cases m) (auto simp: atoi_number)
    then show ?thesis
      using atoi_digits_app [of m "CHR '':''" s] digits by (simp add: is_digit_def less_eq_char_def)
  qed
  ultimately show ?thesis by (simp add: getSeconds_def)
qed

text \<open>A matcher that works as the expression says.\<close>

definition reference_time_match :: "string \<Rightarrow> string \<Rightarrow> nat option" where
  "reference_time_match expression t = Some (length (takeWhile is_digit t) + 1)"

theorem getSeconds_minutes_witness:
  "getSeconds reference_time_match ''00:00:30'' = 0 \<and> getSeconds reference_time_match ''01:15:30'' = 15"
proof -
  have m: "matches_time reference_time_match"
  proof -
    have colon: "\<not> is_digit (CHR '':'')" by (simp add: is_digit_def less_eq_char_def)
    then show ?thesis by (simp add: matches_time_def reference_time_match_def takeWhile_append)
  qed
  show ?thesis
    using getSeconds_minutes [OF m, of "''00''" "''00''" "''30''"]
      getSeconds_minutes [OF m, of "''01''" "''15''" "''30''"]
    by (simp add: is_digit_def less_eq_char_def atoi_digits_def)
qed

end
