(* ===== verification/ConfigLoad.thy ===== *)
theory ConfigLoad
  imports Config BoostHelpers
begin

text \<open>
  \<^verbatim>\<open>src/Config.cpp\<close>: reading the configuration file, with the file helpers. The
  document, an element and the disk are parameters, reached through the calls of TinyXML,
  Boost.Regex and the file system that the code makes (\<^verbatim>\<open>GetText\<close> gives a C string
  or null). Leaving the process with status 1 is a result of its own, with the message that
  \<^verbatim>\<open>Config::exit\<close> prints, if any.
\<close>

record ('w, 'd, 'e) config_libs =
  lib_files :: "'w file_api"
  time_match :: "string \<Rightarrow> string \<Rightarrow> nat option"
  regex_replace :: "string \<Rightarrow> string \<Rightarrow> string \<Rightarrow> string"
  strptime_hms :: "string \<Rightarrow> int \<times> int \<times> int \<Rightarrow> int \<times> int \<times> int"
  xml_load :: "'w \<Rightarrow> string \<Rightarrow> (string \<times> int \<times> int) + 'd"
  xml_root :: "'d \<Rightarrow> string \<Rightarrow> 'e option"
  xml_child :: "'e \<Rightarrow> string \<Rightarrow> 'e option"
  xml_text :: "'e \<Rightarrow> string option"
  xml_attribute :: "'e \<Rightarrow> string \<Rightarrow> string option"

section \<open>Results\<close>

datatype 'a load = Go 'a | Quit "string option" | Raised exn | Broken fault

primrec lbind :: "'a load \<Rightarrow> ('a \<Rightarrow> 'b load) \<Rightarrow> 'b load" where
  "lbind (Go a) f = f a"
| "lbind (Quit m) f = Quit m"
| "lbind (Raised e) f = Raised e"
| "lbind (Broken x) f = Broken x"

named_theorems load_simps \<open>how the steps of loading are sequenced\<close>

lemma lbind_eq_Go [load_simps]: "lbind m f = Go b \<longleftrightarrow> (\<exists>a. m = Go a \<and> f a = Go b)"
  by (cases m) auto

definition Config_exit :: "string \<Rightarrow> 'a load" where
  "Config_exit mes = Quit (Some mes)"

section \<open>Helpers\<close>

definition Config_to_bool :: "string \<Rightarrow> bool" where
  "Config_to_bool s \<longleftrightarrow> s \<noteq> ''false''"

definition Config_to_int :: "string \<Rightarrow> u32" where
  "Config_to_int s = word_of_int (atoi (c_str s))"

text \<open>\<open>tm\<close> is what the uninitialised structure held before the call.\<close>

definition Config_getTime :: "('w, 'd, 'e) config_libs \<Rightarrow> int \<times> int \<times> int \<Rightarrow> string \<Rightarrow> u32" where
  "Config_getTime libs tm p =
    (case strptime_hms libs p tm of (hour, mi, sec) \<Rightarrow> word_of_int (hour * 3600 + mi * 60 + sec))"

definition Config_getFileContents :: "('w, 'd, 'e) config_libs \<Rightarrow> 'w \<Rightarrow> string \<Rightarrow> string" where
  "Config_getFileContents libs w fileName =
    (case f_read (lib_files libs) w (c_str fileName) of Some cnt \<Rightarrow> cnt | None \<Rightarrow> '''')"

text \<open>The two expressions; the byte 5C is the backslash.\<close>

definition bs :: string where
  "bs = [CHR 0x5C]"

definition nowhitespace :: string where
  "nowhitespace =
     ''(?ix)(?>[^'' @ bs @ ''S ]'' @ bs @ ''s*| '' @ bs @ ''s{2,})(?=[^<]*+(?:<(?!/?(?:textarea|pre)''
     @ bs @ ''b)[^<]*+)*+(?:<(?>textarea|pre)'' @ bs @ ''b| '' @ bs @ ''z))''"

definition in_line :: string where
  "in_line = [CHR 0x0D, CHR ''?'', CHR 0x0A, CHR ''|'', CHR 0x0D, CHR ''|'', CHR 0x0A]"

definition Config_minifyhtml :: "('w, 'd, 'e) config_libs \<Rightarrow> string \<Rightarrow> string" where
  "Config_minifyhtml libs s = regex_replace libs in_line (regex_replace libs nowhitespace s '''') ''''"

section \<open>Elements\<close>

text \<open>\<^verbatim>\<open>(mel = e->FirstChildElement(tag)) && (mel->GetText())\<close>, with the text.\<close>

definition element_text :: "('w, 'd, 'e) config_libs \<Rightarrow> 'e \<Rightarrow> string \<Rightarrow> string option" where
  "element_text libs e tag = (case xml_child libs e tag of None \<Rightarrow> None | Some mel \<Rightarrow> xml_text libs mel)"

definition when_text :: "string option \<Rightarrow> (string \<Rightarrow> 's \<Rightarrow> 's load) \<Rightarrow> 's \<Rightarrow> 's load" where
  "when_text t f s = (case t of None \<Rightarrow> Go s | Some x \<Rightarrow> f x s)"

definition or_text :: "string option \<Rightarrow> string \<Rightarrow> string" where
  "or_text t old = (case t of None \<Rightarrow> old | Some x \<Rightarrow> x)"

text \<open>\<^verbatim>\<open>if(!BoostHelpers::checkPath(...)) ::exit(1)\<close>.\<close>

definition require_path ::
  "('w, 'd, 'e) config_libs \<Rightarrow> string \<Rightarrow> bool \<Rightarrow> bool \<Rightarrow> config \<times> 'w \<Rightarrow> (config \<times> 'w) load" where
  "require_path libs path checkWrite isFile s =
    (case s of (cfg, w) \<Rightarrow>
       (case checkPath (lib_files libs) path checkWrite isFile w of
          (Ok True, w') \<Rightarrow> Go (cfg, w')
        | (Ok False, w') \<Rightarrow> Quit None
        | (Throw e, w') \<Rightarrow> Raised e
        | (Fault x, w') \<Rightarrow> Broken x))"

section \<open>Sections of the file\<close>

definition load_mongo :: "('w, 'd, 'e) config_libs \<Rightarrow> 'e \<Rightarrow> config \<Rightarrow> config load" where
  "load_mongo libs mRoot cfg =
    (case xml_child libs mRoot ''mongo'' of
       None \<Rightarrow> Config_exit ''no mongo section in config file. exit''
     | Some mels \<Rightarrow>
         (case xml_child libs mels ''main'' of
            None \<Rightarrow> Config_exit ''no main section in mongo in config file. exit''
          | Some mel \<Rightarrow>
              Go (cfg\<lparr>mongo_main_db := or_text (element_text libs mel ''db'') (mongo_main_db cfg),
                      mongo_main_url := or_text (element_text libs mel ''url'') (mongo_main_url cfg)\<rparr>)))"

definition load_geocity :: "('w, 'd, 'e) config_libs \<Rightarrow> 'e \<Rightarrow> config \<times> 'w \<Rightarrow> (config \<times> 'w) load" where
  "load_geocity libs e =
     when_text (element_text libs e ''geocity_path'')
       (\<lambda>t (cfg, w). require_path libs t False True (cfg\<lparr>geocity_path := t\<rparr>, w))"

definition load_geocountry :: "('w, 'd, 'e) config_libs \<Rightarrow> 'e \<Rightarrow> config \<times> 'w \<Rightarrow> (config \<times> 'w) load" where
  "load_geocountry libs e =
     when_text (element_text libs e ''geocountry_path'')
       (\<lambda>t (cfg, w). require_path libs (geocity_path cfg) False True (cfg\<lparr>geocountry_path := t\<rparr>, w))"

definition load_socket :: "('w, 'd, 'e) config_libs \<Rightarrow> 'e \<Rightarrow> config \<times> 'w \<Rightarrow> (config \<times> 'w) load" where
  "load_socket libs e =
     when_text (element_text libs e ''socket_path'')
       (\<lambda>t (cfg, w).
          let cfg' = cfg\<lparr>server_socket_path := t\<rparr> in
          case checkPath (lib_files libs) t True True w of
            (Ok ok, w') \<Rightarrow> Go (cfg', if ok then f_unlink (lib_files libs) w' t else w')
          | (Throw x, w') \<Rightarrow> Raised x
          | (Fault x, w') \<Rightarrow> Broken x)"

definition load_sqlite_db :: "('w, 'd, 'e) config_libs \<Rightarrow> 'e \<Rightarrow> config \<times> 'w \<Rightarrow> (config \<times> 'w) load" where
  "load_sqlite_db libs mel s =
    (case s of (cfg, w) \<Rightarrow>
       (case element_text libs mel ''db'' of
          Some t \<Rightarrow>
            if t \<noteq> '':memory:'' then require_path libs t True True (cfg\<lparr>dbpath := t\<rparr>, w)
            else Go (cfg\<lparr>dbpath := t\<rparr>, w)
        | None \<Rightarrow> Go (cfg\<lparr>dbpath := '':memory:''\<rparr>, w)))"

definition load_schema :: "('w, 'd, 'e) config_libs \<Rightarrow> 'e \<Rightarrow> config \<times> 'w \<Rightarrow> (config \<times> 'w) load" where
  "load_schema libs mel =
     when_text (element_text libs mel ''schema'')
       (\<lambda>t (cfg, w).
          let p = cfgFilePath cfg @ t in require_path libs p False False (cfg\<lparr>db_dump_path := p\<rparr>, w))"

definition load_sqlite :: "('w, 'd, 'e) config_libs \<Rightarrow> 'e \<Rightarrow> config \<times> 'w \<Rightarrow> (config \<times> 'w) load" where
  "load_sqlite libs e s =
    (case xml_child libs e ''sqlite'' of
       None \<Rightarrow> Go s
     | Some mel \<Rightarrow> lbind (load_sqlite_db libs mel s) (load_schema libs mel))"

definition load_lock :: "('w, 'd, 'e) config_libs \<Rightarrow> 'e \<Rightarrow> config \<times> 'w \<Rightarrow> (config \<times> 'w) load" where
  "load_lock libs e =
     when_text (element_text libs e ''lock_file'')
       (\<lambda>t (cfg, w). require_path libs t True True (cfg\<lparr>lock_file := t\<rparr>, w))"

definition load_pid :: "('w, 'd, 'e) config_libs \<Rightarrow> 'e \<Rightarrow> config \<times> 'w \<Rightarrow> (config \<times> 'w) load" where
  "load_pid libs e =
     when_text (element_text libs e ''pid_file'')
       (\<lambda>t (cfg, w). require_path libs t True True (cfg\<lparr>pid_file := t\<rparr>, w))"

definition load_ip :: "('w, 'd, 'e) config_libs \<Rightarrow> 'e \<Rightarrow> config \<Rightarrow> config" where
  "load_ip libs e cfg = cfg\<lparr>server_ip := or_text (element_text libs e ''ip'') (server_ip cfg)\<rparr>"

definition load_children :: "('w, 'd, 'e) config_libs \<Rightarrow> 'e \<Rightarrow> config \<Rightarrow> config" where
  "load_children libs e cfg =
    (case element_text libs e ''children'' of
       None \<Rightarrow> cfg | Some t \<Rightarrow> cfg\<lparr>server_children := word_of_int (atoi t)\<rparr>)"

definition load_names :: "('w, 'd, 'e) config_libs \<Rightarrow> 'e \<Rightarrow> config \<Rightarrow> config" where
  "load_names libs e cfg =
     cfg\<lparr>mq_path := or_text (element_text libs e ''mq_path'') (mq_path cfg),
         user := or_text (element_text libs e ''user'') (user cfg),
         group := or_text (element_text libs e ''group'') (group cfg)\<rparr>"

definition load_time :: "('w, 'd, 'e) config_libs \<Rightarrow> 'e \<Rightarrow> config \<Rightarrow> config load" where
  "load_time libs e =
     when_text (element_text libs e ''time_update'')
       (\<lambda>t cfg.
          let n = getSeconds (time_match libs) t in
          if n = - 1 then Config_exit ''Config::Load: no time match in config.xml element: time_update''
          else Go (cfg\<lparr>time_update := n\<rparr>))"

text \<open>A template named by the element \<open>tag\<close>: the path is checked and the file is read.\<close>

definition load_file ::
  "('w, 'd, 'e) config_libs \<Rightarrow> 'e \<Rightarrow> string \<Rightarrow> string \<Rightarrow> (string \<Rightarrow> config \<Rightarrow> config)
   \<Rightarrow> config \<times> 'w \<Rightarrow> (config \<times> 'w) load" where
  "load_file libs mel tag missing store s =
    (case element_text libs mel tag of
       None \<Rightarrow> Config_exit missing
     | Some t \<Rightarrow>
         (let p = cfgFilePath (fst s) @ t in
          lbind (require_path libs p False True s)
            (\<lambda>(cfg, w). Go (store (Config_getFileContents libs w p) cfg, w))))"

definition load_teaser :: "('w, 'd, 'e) config_libs \<Rightarrow> 'e \<Rightarrow> config \<times> 'w \<Rightarrow> (config \<times> 'w) load" where
  "load_teaser libs mel =
     load_file libs mel ''teaser'' ''element template_teaser is not inited''
       (\<lambda>cnt cfg. cfg\<lparr>template := Config_minifyhtml libs cnt\<rparr>)"

definition load_error :: "('w, 'd, 'e) config_libs \<Rightarrow> 'e \<Rightarrow> config \<times> 'w \<Rightarrow> (config \<times> 'w) load" where
  "load_error libs mel =
     load_file libs mel ''error'' ''element template_error is not inited''
       (\<lambda>cnt cfg. cfg\<lparr>template_error := Config_minifyhtml libs cnt\<rparr>)"

definition load_swfobject :: "('w, 'd, 'e) config_libs \<Rightarrow> 'e \<Rightarrow> config \<times> 'w \<Rightarrow> (config \<times> 'w) load" where
  "load_swfobject libs mel =
     load_file libs mel ''swfobject'' ''element swfobject is not inited''
       (\<lambda>cnt cfg. cfg\<lparr>swfobject := cnt\<rparr>)"

definition load_templates :: "('w, 'd, 'e) config_libs \<Rightarrow> 'e \<Rightarrow> config \<times> 'w \<Rightarrow> (config \<times> 'w) load" where
  "load_templates libs e s =
    (case xml_child libs e ''templates'' of
       None \<Rightarrow> Go s
     | Some mel \<Rightarrow>
         lbind (load_teaser libs mel s) (\<lambda>s. lbind (load_error libs mel s) (load_swfobject libs mel)))"

definition load_cookie :: "('w, 'd, 'e) config_libs \<Rightarrow> 'e \<Rightarrow> config \<Rightarrow> config load" where
  "load_cookie libs e cfg =
    (case xml_child libs e ''cookie'' of
       None \<Rightarrow> Go cfg
     | Some mel \<Rightarrow>
         (case element_text libs mel ''name'' of
            None \<Rightarrow> Config_exit ''element cookie_name is not inited''
          | Some n \<Rightarrow>
              (case element_text libs mel ''domain'' of
                 None \<Rightarrow> Config_exit ''element cookie_domain is not inited''
               | Some d \<Rightarrow>
                   (case element_text libs mel ''path'' of
                      None \<Rightarrow> Config_exit ''element cookie_path is not inited''
                    | Some p \<Rightarrow> Go (cfg\<lparr>cookie_name := n, cookie_domain := d, cookie_path := p\<rparr>)))))"

text \<open>A part of the loading that leaves the disk alone.\<close>

definition on_config :: "(config \<Rightarrow> config load) \<Rightarrow> config \<times> 'w \<Rightarrow> (config \<times> 'w) load" where
  "on_config f s = (case s of (cfg, w) \<Rightarrow> lbind (f cfg) (\<lambda>cfg'. Go (cfg', w)))"

fun in_order :: "('s \<Rightarrow> 's load) list \<Rightarrow> 's \<Rightarrow> 's load" where
  "in_order [] s = Go s"
| "in_order (f # fs) s = lbind (f s) (in_order fs)"

definition server_steps ::
  "('w, 'd, 'e) config_libs \<Rightarrow> 'e \<Rightarrow> (config \<times> 'w \<Rightarrow> (config \<times> 'w) load) list" where
  "server_steps libs e =
     [on_config (\<lambda>cfg. Go (load_ip libs e cfg)), load_geocity libs e, load_geocountry libs e,
      load_socket libs e, on_config (\<lambda>cfg. Go (load_children libs e cfg)), load_sqlite libs e,
      load_lock libs e, load_pid libs e, on_config (\<lambda>cfg. Go (load_names libs e cfg)),
      on_config (load_time libs e), load_templates libs e, on_config (load_cookie libs e)]"

definition load_server :: "('w, 'd, 'e) config_libs \<Rightarrow> 'e \<Rightarrow> config \<times> 'w \<Rightarrow> (config \<times> 'w) load" where
  "load_server libs mRoot s =
    (case xml_child libs mRoot ''server'' of
       None \<Rightarrow> Config_exit ''no server section in config file. exit''
     | Some e \<Rightarrow> in_order (server_steps libs e) s)"

text \<open>\<^verbatim>\<open>strncmp(text,"1",1)>=0\<close>.\<close>

definition log_flag :: "string \<Rightarrow> bool" where
  "log_flag t = (case t of [] \<Rightarrow> False | c # _ \<Rightarrow> CHR ''1'' \<le> c)"

definition flag_text :: "string option \<Rightarrow> bool \<Rightarrow> bool" where
  "flag_text t old = (case t of None \<Rightarrow> old | Some x \<Rightarrow> log_flag x)"

definition load_log :: "('w, 'd, 'e) config_libs \<Rightarrow> 'e \<Rightarrow> config \<Rightarrow> config" where
  "load_log libs mRoot cfg =
    (case xml_child libs mRoot ''log'' of
       Some e \<Rightarrow>
         cfg\<lparr>logCoreTime := flag_text (element_text libs e ''coretime'') (logCoreTime cfg),
             logIP := flag_text (element_text libs e ''ip'') (logIP cfg),
             logCountry := flag_text (element_text libs e ''country'') (logCountry cfg),
             logRegion := flag_text (element_text libs e ''region'') (logRegion cfg),
             logCookie := flag_text (element_text libs e ''cookie'') (logCookie cfg),
             logContext := flag_text (element_text libs e ''context'') (logContext cfg),
             logSearch := flag_text (element_text libs e ''search'') (logSearch cfg),
             logInformerId := flag_text (element_text libs e ''informerId'') (logInformerId cfg),
             logLocation := flag_text (element_text libs e ''location'') (logLocation cfg)\<rparr>
     | None \<Rightarrow>
         cfg\<lparr>logCoreTime := True, logIP := True, logLocation := False, logInformerId := False,
             logSearch := False, logContext := False, logCookie := False, logCountry := False,
             logRegion := False\<rparr>)"

section \<open>The whole file\<close>

definition load_error_message :: "string \<Rightarrow> string \<times> int \<times> int \<Rightarrow> string" where
  "load_error_message fName err =
    (case err of (desc, row, col) \<Rightarrow>
       ''load file: '' @ fName @ '' error: '' @ desc @ '' row: '' @ dec_int row @ '' col: '' @ dec_int col)"

definition load_sections ::
  "('w, 'd, 'e) config_libs \<Rightarrow> 'e \<Rightarrow> config \<times> 'w \<Rightarrow> (config \<times> 'w) load" where
  "load_sections libs mRoot s =
    (case xml_attribute libs mRoot ''id'' of
       None \<Rightarrow> Broken NullDeref
     | Some i \<Rightarrow>
         in_order
           [on_config (load_mongo libs mRoot), load_server libs mRoot,
            on_config (\<lambda>cfg. Go (load_log libs mRoot cfg))]
           (apfst (\<lambda>cfg. cfg\<lparr>instanceId := word_of_int (atoi i)\<rparr>) s))"

type_synonym 'w load_state = "config \<times> counters \<times> 'w"

definition Config_Load ::
  "('w, 'd, 'e) config_libs \<Rightarrow> 'w load_state \<Rightarrow> (bool \<times> 'w load_state) load" where
  "Config_Load libs st =
    (case st of (cfg0, cnt, w) \<Rightarrow>
       (case getConfigDir (lib_files libs) w (mFileName cfg0) of
          Throw e \<Rightarrow> Raised e
        | Fault x \<Rightarrow> Broken x
        | Ok dir \<Rightarrow>
            (let cfg = cfg0\<lparr>mIsInited := False, cfgFilePath := dir\<rparr> in
             if dir = '''' then Go (False, cfg, cnt, w)
             else
               (case xml_load libs w (mFileName cfg) of
                  Inl err \<Rightarrow> Config_exit (load_error_message (mFileName cfg) err)
                | Inr doc \<Rightarrow>
                    (case xml_root libs doc ''root'' of
                       None \<Rightarrow> Config_exit (''does not found root section in file: '' @ mFileName cfg)
                     | Some mRoot \<Rightarrow>
                         lbind (load_sections libs mRoot (cfg, w))
                           (\<lambda>(cfg', w'). Go (True, cfg'\<lparr>mIsInited := True\<rparr>,
                              cnt\<lparr>request_processed := 0, last_time_request_processed := 0\<rparr>, w')))))))"

definition Config_LoadConfig ::
  "('w, 'd, 'e) config_libs \<Rightarrow> string \<Rightarrow> 'w load_state \<Rightarrow> (bool \<times> 'w load_state) load" where
  "Config_LoadConfig libs fName st =
    (case st of (cfg, cnt, w) \<Rightarrow> Config_Load libs (cfg\<lparr>mFileName := fName\<rparr>, cnt, w))"

section \<open>Lemmas\<close>

text \<open>A step keeps the value of a field of the configuration.\<close>

definition keeps :: "(config \<Rightarrow> 'a) \<Rightarrow> (config \<times> 'w \<Rightarrow> (config \<times> 'w) load) \<Rightarrow> bool" where
  "keeps g f \<longleftrightarrow> (\<forall>s s'. f s = Go s' \<longrightarrow> g (fst s') = g (fst s))"

lemma keepsD: "keeps g f \<Longrightarrow> f s = Go s' \<Longrightarrow> g (fst s') = g (fst s)"
  unfolding keeps_def by blast

lemma keepsI: "(\<And>s s'. f s = Go s' \<Longrightarrow> g (fst s') = g (fst s)) \<Longrightarrow> keeps g f"
  unfolding keeps_def by blast

lemma keeps_lbind:
  assumes "keeps g f" and "keeps g h"
  shows "keeps g (\<lambda>s. lbind (f s) h)"
proof (rule keepsI)
  fix s s'
  assume "lbind (f s) h = Go s'"
  then obtain t where "f s = Go t" and "h t = Go s'" unfolding lbind_eq_Go by blast
  then show "g (fst s') = g (fst s)"
    using keepsD [OF assms(1)] keepsD [OF assms(2)] by simp
qed

lemma keeps_Go: "keeps g Go"
  by (rule keepsI) simp

lemma keeps_in_order: "\<forall>f \<in> set fs. keeps g f \<Longrightarrow> keeps g (in_order fs)"
proof (induction fs)
  case Nil
  then show ?case by (intro keepsI) simp
next
  case (Cons f fs)
  have "keeps g (\<lambda>s. lbind (f s) (in_order fs))" by (rule keeps_lbind) (use Cons in auto)
  then show ?case by (simp add: keeps_def)
qed

lemma in_order_append: "in_order (fs @ gs) s = lbind (in_order fs s) (in_order gs)"
proof (induction fs arbitrary: s)
  case Nil
  then show ?case by simp
next
  case (Cons f fs)
  then show ?case by (cases "f s") simp_all
qed

lemma require_path_Go [load_simps]:
  "require_path libs p cw isf (cfg, w) = Go (cfg', w') \<longleftrightarrow>
     cfg' = cfg \<and> checkPath (lib_files libs) p cw isf w = (Ok True, w')"
  by (auto simp: require_path_def split: prod.splits outcome.splits bool.splits)

lemma on_config_Go [load_simps]: "on_config f s = Go s' \<longleftrightarrow> snd s' = snd s \<and> f (fst s) = Go (fst s')"
  by (cases s; cases s') (auto simp: on_config_def load_simps)

lemma when_text_Go [load_simps]:
  "when_text t f s = Go s' \<longleftrightarrow> (t = None \<and> s' = s \<or> (\<exists>x. t = Some x \<and> f x s = Go s'))"
  by (cases t) (auto simp: when_text_def)

lemmas path_steps =
  load_geocity_def load_geocountry_def load_socket_def load_sqlite_def load_sqlite_db_def load_schema_def
  load_lock_def load_pid_def

lemmas plain_steps =
  load_ip_def load_children_def load_names_def load_time_def load_cookie_def load_mongo_def load_log_def

lemma keeps_when_text: "(\<And>x. keeps g (f x)) \<Longrightarrow> keeps g (when_text t f)"
  by (rule keepsI) (auto simp: load_simps dest: keepsD)

lemma keeps_require_path:
  "(\<And>cfg. g (upd cfg) = g cfg) \<Longrightarrow>
     keeps g (\<lambda>(cfg, w). require_path libs (p cfg) checkWrite isFile (upd cfg, w))"
  by (rule keepsI) (auto simp: load_simps split: prod.splits)

lemma keeps_path_steps:
  "keeps cfgFilePath (load_geocity libs e)" "keeps cfgFilePath (load_geocountry libs e)"
  "keeps cfgFilePath (load_lock libs e)" "keeps cfgFilePath (load_pid libs e)"
  "keeps cfgFilePath (load_schema libs e)"
  unfolding path_steps Let_def by (intro keeps_when_text keeps_require_path; simp)+

lemma keeps_socket: "keeps cfgFilePath (load_socket libs e)"
  unfolding path_steps Let_def
  by (intro keeps_when_text, rule keepsI) (auto split: prod.splits outcome.splits)

lemma keeps_sqlite_db: "keeps cfgFilePath (load_sqlite_db libs e)"
  by (rule keepsI) (auto simp: path_steps load_simps split: option.splits if_splits prod.splits)

lemma keeps_sqlite: "keeps cfgFilePath (load_sqlite libs e)"
proof (cases "xml_child libs e ''sqlite''")
  case None
  then show ?thesis by (intro keepsI) (simp add: load_sqlite_def)
next
  case (Some mel)
  have "keeps cfgFilePath (\<lambda>s. lbind (load_sqlite_db libs mel s) (load_schema libs mel))"
    by (intro keeps_lbind keeps_sqlite_db keeps_path_steps)
  with Some show ?thesis by (simp add: keeps_def load_sqlite_def)
qed

lemma keeps_on_config: "(\<And>c c'. f c = Go c' \<Longrightarrow> g c' = g c) \<Longrightarrow> keeps g (on_config f)"
  by (rule keepsI) (auto simp: load_simps)

lemma keeps_plain_steps:
  "keeps cfgFilePath (on_config (\<lambda>cfg. Go (load_ip libs e cfg)))"
  "keeps cfgFilePath (on_config (\<lambda>cfg. Go (load_children libs e cfg)))"
  "keeps cfgFilePath (on_config (\<lambda>cfg. Go (load_names libs e cfg)))"
  "keeps cfgFilePath (on_config (load_time libs e))"
  "keeps cfgFilePath (on_config (load_mongo libs e))"
  by (rule keeps_on_config;
      auto simp: plain_steps load_simps Let_def Config_exit_def split: option.splits if_splits)+

definition templates_of :: "config \<Rightarrow> string \<times> string \<times> string" where
  "templates_of cfg = (template cfg, template_error cfg, swfobject cfg)"

lemma keeps_cookie: "keeps templates_of (on_config (load_cookie libs e))"
  by (rule keeps_on_config)
    (auto simp: plain_steps templates_of_def Config_exit_def split: option.splits)

lemma keeps_log: "keeps templates_of (on_config (\<lambda>cfg. Go (load_log libs e cfg)))"
  by (rule keeps_on_config) (auto simp: plain_steps templates_of_def split: option.splits)

text \<open>What a load that says true has found in the file.\<close>

lemma Config_Load_True:
  assumes "Config_Load libs (cfg, cnt, w) = Go (True, cfg', cnt', w')"
  obtains dir doc rt c where
    "getConfigDir (lib_files libs) w (mFileName cfg) = Ok dir"
    "xml_load libs w (mFileName cfg) = Inr doc" "xml_root libs doc ''root'' = Some rt"
    "load_sections libs rt (cfg\<lparr>mIsInited := False, cfgFilePath := dir\<rparr>, w) = Go (c, w')"
    "cfg' = c\<lparr>mIsInited := True\<rparr>" "request_processed cnt' = 0" "last_time_request_processed cnt' = 0"
  using assms
  by (auto simp: Config_Load_def Let_def Config_exit_def load_simps
      split: outcome.splits if_splits sum.splits option.splits)

lemma load_templates_Go:
  assumes "load_templates libs e (cfg, w) = Go (cfg', w')" and "xml_child libs e ''templates'' = Some mel"
  shows "\<exists>t err s w1 w2 w3.
     element_text libs mel ''teaser'' = Some t \<and> element_text libs mel ''error'' = Some err \<and>
     element_text libs mel ''swfobject'' = Some s \<and>
     template cfg' = Config_minifyhtml libs (Config_getFileContents libs w1 (cfgFilePath cfg @ t)) \<and>
     template_error cfg' = Config_minifyhtml libs (Config_getFileContents libs w2 (cfgFilePath cfg @ err)) \<and>
     swfobject cfg' = Config_getFileContents libs w3 (cfgFilePath cfg @ s)"
  using assms
  by (auto simp: load_templates_def load_teaser_def load_error_def load_swfobject_def load_file_def
      load_simps Let_def Config_exit_def split: option.splits) (rule exI, rule refl)+

text \<open>The steps before the templates keep the directory, those behind them the templates.\<close>

lemma server_steps_split:
  "server_steps libs e = take 10 (server_steps libs e) @ load_templates libs e # [on_config (load_cookie libs e)]"
  by (simp add: server_steps_def)

lemma keeps_before_templates: "keeps cfgFilePath (in_order (take 10 (server_steps libs e)))"
  by (rule keeps_in_order)
    (simp add: server_steps_def keeps_plain_steps keeps_path_steps keeps_socket keeps_sqlite)

lemma load_sections_Go:
  assumes "load_sections libs rt (cfg, w) = Go (cfg', w')" and "xml_child libs rt ''server'' = Some e"
  obtains c1 w1 c2 w2 where "cfgFilePath c1 = cfgFilePath cfg"
    and "load_templates libs e (c1, w1) = Go (c2, w2)" and "templates_of cfg' = templates_of c2"
proof -
  obtain i m s where i: "on_config (load_mongo libs rt) (cfg\<lparr>instanceId := i\<rparr>, w) = Go m"
    and s: "in_order (server_steps libs e) m = Go s"
    and l: "on_config (\<lambda>cfg. Go (load_log libs rt cfg)) s = Go (cfg', w')"
    using assms by (auto simp: load_sections_def load_server_def lbind_eq_Go split: option.splits)
  obtain a b where a: "in_order (take 10 (server_steps libs e)) m = Go a"
    and b: "load_templates libs e a = Go b" and c: "on_config (load_cookie libs e) b = Go s"
    using s by (subst (asm) server_steps_split) (auto simp: in_order_append lbind_eq_Go)
  have "cfgFilePath (fst a) = cfgFilePath cfg"
    using keepsD [OF keeps_before_templates a] keepsD [OF keeps_plain_steps(5) i] by simp
  moreover have "templates_of cfg' = templates_of (fst b)"
    using keepsD [OF keeps_log l] keepsD [OF keeps_cookie c] by simp
  ultimately show thesis using that [of "fst a" "snd a" "fst b" "snd b"] b by simp
qed

section \<open>The file of the repository\<close>

text \<open>\<^verbatim>\<open>config.xml\<close>, with one host of the database instead of three.\<close>

datatype xml = Element (tag: string) (attrs: "(string \<times> string) list") (content: "string option")
  (subelements: "xml list")

fun find_element :: "xml list \<Rightarrow> string \<Rightarrow> xml option" where
  "find_element [] t = None"
| "find_element (e # es) t = (if tag e = t then Some e else find_element es t)"

definition leaf :: "string \<Rightarrow> string \<Rightarrow> xml" where
  "leaf t x = Element t [] (Some x) []"

definition node :: "string \<Rightarrow> xml list \<Rightarrow> xml" where
  "node t es = Element t [] None es"

definition repository_config :: xml where
  "repository_config =
     Element ''root'' [(''id'', ''0'')] None
       [node ''server''
          [leaf ''ip'' ''212.113.34.134'', leaf ''lock_file'' ''/run/worker-informer/lock'',
           leaf ''pid_file'' ''/run/worker-informer/pid'', leaf ''user'' ''www-data'',
           leaf ''group'' ''www-data'', leaf ''socket_path'' ''/run/worker-informer/sock'',
           leaf ''children'' ''10'',
           leaf ''mq_path'' ''test-worker:test-worker@srv-4.yottos.com/test-worker'',
           node ''sqlite'' [leaf ''db'' '':memory:'', leaf ''schema'' ''db_dump''],
           leaf ''geocountry_path'' ''/usr/share/GeoIP/GeoIP.dat'',
           leaf ''geocity_path'' ''/usr/share/GeoIP/GeoLiteCity.dat'',
           node ''cookie'' [leaf ''name'' ''yottos_unique_id'', leaf ''domain'' ''.yottos.com'', leaf ''path'' ''/''],
           node ''templates''
             [leaf ''teaser'' ''template/teaser.html'', leaf ''error'' ''template/error.html'',
              leaf ''swfobject'' ''template/swfobject.js''],
           leaf ''time_update'' ''00:15:00''],
        node ''mongo'' [node ''main'' [leaf ''url'' ''mongodb://srv-5.yottos.com:27018'', leaf ''db'' ''getmyad_db'']],
        node ''log''
          [leaf ''coretime'' ''0'', leaf ''ip'' ''0'', leaf ''country'' ''0'', leaf ''region'' ''0'', leaf ''cookie'' ''0'',
           leaf ''context'' ''0'', leaf ''search'' ''0'', leaf ''informerId'' ''0'', leaf ''location'' ''0'']]"

definition sample_libs :: "(unit, xml, xml) config_libs" where
  "sample_libs =
     \<lparr>lib_files = sample_disk\<lparr>f_is_regular := (\<lambda>w p. Ok (p = ''config.xml'')),
          f_read := (\<lambda>w p. if p = ''./template/error.html'' then Some (''<html>'' @ [CHR 0x0A] @ ''</html>'')
                           else Some (''%1%'' @ [CHR 0x0A] @ ''%2%''))\<rparr>,
      time_match = reference_time_match,
      regex_replace = (\<lambda>p s r. if p = in_line then filter (\<lambda>c. c \<noteq> CHR 0x0D \<and> c \<noteq> CHR 0x0A) s else s),
      strptime_hms = (\<lambda>s tm. tm),
      xml_load = (\<lambda>w p. Inr (node '''' [repository_config])),
      xml_root = (\<lambda>d t. find_element (subelements d) t),
      xml_child = (\<lambda>e t. find_element (subelements e) t),
      xml_text = content,
      xml_attribute = (\<lambda>e a. map_of (attrs e) a)\<rparr>"

definition no_config :: config where
  "no_config = (sample_config '''' '''')\<lparr>server_ip := '''', cfgFilePath := '''', template_error := '''',
     time_update := 0, logCoreTime := True, mIsInited := False\<rparr>"

lemma sample_load:
  "Config_Load sample_libs (no_config, \<lparr>request_processed = 5, last_time_request_processed = 5\<rparr>, ()) =
     Go (True, (sample_config ''%1%%2%'' '''')\<lparr>swfobject := ''%1%'' @ [CHR 0x0A] @ ''%2%'', db_dump_path := ''./db_dump''\<rparr>,
         \<lparr>request_processed = 0, last_time_request_processed = 0\<rparr>, ())"
  by code_simp

section \<open>Properties\<close>

text \<open>C32: when loading returns, it has said whether the configuration is usable: true leaves it
  initialised, with both request counters at zero and the three obligatory sections found in the
  file; false only means that there is no regular file of that name, and leaves everything but the
  two bookkeeping fields as it was. Any other defect ends the process or throws.\<close>
theorem Config_Load_result:
  assumes "Config_Load libs (cfg, cnt, w) = Go (r, cfg', cnt', w')"
  shows "mIsInited cfg' = r \<and>
    (if r
     then request_processed cnt' = 0 \<and> last_time_request_processed cnt' = 0 \<and>
       (\<exists>doc rt mongo main server. xml_load libs w (mFileName cfg) = Inr doc \<and>
          xml_root libs doc ''root'' = Some rt \<and> xml_attribute libs rt ''id'' \<noteq> None \<and>
          xml_child libs rt ''mongo'' = Some mongo \<and> xml_child libs mongo ''main'' = Some main \<and>
          xml_child libs rt ''server'' = Some server)
     else getConfigDir (lib_files libs) w (mFileName cfg) = Ok '''' \<and>
       cfg' = cfg\<lparr>mIsInited := False, cfgFilePath := ''''\<rparr> \<and> cnt' = cnt \<and> w' = w)"
proof (cases r)
  case True
  with assms have "Config_Load libs (cfg, cnt, w) = Go (True, cfg', cnt', w')" by simp
  then show ?thesis
    by (rule Config_Load_True)
      (auto simp: True load_sections_def load_mongo_def load_server_def load_simps Config_exit_def
        split: option.splits)
next
  case False
  then show ?thesis
    using assms
    by (auto simp: Config_Load_def Let_def Config_exit_def load_simps
        split: outcome.splits if_splits sum.splits option.splits)
qed

theorem Config_Load_result_witness:
  "mIsInited ((sample_config ''%1%%2%'' '''')\<lparr>swfobject := ''%1%'' @ [CHR 0x0A] @ ''%2%'',
     db_dump_path := ''./db_dump''\<rparr>)"
  using Config_Load_result [OF sample_load] by simp

text \<open>After a successful load the page templates are the files named in the file, read relative
  to its directory and passed through the minification, whose last step drops every line break,
  those inside preformatted text too; the script of the flash banner is kept as it is.\<close>
theorem Config_Load_templates:
  assumes "Config_Load libs (cfg, cnt, w) = Go (True, cfg', cnt', w')"
    and "getConfigDir (lib_files libs) w (mFileName cfg) = Ok dir"
    and "xml_load libs w (mFileName cfg) = Inr doc" and "xml_root libs doc ''root'' = Some rt"
    and "xml_child libs rt ''server'' = Some server"
    and "xml_child libs server ''templates'' = Some mel"
    and "\<forall>s. regex_replace libs in_line s '''' = filter (\<lambda>c. c \<noteq> CHR 0x0D \<and> c \<noteq> CHR 0x0A) s"
  shows "\<exists>t err s w1 w2 w3.
     element_text libs mel ''teaser'' = Some t \<and> element_text libs mel ''error'' = Some err \<and>
     element_text libs mel ''swfobject'' = Some s \<and>
     template cfg' = filter (\<lambda>c. c \<noteq> CHR 0x0D \<and> c \<noteq> CHR 0x0A)
       (regex_replace libs nowhitespace (Config_getFileContents libs w1 (dir @ t)) '''') \<and>
     template_error cfg' = filter (\<lambda>c. c \<noteq> CHR 0x0D \<and> c \<noteq> CHR 0x0A)
       (regex_replace libs nowhitespace (Config_getFileContents libs w2 (dir @ err)) '''') \<and>
     swfobject cfg' = Config_getFileContents libs w3 (dir @ s)"
proof -
  obtain c where c: "load_sections libs rt (cfg\<lparr>mIsInited := False, cfgFilePath := dir\<rparr>, w) = Go (c, w')"
    and cfg': "cfg' = c\<lparr>mIsInited := True\<rparr>"
    using assms(1) by (rule Config_Load_True) (use assms(2-4) in auto)
  obtain c1 w1 c2 w2 where k: "cfgFilePath c1 = cfgFilePath (cfg\<lparr>mIsInited := False, cfgFilePath := dir\<rparr>)"
    and l: "load_templates libs server (c1, w1) = Go (c2, w2)" and t: "templates_of c = templates_of c2"
    using c assms(5) by (rule load_sections_Go)
  have "template cfg' = template c2" and "template_error cfg' = template_error c2"
    and "swfobject cfg' = swfobject c2"
    using t by (simp_all add: cfg' templates_of_def)
  then show ?thesis
    using load_templates_Go [OF l assms(6)] k by (simp add: Config_minifyhtml_def assms(7))
qed

theorem Config_Load_templates_witness:
  "\<exists>t s w1 w3. element_text sample_libs (node ''templates''
       [leaf ''teaser'' ''template/teaser.html'', leaf ''error'' ''template/error.html'',
        leaf ''swfobject'' ''template/swfobject.js'']) ''teaser'' = Some t \<and>
     ''%1%%2%'' = filter (\<lambda>c. c \<noteq> CHR 0x0D \<and> c \<noteq> CHR 0x0A)
       (regex_replace sample_libs nowhitespace (Config_getFileContents sample_libs w1 (''./'' @ t)) '''')"
proof -
  have d: "getConfigDir (lib_files sample_libs) () (mFileName no_config) = Ok ''./''" by code_simp
  have x: "xml_load sample_libs () (mFileName no_config) = Inr (node '''' [repository_config])"
    by (simp add: sample_libs_def)
  have r: "xml_root sample_libs (node '''' [repository_config]) ''root'' = Some repository_config" by code_simp
  have "\<exists>server. xml_child sample_libs repository_config ''server'' = Some server \<and>
      xml_child sample_libs server ''templates'' = Some (node ''templates''
       [leaf ''teaser'' ''template/teaser.html'', leaf ''error'' ''template/error.html'',
        leaf ''swfobject'' ''template/swfobject.js''])"
    by (simp add: sample_libs_def repository_config_def node_def leaf_def)
  then obtain server where e: "xml_child sample_libs repository_config ''server'' = Some server"
    and m: "xml_child sample_libs server ''templates'' = Some (node ''templates''
       [leaf ''teaser'' ''template/teaser.html'', leaf ''error'' ''template/error.html'',
        leaf ''swfobject'' ''template/swfobject.js''])" by blast
  have f: "\<forall>s. regex_replace sample_libs in_line s '''' = filter (\<lambda>c. c \<noteq> CHR 0x0D \<and> c \<noteq> CHR 0x0A) s"
    by (simp add: sample_libs_def)
  from Config_Load_templates [OF sample_load d x r e m f] show ?thesis
    by (auto simp: sample_config_def)
qed

text \<open>With a log section that sets all nine flags, something is logged unless every text starts
  with a byte below the digit one: \<^verbatim>\<open>false\<close>, \<^verbatim>\<open>no\<close> and
  \<^verbatim>\<open>off\<close> switch a flag on, the comparison being an order, not an equality.\<close>
theorem Config_log_flags:
  assumes "xml_child libs rt ''log'' = Some e"
    and "\<forall>t \<in> set [''coretime'', ''ip'', ''country'', ''region'', ''cookie'', ''context'', ''search'',
            ''informerId'', ''location'']. element_text libs e t = Some (texts t)"
  shows "Config_toLog (load_log libs rt cfg) \<longleftrightarrow>
     (\<exists>t \<in> set [''coretime'', ''ip'', ''country'', ''region'', ''cookie'', ''context'', ''search'',
            ''informerId'', ''location'']. texts t \<noteq> '''' \<and> CHR ''1'' \<le> hd (texts t))"
proof -
  have f: "log_flag t \<longleftrightarrow> t \<noteq> '''' \<and> CHR ''1'' \<le> hd t" for t
    by (cases t) (simp_all add: log_flag_def)
  show ?thesis using assms by (simp add: load_log_def Config_toLog_def flag_text_def f)
qed

theorem Config_log_flags_witness:
  "Config_toLog (load_log sample_libs
     (node '''' [node ''log'' (map (\<lambda>t. leaf t ''false'') [''coretime'', ''ip'', ''country'', ''region'',
        ''cookie'', ''context'', ''search'', ''informerId'', ''location''])]) no_config)"
  by (subst Config_log_flags [where texts = "\<lambda>t. ''false''"])
    (auto simp: sample_libs_def node_def leaf_def element_text_def less_eq_char_def)

end
