(* ===== verification/DataBase.thy ===== *)
theory DataBase
  imports ConfigLoad "HOL-Library.Multiset"
begin

text \<open>
  \<^verbatim>\<open>src/DataBase.cpp\<close>: opening the local SQLite database and filling it from the
  SQL files of the dump directory. SQLite (through Kompex) and the directory and file calls are
  parameters over a state \<open>'w\<close> of the disk and the database; a call of SQLite throws
  (\<open>Some\<close> of the message) or not. Lines for the system log are not modelled; a message
  printed before the process ends is that of \<open>Quit\<close>.
\<close>

record 'w db_api =
  db_files :: "'w file_api"
  d_open :: "'w \<Rightarrow> string \<Rightarrow> int"
  d_size :: "'w \<Rightarrow> string \<Rightarrow> int"
  d_read :: "'w \<Rightarrow> string \<Rightarrow> string"
  d_list :: "'w \<Rightarrow> string \<Rightarrow> string list option"
  d_connect :: "string \<Rightarrow> u32 \<Rightarrow> 'w \<Rightarrow> exn option \<times> 'w"
  d_statement :: "string \<Rightarrow> 'w \<Rightarrow> exn option \<times> 'w"
  d_begin :: "'w \<Rightarrow> exn option \<times> 'w"
  d_commit :: "'w \<Rightarrow> exn option \<times> 'w"
  d_behind :: string

section \<open>Reading a file into a block of its size\<close>

text \<open>
  The block is filled with zeros and then with the bytes read; a size of -1 (a failed
  \<^verbatim>\<open>fstat\<close>) asks for a block that cannot be had, and the null pointer is written
  through.
\<close>

definition read_block :: "'w db_api \<Rightarrow> 'w \<Rightarrow> string \<Rightarrow> string load" where
  "read_block api w file =
    (let sz = d_size api w file in
     if sz < 0 then Broken NullDeref
     else if int (length (d_read api w file)) \<noteq> sz then Quit (Some (''Error read file: '' @ file))
     else Go (d_read api w file))"

definition DataBase_getSqlFile :: "'w db_api \<Rightarrow> string \<Rightarrow> 'w \<Rightarrow> string \<Rightarrow> string load" where
  "DataBase_getSqlFile api dirName w file =
    (let path = dirName @ ''/'' @ file in
     if d_open api w path < 2 then Quit None else read_block api w path)"

section \<open>SQL files\<close>

text \<open>
  \<^verbatim>\<open>SqlStatement\<close> takes a string built from a pointer into the block: it reads on to
  the first zero byte, in the block or behind it (\<open>d_behind\<close>).
\<close>

definition statement_at :: "'w db_api \<Rightarrow> string \<Rightarrow> string \<Rightarrow> 'w \<Rightarrow> 'w load" where
  "statement_at api file rest w =
    (let bytes = rest @ d_behind api in
     if CHR 0x00 \<notin> set bytes then Broken OutOfBounds
     else
       (case d_statement api (c_str bytes) w of
          (None, w') \<Rightarrow> Go w'
        | (Some e, w') \<Rightarrow> Quit (Some (''error in file: '' @ file @ '': '' @ e @ [CHR 0x0A]))))"

text \<open>The loop at \<^verbatim>\<open>p\<close>, given the bytes from there to the end of the block.\<close>

fun sql_loop :: "'w db_api \<Rightarrow> string \<Rightarrow> string \<Rightarrow> 'w \<Rightarrow> 'w load" where
  "sql_loop api file [] w = Go w"
| "sql_loop api file (c # rest) w =
    (if c = CHR '';'' \<and> 30 < length (c # rest)
     then lbind (statement_at api file rest w) (sql_loop api file rest)
     else sql_loop api file rest w)"

definition DataBase_runSqlFile :: "'w db_api \<Rightarrow> string \<Rightarrow> 'w \<Rightarrow> (bool \<times> 'w) load" where
  "DataBase_runSqlFile api file w =
    (if d_open api w file < 2 then Go (False, w)
     else lbind (read_block api w file) (\<lambda>buf.
       lbind (statement_at api file buf w) (\<lambda>w1.
         lbind (sql_loop api file buf w1) (\<lambda>w2. Go (True, w2)))))"

fun DataBase_runSqlFiles :: "'w db_api \<Rightarrow> string list \<Rightarrow> 'w \<Rightarrow> 'w load" where
  "DataBase_runSqlFiles api [] w = Go w"
| "DataBase_runSqlFiles api (f # fs) w =
    lbind (DataBase_runSqlFile api f w) (\<lambda>(ok, w'). DataBase_runSqlFiles api fs w')"

definition DataBase_readDir :: "'w db_api \<Rightarrow> string \<Rightarrow> 'w \<Rightarrow> 'w load" where
  "DataBase_readDir api dname w =
    (case d_list api w dname of
       None \<Rightarrow> Go w
     | Some names \<Rightarrow>
         DataBase_runSqlFiles api
           (sort (map (\<lambda>n. dname @ ''/'' @ n) (filter (str_contains ''.sql'') names))) w)"

section \<open>Opening\<close>

definition SQLITE_OPEN_READWRITE :: u32 where "SQLITE_OPEN_READWRITE = 2"
definition SQLITE_OPEN_CREATE :: u32 where "SQLITE_OPEN_CREATE = 4"

definition pragmas :: "string list" where
  "pragmas =
     [''PRAGMA foreign_keys = ON;'', ''PRAGMA synchronous = OFF;'', ''PRAGMA count_changes = OFF;'',
      ''PRAGMA auto_vacuum = FULL;'', ''PRAGMA journal_mode = OFF;'', ''PRAGMA temp_store = MEMORY;'',
      ''PRAGMA cache_size = 20000;'', ''PRAGMA read_uncommitted = 1'']"

fun statements :: "'w db_api \<Rightarrow> string list \<Rightarrow> 'w \<Rightarrow> exn option \<times> 'w" where
  "statements api [] w = (None, w)"
| "statements api (s # ss) w =
    (case d_statement api s w of (None, w') \<Rightarrow> statements api ss w' | (Some e, w') \<Rightarrow> (Some e, w'))"

definition open_with_pragmas :: "'w db_api \<Rightarrow> string \<Rightarrow> u32 \<Rightarrow> 'w \<Rightarrow> 'w load" where
  "open_with_pragmas api dbFileName flags w =
    (let failed = (\<lambda>e. Quit (Some (''cannt open sqlite database: '' @ dbFileName @ '' error: '' @ e @ [CHR 0x0A]))) in
     case d_connect api dbFileName flags w of
       (Some e, w') \<Rightarrow> failed e
     | (None, w') \<Rightarrow>
         (case statements api pragmas w' of (Some e, w'') \<Rightarrow> failed e | (None, w'') \<Rightarrow> Go w''))"

definition creation_flags :: "string \<Rightarrow> bool \<Rightarrow> u32" where
  "creation_flags dbFileName reopen =
    (if dbFileName \<noteq> '':memory:'' \<and> \<not> reopen then SQLITE_OPEN_READWRITE OR SQLITE_OPEN_CREATE
     else SQLITE_OPEN_READWRITE)"

text \<open>\<^verbatim>\<open>reopen\<close>: false, or whether the file is there if the database is a file.\<close>

definition already_there :: "'w db_api \<Rightarrow> string \<Rightarrow> 'w \<Rightarrow> bool load" where
  "already_there api dbFileName w =
    (if dbFileName = '':memory:'' then Go False
     else (case fileExists (db_files api) w dbFileName of
             Ok b \<Rightarrow> Go b | Throw e \<Rightarrow> Raised e | Fault x \<Rightarrow> Broken x))"

definition DataBase_openDb :: "'w db_api \<Rightarrow> bool \<Rightarrow> config \<times> 'w \<Rightarrow> (bool \<times> config \<times> 'w) load" where
  "DataBase_openDb api create s =
    (case s of (cfg0, w) \<Rightarrow>
       lbind (DataBase_getSqlFile api (db_dump_path cfg0) w ''requests/getInformer.sql'') (\<lambda>sql.
         (let cfg = cfg0\<lparr>informerSqlStr := sql\<rparr> in
          if \<not> create
          then lbind (open_with_pragmas api (dbpath cfg) SQLITE_OPEN_READWRITE w) (\<lambda>w1. Go (True, cfg, w1))
          else lbind (already_there api (dbpath cfg) w) (\<lambda>reopen.
            lbind (open_with_pragmas api (dbpath cfg) (creation_flags (dbpath cfg) reopen) w) (\<lambda>w1.
              if reopen then Go (True, cfg, w1)
              else lbind (DataBase_readDir api (db_dump_path cfg @ ''/tables'') w1)
                     (\<lambda>w2. Go (True, cfg, w2)))))))"

section \<open>Maintenance\<close>

definition DataBase_indexRebuild :: "'w db_api \<Rightarrow> 'w \<Rightarrow> 'w" where
  "DataBase_indexRebuild api w =
    (let try = (\<lambda>f r. case r of (None, w) \<Rightarrow> f w | (Some e, w) \<Rightarrow> (Some e, w)) in
     snd (try (d_commit api) (try (d_statement api ''ANALYZE;'') (try (d_begin api)
       (try (d_commit api) (try (d_statement api ''REINDEX;'') (d_begin api w)))))))"

definition DataBase_exec :: "'w db_api \<Rightarrow> string \<Rightarrow> 'w \<Rightarrow> 'w" where
  "DataBase_exec api sql w = snd (d_statement api sql w)"

section \<open>Lemmas\<close>

text \<open>A file is a list of statements, each closed by a semicolon, and the text behind the last.\<close>

definition sql_text :: "string list \<Rightarrow> string \<Rightarrow> string" where
  "sql_text ss end_text = concat (map (\<lambda>s. s @ '';'') ss) @ end_text"

text \<open>
  The statements that are run behind the first: those with thirty bytes or more from there to the
  end. For the text behind the last semicolon SQLite sees \<open>seen\<close>, which goes on behind
  the block.
\<close>

fun later :: "string list \<Rightarrow> string \<Rightarrow> string \<Rightarrow> string list" where
  "later [] end_text seen = (if 29 < length end_text then [seen] else [])"
| "later (s # ss) end_text seen =
    (if 29 < length (sql_text (s # ss) end_text) then s # later ss end_text seen else [])"

definition first_seen :: "string list \<Rightarrow> string \<Rightarrow> string" where
  "first_seen ss seen = (case ss of [] \<Rightarrow> seen | s # _ \<Rightarrow> s)"

text \<open>SQLite compiles the first statement of a text and Kompex runs no other.\<close>

definition runs_first :: "'w db_api \<Rightarrow> (string \<Rightarrow> 'w \<Rightarrow> 'w) \<Rightarrow> bool" where
  "runs_first api run1 \<longleftrightarrow>
     (\<forall>t w. CHR 0x00 \<notin> set t \<longrightarrow> d_statement api t w = (None, run1 (takeWhile (\<lambda>c. c \<noteq> CHR '';'') t) w))"

definition seen_behind :: "string \<Rightarrow> string \<Rightarrow> string" where
  "seen_behind end_text behind = takeWhile (\<lambda>c. c \<noteq> CHR '';'') (c_str (end_text @ behind))"

definition plain_text :: "string \<Rightarrow> bool" where
  "plain_text s \<longleftrightarrow> CHR '';'' \<notin> set s \<and> CHR 0x00 \<notin> set s"

lemma sql_text_simps [simp]:
  "sql_text [] e = e"
  "sql_text (s # ss) e = s @ CHR '';'' # sql_text ss e"
  by (simp_all add: sql_text_def)

lemma c_str_app: "CHR 0x00 \<notin> set s \<Longrightarrow> c_str (s @ t) = s @ c_str t"
  by (induction s) (auto simp: c_str_def)

lemma takeWhile_plain: "CHR '';'' \<notin> set s \<Longrightarrow> takeWhile (\<lambda>c. c \<noteq> CHR '';'') (s @ CHR '';'' # t) = s"
  by (induction s) auto

lemma first_statement:
  assumes "\<forall>s \<in> set ss. plain_text s"
  shows "takeWhile (\<lambda>c. c \<noteq> CHR '';'') (c_str (sql_text ss e @ behind)) = first_seen ss (seen_behind e behind)"
proof (cases ss)
  case Nil
  then show ?thesis by (simp add: first_seen_def seen_behind_def)
next
  case (Cons s ss')
  with assms have "plain_text s" by simp
  then have "c_str (sql_text ss e @ behind) = s @ CHR '';'' # c_str (sql_text ss' e @ behind)"
    using c_str_app [of "s @ '';''" "sql_text ss' e @ behind"] by (simp add: Cons plain_text_def)
  then show ?thesis using \<open>plain_text s\<close> by (simp add: Cons first_seen_def takeWhile_plain plain_text_def)
qed

lemma statement_at_first:
  assumes "runs_first api run1" and "CHR 0x00 \<in> set (d_behind api)" and "\<forall>s \<in> set ss. plain_text s"
  shows "statement_at api file (sql_text ss e) w = Go (run1 (first_seen ss (seen_behind e (d_behind api))) w)"
  using assms(1,2) first_statement [OF assms(3), of e "d_behind api"]
  by (simp add: statement_at_def runs_first_def)

lemma sql_loop_skip: "CHR '';'' \<notin> set s \<Longrightarrow> sql_loop api file (s @ rest) w = sql_loop api file rest w"
  by (induction s) auto

lemma later_short: "length (sql_text ss e) \<le> 29 \<Longrightarrow> later ss e seen = []"
  by (cases ss) auto

lemma sql_loop_short: "length rest \<le> 30 \<Longrightarrow> sql_loop api file rest w = Go w"
  by (induction rest) auto

lemma sql_loop_later:
  assumes "runs_first api run1" and "CHR 0x00 \<in> set (d_behind api)"
    and "\<forall>s \<in> set ss. plain_text s" and "plain_text e"
  shows "sql_loop api file (sql_text ss e) w =
    Go (fold run1 (case ss of [] \<Rightarrow> [] | s # ss' \<Rightarrow> later ss' e (seen_behind e (d_behind api))) w)"
  using assms(3)
proof (induction ss arbitrary: w)
  case Nil
  have "CHR '';'' \<notin> set e" using assms(4) by (simp add: plain_text_def)
  then show ?case using sql_loop_skip [of e api "file" "[]" w] by simp
next
  case (Cons s ss)
  let ?seen = "seen_behind e (d_behind api)"
  have s: "CHR '';'' \<notin> set s" and ss: "\<forall>s \<in> set ss. plain_text s"
    using Cons.prems by (simp_all add: plain_text_def)
  have split: "later ss e ?seen = first_seen ss ?seen # (case ss of [] \<Rightarrow> [] | s # ss' \<Rightarrow> later ss' e ?seen)"
    if "29 < length (sql_text ss e)"
    using that by (cases ss) (simp_all add: first_seen_def)
  show ?case
  proof (cases "29 < length (sql_text ss e)")
    case True
    then show ?thesis
      using Cons.IH [OF ss] by (simp add: sql_loop_skip [OF s] statement_at_first [OF assms(1,2) ss] split)
  next
    case False
    then show ?thesis using sql_loop_short [of "sql_text ss e" api "file" w]
      by (simp add: sql_loop_skip [OF s] later_short)
  qed
qed

text \<open>Listing a directory has no part in running the files.\<close>

lemma sql_loop_list: "sql_loop (api\<lparr>d_list := l\<rparr>) file s w = sql_loop api file s w"
proof (induction s arbitrary: w)
  case Nil
  then show ?case by simp
next
  case (Cons c s)
  have "statement_at (api\<lparr>d_list := l\<rparr>) file s w = statement_at api file s w"
    by (simp add: statement_at_def)
  then show ?case by (cases "statement_at api file s w") (simp_all add: Cons.IH)
qed

lemma runSqlFile_list: "DataBase_runSqlFile (api\<lparr>d_list := l\<rparr>) f w = DataBase_runSqlFile api f w"
proof -
  have "statement_at (api\<lparr>d_list := l\<rparr>) = statement_at api" by (intro ext) (simp add: statement_at_def)
  moreover have "read_block (api\<lparr>d_list := l\<rparr>) = read_block api"
    by (intro ext) (simp add: read_block_def Let_def)
  ultimately show ?thesis unfolding DataBase_runSqlFile_def sql_loop_list by simp
qed

lemma runSqlFiles_list: "DataBase_runSqlFiles (api\<lparr>d_list := l\<rparr>) fs w = DataBase_runSqlFiles api fs w"
proof (induction fs arbitrary: w)
  case Nil
  then show ?case by simp
next
  case (Cons f fs)
  then show ?case by (cases "DataBase_runSqlFile api f w") (auto simp: runSqlFile_list)
qed

section \<open>Properties\<close>


text \<open>A database that keeps the statements it has run, and one file.\<close>

definition sample_sql :: "string list" where
  "sample_sql = [''CREATE TABLE Informer(id INTEGER)'', ''CREATE INDEX i ON Informer(id)'', ''DELETE FROM Informer'']"

definition sample_db :: "string list db_api" where
  "sample_db =
     \<lparr>db_files = \<lparr>p_elems = (\<lambda>p. [p]), p_append = (@), p_parent = (\<lambda>p. None), f_uid = 0, f_gid = 0,
          f_exists = (\<lambda>w p. Ok False), f_is_regular = (\<lambda>w p. Ok False), f_is_directory = (\<lambda>w p. Ok False),
          f_stat = (\<lambda>w p. None), f_create_directories = (\<lambda>w p. (Ok True, w)),
          f_open_create = (\<lambda>w p. (True, w)), f_unlink = (\<lambda>w p. w), f_read = (\<lambda>w p. None)\<rparr>,
      d_open = (\<lambda>w p. 3), d_size = (\<lambda>w p. int (length (sql_text sample_sql [CHR 0x0A]))),
      d_read = (\<lambda>w p. sql_text sample_sql [CHR 0x0A]),
      d_list = (\<lambda>w p. Some [''b.sql'', ''README'', ''a.sql'']),
      d_connect = (\<lambda>f flags w. (None, w)),
      d_statement = (\<lambda>t w. (None, w @ [takeWhile (\<lambda>c. c \<noteq> CHR '';'') t])),
      d_begin = (\<lambda>w. (None, w)), d_commit = (\<lambda>w. (None, w)), d_behind = [CHR 0x00]\<rparr>"


text \<open>The schema is built from the same files in the same order whatever order the directory
  lists them in, and only names with \<^verbatim>\<open>.sql\<close> count.\<close>
theorem DataBase_readDir_order:
  assumes "d_list api w dname = Some names" and "mset names' = mset names"
  shows "DataBase_readDir (api\<lparr>d_list := (\<lambda>w d. Some names')\<rparr>) dname w = DataBase_readDir api dname w"
proof -
  have "sort (map (\<lambda>n. dname @ ''/'' @ n) (filter (str_contains ''.sql'') names')) =
      sort (map (\<lambda>n. dname @ ''/'' @ n) (filter (str_contains ''.sql'') names))"
    by (rule properties_for_sort) (simp_all add: assms(2))
  then show ?thesis by (simp add: DataBase_readDir_def assms(1) runSqlFiles_list)
qed

theorem DataBase_readDir_order_witness:
  "DataBase_readDir (sample_db\<lparr>d_list := (\<lambda>w d. Some [''a.sql'', ''b.sql'', ''README''])\<rparr>) ''tables'' [] =
     DataBase_readDir sample_db ''tables'' []"
  by (rule DataBase_readDir_order [of sample_db "[]" "''tables''" "[''b.sql'', ''README'', ''a.sql'']"])
    (simp_all add: sample_db_def)

end
