(* ===== verification/ParentDB.thy ===== *)
theory ParentDB
  imports BaseCore DataBase JsonParse
begin

text \<open>
  \<^verbatim>\<open>src/ParentDB.cpp\<close>: the synchronisation of the local database with the blocks kept
  in MongoDB. A round reads the documents a query finds, as JSON text, and writes each into the table
  \<^verbatim>\<open>Informer\<close> by a formatted SQL statement; a removal deletes one row.

  Parameters (\<open>parent_api\<close>): MongoDB (what a query answers), SQLite through Kompex over a
  state \<open>'w\<close>, \<^verbatim>\<open>sqlite3_snprintf\<close>, \<^verbatim>\<open>boost::to_lower\<close> and
  \<^verbatim>\<open>lexical_cast\<close>, \<^verbatim>\<open>strtod\<close>, rounding to a float, and
  \<^verbatim>\<open>Config::minifyhtml\<close> with its regular expressions. A float is its finite value.
  C++ leaves the order in which the arguments of a call are evaluated open; the model reads them
  from left to right, which only decides which of several errors is reported.
\<close>

section \<open>State\<close>

text \<open>
  The arguments of \<^verbatim>\<open>sqlite3_snprintf\<close> with the type they are passed in: behind the
  ellipsis a float is a double.
\<close>

datatype sql_arg = AStr string | AInt u32 | AUnsigned u32 | ALong u64 | ADouble rat

record 'w parent_api =
  pa_cfg :: config
  pa_tid :: string
  pa_find :: "string \<Rightarrow> string \<Rightarrow> db_action \<Rightarrow> 'w \<Rightarrow> exn option"
  pa_docs :: "db_action \<Rightarrow> 'w \<Rightarrow> exn + string list"
  pa_strtod :: "string \<Rightarrow> (bool \<times> rat) option"
  pa_lower :: "string \<Rightarrow> string"
  pa_lexical_int :: "string \<Rightarrow> u32 option"
  pa_float :: "rat \<Rightarrow> rat"
  pa_minify :: "string \<Rightarrow> string"
  pa_printf :: "nat \<Rightarrow> string \<Rightarrow> sql_arg list \<Rightarrow> string outcome"
  pa_select :: "string \<Rightarrow> 'w \<Rightarrow> bool \<times> exn option"
  pa_statement :: "string \<Rightarrow> 'w \<Rightarrow> exn option \<times> 'w"
  pa_free :: "'w \<Rightarrow> exn option"

record 'w parent =
  pd_world :: 'w
  pd_clog :: string

definition BUF_SIZE :: nat where
  "BUF_SIZE = 262144"

definition logDb :: "exn \<Rightarrow> string \<Rightarrow> 'w parent \<Rightarrow> 'w parent" where
  "logDb ex buf s =
     s\<lparr>pd_clog := pd_clog s @ ''ParentDB::logDb error: '' @ ex @ [CHR 0x0A] @
         ''ParentDB::logDb request: '' @ buf @ [CHR 0x0A]\<rparr>"

section \<open>Reading a JSON value\<close>

text \<open>
  \<^verbatim>\<open>x[key]\<close> on an object that is not const: a missing member is created as null, a
  null value becomes an object. The document is not written back, and reading it again gives the
  same, so only the value read is modelled.
\<close>

definition json_at :: "json \<Rightarrow> string \<Rightarrow> json outcome" where
  "json_at j key =
     (case j of
        JNull \<Rightarrow> Ok JNull
      | JObject m \<Rightarrow> Ok (case map_find m key of Some v \<Rightarrow> v | None \<Rightarrow> JNull)
      | _ \<Rightarrow> Throw (''cannot use operator[] with '' @ json_type_name j))"

fun json_path :: "json \<Rightarrow> string list \<Rightarrow> json outcome" where
  "json_path j [] = Ok j"
| "json_path j (key # keys) = obind (json_at j key) (\<lambda>v. json_path v keys)"

definition truncated :: "rat \<Rightarrow> int" where
  "truncated r = (if r < 0 then - \<lfloor>- r\<rfloor> else \<lfloor>r\<rfloor>)"

definition not_a_number :: "json \<Rightarrow> 'a outcome" where
  "not_a_number j = Throw (''type must be number, but is '' @ json_type_name j)"

fun json_get_int :: "json \<Rightarrow> u32 outcome" where
  "json_get_int (JUnsigned u) = Ok (ucast u)"
| "json_get_int (JInteger i) = Ok (ucast i)"
| "json_get_int (JFloat n r) =
     (if - (2 ^ 31) \<le> truncated r \<and> truncated r < 2 ^ 31 then Ok (word_of_int (truncated r)) else Fault OutOfRange)"
| "json_get_int (JBoolean b) = Ok (of_bool b)"
| "json_get_int j = not_a_number j"

fun json_get_long :: "json \<Rightarrow> u64 outcome" where
  "json_get_long (JUnsigned u) = Ok u"
| "json_get_long (JInteger i) = Ok i"
| "json_get_long (JFloat n r) =
     (if - (2 ^ 63) \<le> truncated r \<and> truncated r < 2 ^ 63 then Ok (word_of_int (truncated r)) else Fault OutOfRange)"
| "json_get_long (JBoolean b) = Ok (of_bool b)"
| "json_get_long j = not_a_number j"

fun json_get_float :: "(rat \<Rightarrow> rat) \<Rightarrow> json \<Rightarrow> rat outcome" where
  "json_get_float rnd (JUnsigned u) = Ok (rnd (of_int (uint u)))"
| "json_get_float rnd (JInteger i) = Ok (rnd (of_int (sint i)))"
| "json_get_float rnd (JFloat n r) = Ok (rnd r)"
| "json_get_float rnd (JBoolean b) = Ok (of_bool b)"
| "json_get_float rnd j = not_a_number j"

section \<open>The values of a block\<close>

text \<open>One argument each, as it is written in the call.\<close>

definition str_arg :: "json \<Rightarrow> string \<Rightarrow> sql_arg outcome" where
  "str_arg x key = obind (json_at x key) (\<lambda>v. obind (json_get_string v) (\<lambda>s. Ok (AStr (c_str s))))"

definition int_arg :: "json \<Rightarrow> string \<Rightarrow> sql_arg outcome" where
  "int_arg x key = obind (json_at x key) (\<lambda>v. obind (json_get_int v) (\<lambda>i. Ok (AInt i)))"

definition int_or_zero_arg :: "json \<Rightarrow> string \<Rightarrow> sql_arg outcome" where
  "int_or_zero_arg x key =
     obind (json_at x key) (\<lambda>v. if json_is_number v then obind (json_get_int v) (\<lambda>i. Ok (AInt i)) else Ok (AInt 0))"

definition bool_arg :: "json \<Rightarrow> string \<Rightarrow> sql_arg outcome" where
  "bool_arg x key = obind (json_at x key) (\<lambda>v. obind (json_get_bool v) (\<lambda>b. Ok (AInt (if b then 1 else 0))))"

definition float_or_arg :: "(rat \<Rightarrow> rat) \<Rightarrow> json \<Rightarrow> string \<Rightarrow> rat \<Rightarrow> sql_arg outcome" where
  "float_or_arg rnd x key d =
     obind (json_at x key)
       (\<lambda>v. if json_is_number v then obind (json_get_float rnd v) (\<lambda>r. Ok (ADouble r)) else Ok (ADouble d))"

text \<open>
  \<^verbatim>\<open>(unsigned)(capacity * x.get<float>())\<close>, a product of floats, or
  \<^verbatim>\<open>(unsigned)(cfg->retargeting_percentage_ * capacity / 100)\<close>, of ints.
\<close>

definition int_quot :: "int \<Rightarrow> int \<Rightarrow> int" where
  "int_quot a b = (if a < 0 then - (- a div b) else a div b)"

definition retargeting_arg :: "'w parent_api \<Rightarrow> json \<Rightarrow> u32 \<Rightarrow> sql_arg outcome" where
  "retargeting_arg api x capacity =
     obind (json_at x ''retargeting_capacity'') (\<lambda>v.
       if json_is_number v then
         obind (json_get_float (pa_float api) v) (\<lambda>r.
           (let t = truncated (pa_float api (pa_float api (of_int (sint capacity)) * r)) in
            if 0 \<le> t \<and> t < 2 ^ 32 then Ok (AUnsigned (word_of_int t)) else Fault OutOfRange))
       else
         (let p = sint (retargeting_percentage (pa_cfg api)) * sint capacity in
          if - (2 ^ 31) \<le> p \<and> p < 2 ^ 31 then Ok (AUnsigned (word_of_int (int_quot p 100)))
          else Fault OutOfRange))"

definition capacity_of :: "'w parent_api \<Rightarrow> json \<Rightarrow> u32 outcome" where
  "capacity_of api v =
     (if json_is_number v then json_get_int v
      else case v of
        JString s \<Rightarrow>
          (case pa_lexical_int api s of
             Some i \<Rightarrow> Ok i
           | None \<Rightarrow> Throw ''bad lexical cast: source type value could not be interpreted as target'')
      | _ \<Rightarrow> Ok 0)"

text \<open>A list of values, stopping at the first that cannot be had.\<close>

primrec collect :: "'a outcome list \<Rightarrow> 'a list outcome" where
  "collect [] = Ok []"
| "collect (m # ms) = obind m (\<lambda>a. obind (collect ms) (\<lambda>as. Ok (a # as)))"

text \<open>The values of both statements, from \<^verbatim>\<open>title\<close> to \<^verbatim>\<open>rating_division\<close>.\<close>

definition value_args ::
  "'w parent_api \<Rightarrow> json \<Rightarrow> u32 \<Rightarrow> u32 \<Rightarrow> string \<Rightarrow> string \<Rightarrow> string \<Rightarrow> string \<Rightarrow> sql_arg outcome list" where
  "value_args api x social_branch capacity css headerHtml footerHtml user_code =
     [str_arg x ''title'', str_arg x ''user'', str_arg x ''domain'',
      Ok (AStr (c_str css)), Ok (AStr (c_str headerHtml)), Ok (AStr (c_str footerHtml)),
      Ok (AInt social_branch),
      int_arg x ''height'', int_arg x ''width'', int_arg x ''height_banner'', int_arg x ''width_banner'',
      Ok (AInt capacity),
      int_or_zero_arg x ''auto_reload'', int_or_zero_arg x ''blinking'', int_or_zero_arg x ''shake'',
      bool_arg x ''blinking_reload'', bool_arg x ''shake_reload'', bool_arg x ''shake_mouse'',
      float_or_arg (pa_float api) x ''range_short_term'' (range_short_term (pa_cfg api)),
      float_or_arg (pa_float api) x ''range_long_term'' (range_long_term (pa_cfg api)),
      float_or_arg (pa_float api) x ''range_context'' (range_context (pa_cfg api)),
      float_or_arg (pa_float api) x ''range_search'' (range_search (pa_cfg api)),
      retargeting_arg api x capacity,
      Ok (AStr (c_str user_code)),
      bool_arg x ''html_notification'', bool_arg x ''plase_branch'', bool_arg x ''retargeting_branch'',
      float_or_arg (pa_float api) x ''rating_division'' 1000]"

definition informer_args :: "'w parent_api \<Rightarrow> json \<Rightarrow> sql_arg list outcome" where
  "informer_args api x =
     obind (json_path x [''admaker'', ''Main'', ''itemsNumber'']) (\<lambda>capacity_element.
     obind (json_path x [''admaker'', ''MainHeader'', ''html'']) (\<lambda>header_html.
     obind (json_path x [''admaker'', ''MainFooter'', ''html'']) (\<lambda>footer_html.
     obind (json_path x [''nonRelevant'', ''action'']) (\<lambda>nonrelevant_element.
     obind (json_path x [''nonRelevant'', ''userCode'']) (\<lambda>user_code_element.
     obind (capacity_of api capacity_element) (\<lambda>capacity.
     obind (json_get_string nonrelevant_element) (\<lambda>action.
     obind (json_get_string header_html) (\<lambda>headerHtml.
     obind (json_get_string footer_html) (\<lambda>footerHtml.
     obind (json_get_string user_code_element) (\<lambda>user_code.
     obind (json_at x ''css'') (\<lambda>css_element.
     obind (json_get_string css_element) (\<lambda>css.
       collect (value_args api x (if action = ''usercode'' then 0 else 1) capacity (pa_minify api css)
         headerHtml footerHtml user_code)))))))))))))"

section \<open>The statements\<close>

abbreviation sq :: string where
  "sq \<equiv> [CHR 0x27]"

text \<open>The source breaks its literals inside the string: each line starts with thirty blanks.\<close>

definition pad :: string where
  "pad = replicate 30 (CHR 0x20)"

definition select_format :: string where
  "select_format = ''SELECT id FROM Informer WHERE id=%lld;''"

definition update_format :: string where
  "update_format =
     ''UPDATE Informer SET title='' @ sq @ ''%q'' @ sq @ '',account='' @ sq @ ''%q'' @ sq @ '',domain='' @
      sq @ ''%q'' @ sq @ '',teasersCss='' @ sq @ ''%q'' @ sq @ '',headerHtml='' @ sq @ ''%q'' @ sq @
      '',footerHtml='' @ sq @ ''%q'' @ sq @ '','' @
     pad @ ''social_branch=%d, valid=1,height=%d,width=%d,height_banner=%d,width_banner=%d,capacity=%d, auto_reload=%d,'' @
     pad @ ''blinking=%d, shake=%d, blinking_reload=%d, shake_reload=%d, shake_mouse=%d,'' @
     pad @ ''range_short_term=%f, range_long_term=%f, range_context=%f, range_search=%f, retargeting_capacity=%u, user_code='' @ sq @ ''%q'' @ sq @ '', html_notification=%d, place_branch=%d, retargeting_branch=%d,'' @
     pad @ ''rating_division=%d'' @
     pad @ ''WHERE id=%lld;''"

definition insert_format :: string where
  "insert_format =
     ''INSERT OR IGNORE INTO Informer(id,guid,title, account, domain, teasersCss,headerHtml,footerHtml,'' @
     pad @ ''social_branch,valid,height,width,height_banner,width_banner,capacity, auto_reload,'' @
     pad @ ''blinking, shake, blinking_reload, shake_reload, shake_mouse,'' @
     pad @ ''range_short_term, range_long_term, range_context, range_search, retargeting_capacity, user_code, html_notification, place_branch, retargeting_branch,'' @
     pad @ ''rating_division'' @
     pad @ '') VALUES('' @
     pad @ ''%lld,'' @ sq @ ''%q'' @ sq @ '','' @ sq @ ''%q'' @ sq @ '','' @ sq @ ''%q'' @ sq @ '','' @
      sq @ ''%q'' @ sq @ '','' @ sq @ ''%q'' @ sq @ '','' @ sq @ ''%q'' @ sq @ '','' @ sq @ ''%q'' @
      sq @ '','' @
     pad @ ''%d,1,%d,%d,%d,%d,%d, %d,'' @
     pad @ ''%d,%d,%d,%d, %d,'' @
     pad @ ''%f,%f,%f,%f,%u,'' @ sq @ ''%q'' @ sq @ '',%d,%d,%d,%d);''"

definition delete_format :: string where
  "delete_format = ''DELETE FROM Informer WHERE guid='' @ sq @ ''%s'' @ sq @ '';''"

section \<open>A round\<close>

definition sbind :: "'a outcome \<Rightarrow> ('a \<Rightarrow> 's \<Rightarrow> unit outcome \<times> 's) \<Rightarrow> 's \<Rightarrow> unit outcome \<times> 's" where
  "sbind m f s = (case m of Ok a \<Rightarrow> f a s | Throw e \<Rightarrow> (Throw e, s) | Fault x \<Rightarrow> (Fault x, s))"

definition run_statement :: "'w parent_api \<Rightarrow> string \<Rightarrow> 'w parent \<Rightarrow> 'w parent" where
  "run_statement api buf s =
     (case pa_statement api buf (pd_world s) of
        (None, w) \<Rightarrow> s\<lparr>pd_world := w\<rparr>
      | (Some ex, w) \<Rightarrow> logDb ex buf (s\<lparr>pd_world := w\<rparr>))"

text \<open>The body of the loop over the documents. Parsing always gives a result.\<close>

definition update_document :: "'w parent_api \<Rightarrow> string \<Rightarrow> 'w parent \<Rightarrow> unit outcome \<times> 'w parent" where
  "update_document api doc =
     sbind (the (json_parse (pa_strtod api) doc)) (\<lambda>x.
     sbind (obind (json_at x ''guid'') json_get_string) (\<lambda>guid.
       (let g = pa_lower api guid in
        if g = [] then (\<lambda>s. (Ok (), s))
        else
          sbind (obind (json_at x ''guid_int'') json_get_long) (\<lambda>long_id.
          sbind (pa_printf api BUF_SIZE select_format [ALong long_id]) (\<lambda>buf s.
            (let (found, ex) = pa_select api buf (pd_world s);
                 s = (case ex of None \<Rightarrow> s | Some ex \<Rightarrow> logDb ex buf s) in
             sbind (informer_args api x) (\<lambda>args.
             sbind (if found then pa_printf api BUF_SIZE update_format (args @ [ALong long_id])
                    else pa_printf api BUF_SIZE insert_format (ALong long_id # AStr (c_str g) # args)) (\<lambda>buf s.
               (Ok (), run_statement api buf s))) s))))))"

fun update_documents :: "'w parent_api \<Rightarrow> string list \<Rightarrow> 'w parent \<Rightarrow> unit outcome \<times> 'w parent" where
  "update_documents api [] s = (Ok (), s)"
| "update_documents api (doc # docs) s =
     (case update_document api doc s of
        (Ok u, s') \<Rightarrow> update_documents api docs s'
      | (Throw e, s') \<Rightarrow> (Throw e, s')
      | (Fault x, s') \<Rightarrow> (Fault x, s'))"

text \<open>
  The connection and the query are set up outside the \<^verbatim>\<open>try\<close>, and the final
  \<^verbatim>\<open>FreeQuery\<close> is called behind it.
\<close>

definition finish_statement :: "'w parent_api \<Rightarrow> 'a \<Rightarrow> 'w parent \<Rightarrow> 'a outcome \<times> 'w parent" where
  "finish_statement api r s =
     (case pa_free api (pd_world s) of None \<Rightarrow> (Ok r, s) | Some e \<Rightarrow> (Throw e, s))"

definition update_error :: "'w parent_api \<Rightarrow> exn \<Rightarrow> 'w parent \<Rightarrow> 'w parent" where
  "update_error api e s =
     s\<lparr>pd_clog := pd_clog s @ ''['' @ pa_tid api @ '']InformerUpdate error: '' @ e @ '' '' @ [CHR 0x0A, CHR 0x0A]\<rparr>"

definition InformerUpdate :: "'w parent_api \<Rightarrow> db_action \<Rightarrow> 'w parent \<Rightarrow> bool outcome \<times> 'w parent" where
  "InformerUpdate api query s =
     (case pa_find api (mongo_main_url (pa_cfg api)) (mongo_main_db (pa_cfg api)) query (pd_world s) of
        Some e \<Rightarrow> (Throw e, s)
      | None \<Rightarrow>
          (case (case pa_docs api query (pd_world s) of
                   Inl e \<Rightarrow> (Throw e, s)
                 | Inr docs \<Rightarrow> update_documents api docs s) of
             (Ok u, s') \<Rightarrow> finish_statement api True s'
           | (Throw e, s') \<Rightarrow> finish_statement api True (update_error api e s')
           | (Fault x, s') \<Rightarrow> (Fault x, s')))"

definition InformerRemove :: "'w parent_api \<Rightarrow> string \<Rightarrow> 'w parent \<Rightarrow> unit outcome \<times> 'w parent" where
  "InformerRemove api guid s =
     (if guid = [] then (Ok (), s)
      else sbind (pa_printf api BUF_SIZE delete_format [AStr (c_str guid)])
        (\<lambda>buf s. finish_statement api () (run_statement api buf s)) s)"

section \<open>What the shared core asks for\<close>

text \<open>
  The operations \<open>BaseCore\<close> performs on the local database, on this model: \<open>be_act\<close> of its
  environment.
\<close>

definition parent_act :: "'w parent_api \<Rightarrow> 'w db_api \<Rightarrow> db_action \<Rightarrow> 'w parent \<Rightarrow> unit outcome \<times> 'w parent" where
  "parent_act api db a s =
     (case a of
        RemoveGuid guid \<Rightarrow> InformerRemove api guid s
      | RebuildIndex \<Rightarrow> (Ok (), s\<lparr>pd_world := DataBase_indexRebuild db (pd_world s)\<rparr>)
      | query \<Rightarrow>
          (case InformerUpdate api query s of
             (Ok b, s') \<Rightarrow> (Ok (), s')
           | (Throw e, s') \<Rightarrow> (Throw e, s')
           | (Fault x, s') \<Rightarrow> (Fault x, s')))"

section \<open>Lemmas\<close>

text \<open>The conversions of a format, and the type the C standard asks of the argument of each.\<close>

function conversions :: "string \<Rightarrow> string list" where
  "conversions [] = []"
| "conversions (c # s) =
    (if c \<noteq> CHR ''%'' then conversions s
     else if take 3 s = ''lld'' then ''lld'' # conversions (drop 3 s)
     else if take 1 s = ''%'' then conversions (drop 1 s)
     else take 1 s # conversions (drop 1 s))"
  by pat_completeness auto
termination
  by (relation "measure length") (auto simp: le_imp_less_Suc)

fun arg_fits :: "string \<Rightarrow> sql_arg \<Rightarrow> bool" where
  "arg_fits c (AStr s) = (c = ''s'' \<or> c = ''q'')"
| "arg_fits c (AInt i) = (c = ''d'')"
| "arg_fits c (AUnsigned u) = (c = ''u'')"
| "arg_fits c (ALong l) = (c = ''lld'')"
| "arg_fits c (ADouble r) = (c = ''f'')"

text \<open>
  What is relied on of \<^verbatim>\<open>sqlite3_snprintf\<close>: with an argument of the type of each
  conversion it writes some text; an argument of another type is read as what it is not, which C
  leaves undefined.
\<close>

definition typed_printf :: "(nat \<Rightarrow> string \<Rightarrow> sql_arg list \<Rightarrow> string outcome) \<Rightarrow> bool" where
  "typed_printf pf \<longleftrightarrow>
     (\<forall>n fmt args. if list_all2 arg_fits (conversions fmt) args then \<exists>buf. pf n fmt args = Ok buf
                   else pf n fmt args = Fault ArgumentType)"

text \<open>The kinds of a list of arguments.\<close>

fun kind :: "sql_arg \<Rightarrow> string" where
  "kind (AStr s) = ''s''"
| "kind (AInt i) = ''d''"
| "kind (AUnsigned u) = ''u''"
| "kind (ALong l) = ''lld''"
| "kind (ADouble r) = ''f''"

lemma update_conversions:
  "conversions update_format =
     replicate 6 ''q'' @ replicate 12 ''d'' @ replicate 4 ''f'' @ [''u'', ''q''] @ replicate 4 ''d'' @ [''lld'']"
  by code_simp

lemma insert_conversions:
  "conversions insert_format =
     ''lld'' # replicate 7 ''q'' @ replicate 12 ''d'' @ replicate 4 ''f'' @ [''u'', ''q''] @ replicate 4 ''d''"
  by code_simp

lemma select_conversions: "conversions select_format = [''lld'']"
  by code_simp

lemma collect_Ok: "collect ms = Ok as \<longleftrightarrow> list_all2 (\<lambda>m a. m = Ok a) ms as"
  by (induction ms arbitrary: as) (auto simp: obind_eq_Ok list_all2_Cons1)

lemma float_or_arg_double: "float_or_arg rnd x key d = Ok a \<Longrightarrow> \<exists>r. a = ADouble r"
  by (auto simp: float_or_arg_def obind_eq_Ok split: if_splits)

text \<open>The last of the 28 values, \<^verbatim>\<open>rating_division\<close>, is a double.\<close>

lemma informer_args_last:
  assumes "informer_args api x = Ok args"
  shows "length args = 28 \<and> (\<exists>r. args ! 27 = ADouble r)"
proof -
  obtain social capacity css header footer code
    where c: "list_all2 (\<lambda>m a. m = Ok a) (value_args api x social capacity css header footer code) args"
    using assms by (auto simp: informer_args_def obind_eq_Ok collect_Ok)
  have l: "length args = 28" using list_all2_lengthD [OF c] by (simp add: value_args_def)
  have "value_args api x social capacity css header footer code ! 27 = Ok (args ! 27)"
    by (rule list_all2_nthD2 [OF c]) (simp add: l)
  then have "float_or_arg (pa_float api) x ''rating_division'' 1000 = Ok (args ! 27)"
    by (simp add: value_args_def)
  then show ?thesis using l float_or_arg_double by blast
qed

lemma misfit:
  assumes "typed_printf pf" and "i < length args" and "\<not> arg_fits (conversions fmt ! i) (args ! i)"
  shows "pf n fmt args = Fault ArgumentType"
  using assms unfolding typed_printf_def by (metis list_all2_nthD2)

lemma block_formats:
  assumes "typed_printf pf" and "informer_args api x = Ok args"
  shows "pf n update_format (args @ [ALong l]) = Fault ArgumentType"
    and "pf n insert_format (ALong l # AStr g # args) = Fault ArgumentType"
proof -
  obtain r where a: "length args = 28" "args ! 27 = ADouble r" using informer_args_last [OF assms(2)] by blast
  have "conversions update_format ! 27 = ''lld'' \<or> conversions update_format ! 27 = ''d''"
    unfolding update_conversions by code_simp
  then show "pf n update_format (args @ [ALong l]) = Fault ArgumentType"
    by (intro misfit [OF assms(1), of 27]) (auto simp: a nth_append)
  have "conversions insert_format ! 29 = ''d''" unfolding insert_conversions by code_simp
  then show "pf n insert_format (ALong l # AStr g # args) = Fault ArgumentType"
    by (intro misfit [OF assms(1), of 29]) (simp_all add: a)
qed

lemma select_formats: "typed_printf pf \<Longrightarrow> \<exists>buf. pf n select_format [ALong l] = Ok buf"
  unfolding typed_printf_def by (metis select_conversions arg_fits.simps(4) list_all2_Cons list.rel_inject(1))

lemma sbind_simps [simp]:
  "sbind (Ok a) f s = f a s" "sbind (Throw e) f s = (Throw e, s)" "sbind (Fault x) f s = (Fault x, s)"
  by (simp_all add: sbind_def)

lemma logDb_world [simp]: "pd_world (logDb ex buf s) = pd_world s"
  by (simp add: logDb_def)

text \<open>The round on a document whose name is not empty, once the values are known.\<close>

lemma update_document_complete:
  assumes "typed_printf (pa_printf api)" and "json_parse (pa_strtod api) doc = Some (Ok x)"
    and "json_at x ''guid'' = Ok (JString g)" and "pa_lower api g \<noteq> []"
    and "json_at x ''guid_int'' = Ok v" and "json_get_long v = Ok l"
    and "informer_args api x = Ok args"
  shows "fst (update_document api doc s) = Fault ArgumentType"
proof -
  obtain buf where "pa_printf api BUF_SIZE select_format [ALong l] = Ok buf"
    using select_formats [OF assms(1)] by blast
  then show ?thesis using assms block_formats [OF assms(1) assms(7)]
    by (simp add: update_document_def split_beta)
qed

lemma update_document_world:
  assumes "typed_printf (pa_printf api)" and "update_document api doc s = (r, s')"
  shows "(\<exists>f. r = Fault f) \<or> pd_world s' = pd_world s"
proof (cases "the (json_parse (pa_strtod api) doc)")
  case (Ok x)
  show ?thesis
  proof (cases "obind (json_at x ''guid'') json_get_string")
    case g: (Ok g)
    show ?thesis
    proof (cases "obind (json_at x ''guid_int'') json_get_long")
      case l: (Ok l)
      obtain buf where "pa_printf api BUF_SIZE select_format [ALong l] = Ok buf"
        using select_formats [OF assms(1)] by blast
      then show ?thesis
        using assms(2) Ok g l block_formats [OF assms(1), of api x]
        by (cases "informer_args api x"; cases "pa_select api buf (pd_world s)")
          (auto simp: update_document_def Let_def split: if_splits option.splits)
    qed (use Ok g assms(2) in \<open>auto simp: update_document_def Let_def split: if_splits\<close>)
  qed (use Ok assms(2) in \<open>auto simp: update_document_def\<close>)
qed (use assms(2) in \<open>auto simp: update_document_def\<close>)

lemma update_documents_world:
  assumes "typed_printf (pa_printf api)"
  shows "update_documents api docs s = (r, s') \<Longrightarrow> (\<exists>f. r = Fault f) \<or> pd_world s' = pd_world s"
proof (induction docs arbitrary: s)
  case (Cons doc docs)
  obtain r1 s1 where d: "update_document api doc s = (r1, s1)" by fastforce
  show ?case using Cons.IH [of s1] Cons.prems d update_document_world [OF assms d]
    by (cases r1) auto
qed simp

lemma update_world:
  assumes "typed_printf (pa_printf api)" and "InformerUpdate api query s = (r, s')"
  shows "(\<exists>f. r = Fault f) \<or> pd_world s' = pd_world s"
proof -
  have "(\<exists>f. r1 = Fault f) \<or> pd_world s1 = pd_world s"
    if "(case pa_docs api query (pd_world s) of Inl e \<Rightarrow> (Throw e, s) | Inr docs \<Rightarrow> update_documents api docs s) = (r1, s1)"
    for r1 s1
    using that update_documents_world [OF assms(1)] by (auto split: sum.splits)
  then show ?thesis using assms(2)
    by (auto simp: InformerUpdate_def finish_statement_def update_error_def
        split: option.splits prod.splits outcome.splits)
qed

text \<open>A block as the site's database holds it, and libraries that fit the rule above.\<close>

definition sample_block :: json where
  "sample_block =
     JObject
       [(''admaker'', JObject [(''Main'', JObject [(''itemsNumber'', JUnsigned 4)]),
           (''MainFooter'', JObject [(''html'', JString '''')]),
           (''MainHeader'', JObject [(''html'', JString '''')])]),
        (''blinking_reload'', JBoolean False), (''css'', JString ''a{}''), (''domain'', JString ''example.com''),
        (''guid'', JString ''B1''), (''guid_int'', JUnsigned 7), (''height'', JUnsigned 240),
        (''height_banner'', JUnsigned 240), (''html_notification'', JBoolean True),
        (''nonRelevant'', JObject [(''action'', JString ''social''), (''userCode'', JString '''')]),
        (''plase_branch'', JBoolean True), (''retargeting_branch'', JBoolean False),
        (''shake_mouse'', JBoolean False), (''shake_reload'', JBoolean False), (''title'', JString ''block''),
        (''user'', JString ''someone''), (''width'', JUnsigned 320), (''width_banner'', JUnsigned 320)]"

definition sample_parent_api :: "string list \<Rightarrow> nat parent_api" where
  "sample_parent_api docs =
     \<lparr>pa_cfg = sample_config '''' '''', pa_tid = ''1'', pa_find = (\<lambda>u d q w. None), pa_docs = (\<lambda>q w. Inr docs),
      pa_strtod = (\<lambda>t. None), pa_lower = map to_lower_char, pa_lexical_int = (\<lambda>t. None), pa_float = id,
      pa_minify = id,
      pa_printf = (\<lambda>n fmt args. if list_all2 arg_fits (conversions fmt) args then Ok [] else Fault ArgumentType),
      pa_select = (\<lambda>sql w. (False, None)), pa_statement = (\<lambda>sql w. (None, Suc w)), pa_free = (\<lambda>w. None)\<rparr>"

lemma sample_parent_api_simps [simp]:
  "pa_find (sample_parent_api docs) u d q w = None" "pa_docs (sample_parent_api docs) q w = Inr docs"
  "pa_free (sample_parent_api docs) w = None" "pa_lower (sample_parent_api docs) = map to_lower_char"
  "pa_tid (sample_parent_api docs) = ''1''" "pa_strtod (sample_parent_api docs) = (\<lambda>t. None)"
  by (simp_all add: sample_parent_api_def)

lemma sample_parent_api_typed: "typed_printf (pa_printf (sample_parent_api docs))"
  by (simp add: typed_printf_def sample_parent_api_def)

lemma sample_block_plain: "json_plain sample_block"
  by code_simp

lemma sample_block_args: "\<exists>args. informer_args (sample_parent_api docs) sample_block = Ok args"
proof -
  have "(case informer_args (sample_parent_api docs) sample_block of Ok args \<Rightarrow> True | _ \<Rightarrow> False)"
    by (simp add: informer_args_def sample_parent_api_def sample_block_def json_at_def capacity_of_def value_args_def
        str_arg_def int_arg_def int_or_zero_arg_def bool_arg_def float_or_arg_def retargeting_arg_def sample_config_def)
  then show ?thesis by (cases "informer_args (sample_parent_api docs) sample_block") auto
qed

section \<open>Properties\<close>

text \<open>C8: no run with defined behaviour ever stores a block: as long as
  \<^verbatim>\<open>sqlite3_snprintf\<close> is given arguments that fit its format, a round leaves the
  local database as it was, whatever MongoDB answers; to get as far as a statement it has to format
  \<^verbatim>\<open>rating_division\<close>, a double, with \<^verbatim>\<open>%d\<close>, which is undefined.
\<close>
theorem InformerUpdate_never_stores:
  assumes "typed_printf (pa_printf api)" and "InformerUpdate api query s = (r, s')"
  shows "(\<exists>f. r = Fault f) \<or> pd_world s' = pd_world s"
  using assms by (rule update_world)

theorem InformerUpdate_never_stores_witness:
  "pd_world (snd (InformerUpdate (sample_parent_api [''{}'']) UpdateAll \<lparr>pd_world = 3, pd_clog = ''''\<rparr>)) = 3"
proof -
  let ?s = "\<lparr>pd_world = 3, pd_clog = ''''\<rparr>" and ?api = "sample_parent_api [''{}'']"
  have "json_parse (\<lambda>t. None) ''{}'' = Some (Ok (JObject []))" by code_simp
  then have "InformerUpdate ?api UpdateAll ?s =
      (Ok True, ?s\<lparr>pd_clog := ''[1]InformerUpdate error: type must be string, but is null '' @ [CHR 0x0A, CHR 0x0A]\<rparr>)"
    by (simp add: InformerUpdate_def update_document_def json_at_def finish_statement_def update_error_def)
  then show ?thesis
    using InformerUpdate_never_stores [OF sample_parent_api_typed surjective_pairing, of "[''{}'']" UpdateAll ?s] by simp
qed

text \<open>C27: the first document that is complete makes the round undefined: if the query succeeds and its
  first document parses, has a name and an integer and every value of the wanted type, formatting the
  statement, be it the update or the insertion, misreads an argument.
\<close>
theorem InformerUpdate_complete_block:
  assumes "typed_printf (pa_printf api)"
    and "pa_find api (mongo_main_url (pa_cfg api)) (mongo_main_db (pa_cfg api)) query (pd_world s) = None"
    and "pa_docs api query (pd_world s) = Inr (doc # docs)"
    and "json_parse (pa_strtod api) doc = Some (Ok x)"
    and "json_at x ''guid'' = Ok (JString g)" and "pa_lower api g \<noteq> []"
    and "json_at x ''guid_int'' = Ok v" and "json_get_long v = Ok l"
    and "informer_args api x = Ok args"
  shows "fst (InformerUpdate api query s) = Fault ArgumentType"
proof -
  obtain s' where "update_document api doc s = (Fault ArgumentType, s')"
    using update_document_complete [OF assms(1,4-9), of s] by (metis prod.collapse)
  then show ?thesis using assms(2,3) by (simp add: InformerUpdate_def)
qed

theorem InformerUpdate_complete_block_witness:
  "fst (InformerUpdate (sample_parent_api [json_dump (\<lambda>r. []) (- 1) sample_block]) (UpdateWhere ''guid'' ''b1'')
     \<lparr>pd_world = 3, pd_clog = ''''\<rparr>) = Fault ArgumentType"
proof -
  let ?api = "sample_parent_api [json_dump (\<lambda>r. []) (- 1) sample_block]"
  obtain args where args: "informer_args ?api sample_block = Ok args" using sample_block_args by blast
  have "json_parse (pa_strtod ?api) (json_dump (\<lambda>r. []) (- 1) sample_block) = Some (Ok sample_block)"
    by (rule json_parse_dumped [OF sample_block_plain])
  then show ?thesis
    by (rule InformerUpdate_complete_block [OF sample_parent_api_typed sample_parent_api_simps(1,2) _ _ _ _ _ args,
          where g = "''B1''" and v = "JUnsigned 7" and l = 7])
      (simp_all add: sample_block_def json_at_def)
qed

text \<open>C28: a document without a name ends the round: the error is logged, no document behind it is looked
  at, and the caller is still told that the round succeeded.
\<close>
theorem InformerUpdate_stops:
  assumes "pa_find api (mongo_main_url (pa_cfg api)) (mongo_main_db (pa_cfg api)) query (pd_world s) = None"
    and "pa_docs api query (pd_world s) = Inr (doc # docs)"
    and "json_parse (pa_strtod api) doc = Some (Ok (JObject m))" and "map_find m ''guid'' = None"
    and "pa_free api (pd_world s) = None"
  shows "InformerUpdate api query s =
    (Ok True, s\<lparr>pd_clog := pd_clog s @ ''['' @ pa_tid api @ '']InformerUpdate error: type must be string, but is null ''
       @ [CHR 0x0A, CHR 0x0A]\<rparr>)"
  using assms
  by (simp add: InformerUpdate_def update_document_def json_at_def finish_statement_def update_error_def)

theorem InformerUpdate_stops_witness:
  "InformerUpdate (sample_parent_api [''{}'', json_dump (\<lambda>r. []) (- 1) sample_block]) UpdateAll
     \<lparr>pd_world = 3, pd_clog = ''''\<rparr> =
   (Ok True, \<lparr>pd_world = 3, pd_clog = ''[1]InformerUpdate error: type must be string, but is null '' @ [CHR 0x0A, CHR 0x0A]\<rparr>)"
proof -
  have p: "json_parse (pa_strtod (sample_parent_api docs)) ''{}'' = Some (Ok (JObject []))" for docs
    unfolding sample_parent_api_simps(6) by code_simp
  show ?thesis
    using InformerUpdate_stops [OF sample_parent_api_simps(1,2) p _ sample_parent_api_simps(3),
        where s = "\<lparr>pd_world = 3, pd_clog = ''''\<rparr>"]
    by simp
qed

end
