(* ===== verification/SyncSpec.thy ===== *)
theory SyncSpec
  imports BaseCoreSpec ParentDB Workers
begin

text \<open>
  The shared core on the local database: the contract the core needs of the operations it asks for,
  what it then keeps over the start and any number of rounds, and the contract the synchronisation
  with MongoDB and SQLite fulfils.
\<close>

section \<open>The contract\<close>

lemma deliver_db [simp]: "b_db (deliver arrived b) = b_db b"
  by (simp add: deliver_def)

text \<open>
  Every operation with defined behaviour leaves a database that is in a preorder \<open>le\<close> to the one
  before.
\<close>

locale database_contract =
  fixes act :: "db_action \<Rightarrow> 'db \<Rightarrow> unit outcome \<times> 'db" and le :: "'db \<Rightarrow> 'db \<Rightarrow> bool"
  assumes act_le: "act a db = (r, db') \<Longrightarrow> (\<exists>x. r = Fault x) \<or> le db db'"
    and le_refl: "le db db"
    and le_trans: "le db db' \<Longrightarrow> le db' db'' \<Longrightarrow> le db db''"
begin

lemma optional_act_le:
  "(case oa of None \<Rightarrow> (Ok (), db) | Some a \<Rightarrow> act a db) = (r, db') \<Longrightarrow> (\<exists>x. r = Fault x) \<or> le db db'"
  using act_le le_refl by (cases oa) auto

lemma loop_le:
  assumes "be_act env = act"
  shows "mq_loop env action stop m q lg db = (r, q', lg', db') \<Longrightarrow> (\<exists>x. r = mq_result.Broken x) \<or> le db db'"
proof (induction stop arbitrary: m q lg db)
  case 0
  then show ?case using le_refl by (auto simp: mq_loop.simps [of env] split: if_splits)
next
  case (Suc stop)
  obtain r1 db1 where a: "(case action m of None \<Rightarrow> (Ok (), db) | Some a \<Rightarrow> be_act env a db) = (r1, db1)"
    by fastforce
  obtain g q1 where get: "queue_get q = (g, q1)" by fastforce
  have next_le: "(\<exists>x. r = mq_result.Broken x) \<or> le db1 db'"
    if "mq_loop env action stop m' q1 (be_push env 100 lg (log_line m)) db1 = (r, q', lg', db')" for m'
    using Suc.IH that .
  show ?case
    using Suc.prems optional_act_le [OF a [unfolded assms]] next_le le_refl le_trans [of db db1 db']
    by (cases r1; cases g)
      (auto simp: mq_loop.simps [of env _ _ m] a get Let_def split: if_splits)
qed

lemma poll_le:
  assumes "be_act env = act" and "mq_poll env action q lg db = (r, q', lg', db')"
  shows "(\<exists>x. r = mq_result.Broken x) \<or> le db db'"
proof (cases q)
  case (Some qs)
  obtain g q1 where get: "queue_get qs = (g, q1)" by fastforce
  show ?thesis
  proof (cases g)
    case (Inr m)
    obtain r1 q2 lg1 db1 where "mq_loop env action MAXCOUNT m q1 lg db = (r1, q2, lg1, db1)" by (metis prod_cases4)
    with assms(2) Some get Inr loop_le [OF assms(1) this] show ?thesis by (simp add: mq_poll_def)
  qed (use assms(2) Some get le_refl in \<open>simp add: mq_poll_def\<close>)
qed (use assms(2) in \<open>auto simp: mq_poll_def\<close>)

lemma round_le:
  assumes "be_act env = act" and "BaseCore_ProcessMQ env now b = (r, b')"
  shows "(\<exists>x. r = Fault x) \<or> le (b_db b) (b_db b')"
proof -
  obtain r1 q1 lg1 db1 where 1: "mq_poll env informer_action (b_mq_informer b) (b_mq_log b) (b_db b) = (r1, q1, lg1, db1)"
    by (metis prod_cases4)
  obtain r2 q2 lg2 db2 where 2: "mq_poll env account_action (b_mq_account b) lg1 db1 = (r2, q2, lg2, db2)"
    by (metis prod_cases4)
  show ?thesis
    using assms(2) poll_le [OF assms(1) 1] poll_le [OF assms(1) 2] le_trans [of "b_db b" db1 db2]
    by (cases r1; cases r2) (auto simp: BaseCore_ProcessMQ_def 1 2 Let_def mq_caught_def)
qed

lemma rounds_le:
  assumes "be_act env = act"
  shows "run_rounds env clock arrivals n b = (r, b') \<Longrightarrow> (\<exists>x. r = Fault x) \<or> le (b_db b) (b_db b')"
proof (induction n arbitrary: r b')
  case (Suc n)
  obtain r1 b1 where 1: "run_rounds env clock arrivals n b = (r1, b1)" by fastforce
  obtain r2 b2 where 2: "BaseCore_ProcessMQ env (clock n) (deliver (arrivals n) b1) = (r2, b2)" by fastforce
  show ?case
    using Suc.prems Suc.IH [OF 1] round_le [OF assms 2] le_trans [of "b_db b" "b_db b1" "b_db b2"]
    by (cases r1; cases r2) (auto simp: 1 2)
qed (use le_refl in simp)

lemma start_le:
  assumes "be_act env = act" and "BaseCore_new env fails postfix now junk db = (r, b)"
  shows "(\<exists>x. r = Fault x) \<or> le db (b_db b)"
proof -
  have "b_db (snd (run_calls fails k (init_calls cfg postfix) b)) = b_db b" for k cfg and b :: "'db basecore"
    by (simp add: init_calls_def queue_names_def split: option.split)
  then have "b_db (BaseCore_InitMessageQueue env fails postfix b) = b_db b" for b :: "'db basecore"
    by (simp add: BaseCore_InitMessageQueue_def split: prod.split option.split) (metis snd_conv)
  moreover obtain r1 db1 where 1: "act UpdateAll db = (r1, db1)" by fastforce
  moreover obtain r2 db2 where 2: "act RebuildIndex db1 = (r2, db2)" by fastforce
  ultimately show ?thesis
    using assms(2) act_le [OF 1] act_le [OF 2] le_refl le_trans [of db db1 db2]
    by (cases r1) (auto simp: BaseCore_new_def BaseCore_LoadAllEntities_def assms(1) split: if_splits)
qed

text \<open>The process: the start and then any number of rounds.\<close>

lemma process_le:
  assumes "be_act env = act" and "BaseCore_new env fails postfix now junk db = (Ok (), b)"
    and "run_rounds env clock arrivals n b = (r, b')"
  shows "(\<exists>x. r = Fault x) \<or> le db (b_db b')"
  using start_le [OF assms(1,2)] rounds_le [OF assms(1,3)] le_trans [of db "b_db b" "b_db b'"] by auto

end

section \<open>The synchronisation\<close>

text \<open>One change of the database: a row is deleted, or the index is rebuilt.\<close>

definition removal :: "'w parent_api \<Rightarrow> 'w db_api \<Rightarrow> 'w \<Rightarrow> 'w \<Rightarrow> bool" where
  "removal api db w w' \<longleftrightarrow>
     (\<exists>guid sql. pa_printf api BUF_SIZE delete_format [AStr guid] = Ok sql \<and> w' = snd (pa_statement api sql w)) \<or>
     w' = DataBase_indexRebuild db w"

definition only_removes :: "'w parent_api \<Rightarrow> 'w db_api \<Rightarrow> 'w parent \<Rightarrow> 'w parent \<Rightarrow> bool" where
  "only_removes api db s s' \<longleftrightarrow>
     (typed_printf (pa_printf api) \<longrightarrow> (removal api db)\<^sup>*\<^sup>* (pd_world s) (pd_world s'))"

lemma remove_removes:
  assumes "InformerRemove api guid s = (r, s')"
  shows "(removal api db)\<^sup>*\<^sup>* (pd_world s) (pd_world s')"
proof (cases "pa_printf api BUF_SIZE delete_format [AStr (c_str guid)]")
  case (Ok sql)
  have "removal api db (pd_world s) (snd (pa_statement api sql (pd_world s)))"
    using Ok unfolding removal_def by blast
  moreover have "pd_world (run_statement api sql s) = snd (pa_statement api sql (pd_world s))"
    by (simp add: run_statement_def split: prod.split option.split)
  ultimately show ?thesis using assms Ok
    by (auto simp: InformerRemove_def finish_statement_def split: if_splits option.splits)
qed (use assms in \<open>auto simp: InformerRemove_def split: if_splits\<close>)

lemma parent_act_removes:
  assumes "parent_act api db a s = (r, s')"
  shows "(\<exists>x. r = Fault x) \<or> only_removes api db s s'"
proof -
  have update: "(\<exists>x. r = Fault x) \<or> only_removes api db s s'"
    if "(case InformerUpdate api query s of (Ok b, s') \<Rightarrow> (Ok (), s') | (Throw e, s') \<Rightarrow> (Throw e, s')
          | (Fault x, s') \<Rightarrow> (Fault x, s')) = (r, s')" for query
    using that update_world [of api query s]
    by (cases "InformerUpdate api query s"; cases "fst (InformerUpdate api query s)") (auto simp: only_removes_def)
  show ?thesis
  proof (cases a)
    case (RemoveGuid guid)
    then show ?thesis using assms remove_removes [of api guid s r s' db] by (simp add: parent_act_def only_removes_def)
  next
    case RebuildIndex
    then show ?thesis using assms by (auto simp: parent_act_def only_removes_def removal_def)
  qed (use assms update in \<open>simp_all add: parent_act_def\<close>)
qed

interpretation parent: database_contract "parent_act api db" "only_removes api db" for api db
  by unfold_locales (auto dest: parent_act_removes simp: only_removes_def)

text \<open>The sample libraries of the synchronisation behind the shared core.\<close>

definition sample_index_api :: "nat db_api" where
  "sample_index_api =
     \<lparr>db_files = \<lparr>p_elems = (\<lambda>p. [p]), p_append = (@), p_parent = (\<lambda>p. None), f_uid = 0, f_gid = 0,
          f_exists = (\<lambda>w p. Ok False), f_is_regular = (\<lambda>w p. Ok False), f_is_directory = (\<lambda>w p. Ok False),
          f_stat = (\<lambda>w p. None), f_create_directories = (\<lambda>w p. (Ok True, w)),
          f_open_create = (\<lambda>w p. (True, w)), f_unlink = (\<lambda>w p. w), f_read = (\<lambda>w p. None)\<rparr>,
      d_open = (\<lambda>w p. - 1), d_size = (\<lambda>w p. - 1), d_read = (\<lambda>w p. ''''), d_list = (\<lambda>w p. None),
      d_connect = (\<lambda>p f w. (None, w)), d_statement = (\<lambda>q w. (None, w)), d_begin = (\<lambda>w. (None, w)),
      d_commit = (\<lambda>w. (None, w)), d_behind = [CHR 0x00]\<rparr>"

definition sample_sync :: "nat parent base_env" where
  "sample_sync =
     \<lparr>be_cfg = sample_config '''' '''', be_reopen = False, be_act = parent_act (sample_parent_api []) sample_index_api,
      be_push = ref_push, be_show_time = (\<lambda>_. ''''), be_show_double = (\<lambda>_. ''''), be_build = ''''\<rparr>"

lemma sample_sync_simps:
  "be_act sample_sync = parent_act (sample_parent_api []) sample_index_api" "\<not> be_reopen sample_sync"
  by (simp_all add: sample_sync_def)

lemma sample_remove:
  "pa_printf (sample_parent_api []) n delete_format [AStr g] = Ok []"
  "pa_statement (sample_parent_api []) sql w = (None, Suc w)"
proof -
  have "conversions delete_format = [''s'']" by code_simp
  then show "pa_printf (sample_parent_api []) n delete_format [AStr g] = Ok []"
    "pa_statement (sample_parent_api []) sql w = (None, Suc w)"
    by (simp_all add: sample_parent_api_def)
qed

section \<open>Property\<close>

text \<open>C9: the local database only ever loses blocks: whatever the broker's messages, MongoDB and SQLite
  answer, as long as \<^verbatim>\<open>sqlite3_snprintf\<close> follows the C rules, the main thread, from its
  start through any number of rounds, either meets undefined behaviour or has changed the database by
  deleting single rows and rebuilding the index alone: no block is ever added or updated.
\<close>
theorem process_only_removes:
  assumes "be_act env = parent_act api db" and "typed_printf (pa_printf api)"
    and "BaseCore_new env fails postfix now junk s = (Ok (), b)" and "run_rounds env clock arrivals n b = (r, b')"
  shows "(\<exists>x. r = Fault x) \<or> (removal api db)\<^sup>*\<^sup>* (pd_world s) (pd_world (b_db b'))"
  using parent.process_le [OF assms(1,3,4)] assms(2) by (simp add: only_removes_def)

theorem process_only_removes_witness:
  "\<exists>b b'. BaseCore_new sample_sync (\<lambda>n c. None) ''p'' 0 True \<lparr>pd_world = 3, pd_clog = ''''\<rparr> = (Ok (), b) \<and>
     run_rounds sample_sync int (\<lambda>n. ([Inr \<lparr>m_count = 0, m_key = ''informer.delete'', m_body = ''g''\<rparr>], [])) 1 b =
       (Ok (), b') \<and>
     (removal (sample_parent_api []) sample_index_api)\<^sup>*\<^sup>* 3 (pd_world (b_db b'))"
proof -
  obtain b where b: "BaseCore_new sample_sync (\<lambda>n c. None) ''p'' 0 True \<lparr>pd_world = 3, pd_clog = ''''\<rparr> = (Ok (), b)"
    and q: "b_mq_informer b = Some []" "b_mq_account b = Some []"
    by (simp add: BaseCore_new_def BaseCore_LoadAllEntities_def BaseCore_InitMessageQueue_def init_calls_def queue_names_def
        sample_sync_simps parent_act_def InformerUpdate_def finish_statement_def)
  let ?m = "\<lparr>m_count = 0, m_key = ''informer.delete'', m_body = ''g''\<rparr>"
  have "InformerRemove (sample_parent_api []) ''g'' s = (Ok (), s\<lparr>pd_world := Suc (pd_world s)\<rparr>)" for s
    by (simp add: InformerRemove_def sample_remove run_statement_def finish_statement_def)
  then obtain b' where b': "run_rounds sample_sync int (\<lambda>n. ([Inr ?m], [])) 1 b = (Ok (), b')"
    by (simp add: deliver_def BaseCore_ProcessMQ_def mq_poll_def q mq_loop.simps [of sample_sync] informer_action_def
        sample_sync_simps parent_act_def no_message_def MAXCOUNT_def)
  from process_only_removes [OF sample_sync_simps(1) sample_parent_api_typed b b'] b b' show ?thesis by auto
qed

end
