(* ===== verification/Server.thy ===== *)
theory Server
  imports DataBase "HOL-Library.Log_Nat"
begin

text \<open>
  \<^verbatim>\<open>src/Server.cpp\<close>, \<^verbatim>\<open>src/main.cpp\<close>: turning the process into a
  daemon and the start of the worker. The calls of the operating system are parameters over its
  state \<open>'w\<close>; the lines for the system log are not modelled. The parent waits for a
  signal, the child goes on.
\<close>

record 'w os_api =
  o_getppid :: "'w \<Rightarrow> int"
  o_signal :: "string \<Rightarrow> string \<Rightarrow> 'w \<Rightarrow> 'w"
  o_fork :: "'w \<Rightarrow> int \<times> 'w"
  o_getuid :: "'w \<Rightarrow> u32"
  o_geteuid :: "'w \<Rightarrow> u32"
  o_getpwnam :: "'w \<Rightarrow> string \<Rightarrow> (u32 \<times> u32) option"
  o_setuid :: "u32 \<Rightarrow> 'w \<Rightarrow> int \<times> 'w"
  o_setgid :: "u32 \<Rightarrow> 'w \<Rightarrow> int \<times> 'w"
  o_stat :: "'w \<Rightarrow> string \<Rightarrow> int"
  o_remove :: "string \<Rightarrow> 'w \<Rightarrow> 'w"
  o_create :: "string \<Rightarrow> 'w \<Rightarrow> int \<times> 'w"
  o_umask :: "u32 \<Rightarrow> 'w \<Rightarrow> 'w"
  o_setsid :: "'w \<Rightarrow> int \<times> 'w"
  o_chdir :: "string \<Rightarrow> 'w \<Rightarrow> int \<times> 'w"
  o_freopen :: "string \<Rightarrow> string \<Rightarrow> 'w \<Rightarrow> bool \<times> 'w"
  o_kill :: "int \<Rightarrow> string \<Rightarrow> 'w \<Rightarrow> 'w"
  o_getpid :: "'w \<Rightarrow> nat"
  o_write :: "int \<Rightarrow> string \<Rightarrow> 'w \<Rightarrow> int \<times> 'w"
  o_close :: "int \<Rightarrow> 'w \<Rightarrow> 'w"
  o_processes :: "'w \<Rightarrow> (string \<times> string) list option"
  o_alarm :: "nat \<Rightarrow> 'w \<Rightarrow> 'w"
  o_pause :: "'w \<Rightarrow> string \<times> 'w"

section \<open>Another process of the same name\<close>

text \<open>
  \<open>o_processes\<close> lists the names found in \<^verbatim>\<open>/proc\<close> with the first line of
  their \<^verbatim>\<open>cmdline\<close>. The program's name is the text before the first zero byte
  and behind the last slash.
\<close>

definition command_name :: "string \<Rightarrow> string" where
  "command_name cmdLine = rev (takeWhile (\<lambda>c. c \<noteq> CHR ''/'') (rev (takeWhile (\<lambda>c. c \<noteq> CHR 0x00) cmdLine)))"

fun search_processes :: "string \<Rightarrow> nat \<Rightarrow> (string \<times> string) list \<Rightarrow> int" where
  "search_processes procName self [] = - 1"
| "search_processes procName self ((d_name, cmdLine) # ps) =
    (let i = atoi d_name in
     if i > 0 \<and> cmdLine \<noteq> '''' \<and> procName = command_name cmdLine \<and> i \<noteq> int self then i
     else search_processes procName self ps)"

definition getProcIdByName :: "'w os_api \<Rightarrow> 'w \<Rightarrow> string \<Rightarrow> int" where
  "getProcIdByName api w procName =
    (case o_processes api w of
       None \<Rightarrow> - 1 | Some ps \<Rightarrow> search_processes procName (o_getpid api w) ps)"

section \<open>The pid file\<close>

datatype 'a start = Running 'a | Exited int

text \<open>
  \<^verbatim>\<open>log10(p) + 2\<close> bytes, cut to an int, are written: the number of digits of the pid
  and one more.
\<close>

definition pid_length :: "nat \<Rightarrow> nat" where
  "pid_length p = floorlog 10 p + 1"

definition pid_buffer :: "nat \<Rightarrow> string" where
  "pid_buffer p =
    (let len = pid_length p; printed = take (len - 1) (dec_nat p) in
     printed @ replicate (len - length printed) (CHR 0x00))"

definition Server_writePid :: "'w os_api \<Rightarrow> string \<Rightarrow> 'w \<Rightarrow> 'w start" where
  "Server_writePid api pidFileName w =
    (if pidFileName = '''' then Running w
     else
       (case o_create api pidFileName w of (fd, w1) \<Rightarrow>
          if fd < 0 then Exited 1
          else (case o_write api fd (pid_buffer (o_getpid api w1)) w1 of
                  (n, w2) \<Rightarrow> Running (o_close api fd w2))))"

section \<open>Becoming a daemon\<close>

text \<open>The handler of the signals that end the waiting parent; any other signal lets it go on and fail.\<close>

definition child_handler_exit :: "string \<Rightarrow> int option" where
  "child_handler_exit sig =
    (if sig = ''SIGALRM'' then Some 1
     else if sig = ''SIGUSR1'' then Some 0
     else if sig = ''SIGCHLD'' then Some 1
     else None)"

definition parent_waits :: "'w os_api \<Rightarrow> 'w \<Rightarrow> 'w start" where
  "parent_waits api w =
    (case o_pause api (o_alarm api 2 w) of (sig, w') \<Rightarrow>
       Exited (case child_handler_exit sig of Some n \<Rightarrow> n | None \<Rightarrow> 1))"

fun set_signals :: "'w os_api \<Rightarrow> (string \<times> string) list \<Rightarrow> 'w \<Rightarrow> 'w" where
  "set_signals api [] w = w"
| "set_signals api ((s, h) # hs) w = set_signals api hs (o_signal api s h w)"

definition parent_signals :: "(string \<times> string) list" where
  "parent_signals =
     [(''SIGCHLD'', ''child_handler''), (''SIGUSR1'', ''child_handler''), (''SIGALRM'', ''child_handler'')]"

definition child_signals :: "(string \<times> string) list" where
  "child_signals =
     [(''SIGHUP'', ''SIG_DFL''), (''SIGCHLD'', ''SIG_DFL''), (''SIGTSTP'', ''SIG_IGN''), (''SIGTTOU'', ''SIG_IGN''),
      (''SIGTTIN'', ''SIG_IGN''), (''SIGTERM'', ''SIG_DFL''), (''SIGPIPE'', ''SIG_DFL''), (''SIGRTMIN'', ''SIG_DFL'')]"

text \<open>Failures of \<^verbatim>\<open>setuid\<close> and \<^verbatim>\<open>setgid\<close> are only written to the system log.\<close>

definition drop_privileges :: "'w os_api \<Rightarrow> string \<Rightarrow> 'w \<Rightarrow> 'w" where
  "drop_privileges api user_name w =
    (if o_getuid api w = 0 \<or> o_geteuid api w = 0 then
       (case o_getpwnam api w (c_str user_name) of
          None \<Rightarrow> w
        | Some (pw_uid, pw_gid) \<Rightarrow>
            (case o_setuid api pw_uid w of (r1, w1) \<Rightarrow>
               (case o_setgid api pw_gid w1 of (r2, w2) \<Rightarrow> w2)))
     else w)"

definition take_lock :: "'w os_api \<Rightarrow> string \<Rightarrow> string \<Rightarrow> 'w \<Rightarrow> 'w start" where
  "take_lock api progname lockFileName w =
    (if lockFileName = '''' then Running w
     else
       (let create = (\<lambda>w. case o_create api lockFileName w of
                            (fd, w') \<Rightarrow> if fd < 0 then Exited 1 else Running w') in
        if o_stat api w lockFileName \<noteq> - 1 then
          (if getProcIdByName api w progname > 0 then Exited 1
           else create (o_remove api lockFileName w))
        else create w))"

definition detach :: "'w os_api \<Rightarrow> int \<Rightarrow> 'w \<Rightarrow> 'w" where
  "detach api parent w =
    (let w = o_umask api 7 w;
         w = snd (o_setsid api w);
         w = snd (o_chdir api ''/'' w);
         w = snd (o_freopen api ''r'' ''stdin'' w);
         w = snd (o_freopen api ''w'' ''stdout'' w);
         w = snd (o_freopen api ''w'' ''stderr'' w)
     in o_kill api parent ''SIGUSR1'' w)"

definition child_starts :: "'w os_api \<Rightarrow> string \<Rightarrow> config \<Rightarrow> 'w \<Rightarrow> 'w start" where
  "child_starts api progname cfg w =
    (let parent = o_getppid api w;
         w = drop_privileges api (user cfg) (set_signals api child_signals w) in
     case take_lock api progname (lock_file cfg) w of
       Exited n \<Rightarrow> Exited n
     | Running w \<Rightarrow> Server_writePid api (pid_file cfg) (detach api parent w))"

definition Server_new :: "'w os_api \<Rightarrow> string \<Rightarrow> config \<Rightarrow> 'w \<Rightarrow> 'w start" where
  "Server_new api progname cfg w =
    (if o_getppid api w = 1 then Running w
     else
       (case o_fork api (set_signals api parent_signals w) of (pid, w1) \<Rightarrow>
          if pid < 0 then Exited 1
          else if pid > 0 then parent_waits api w1
          else child_starts api progname cfg w1))"

section \<open>main\<close>

text \<open>
  \<open>main_options\<close> runs over what \<^verbatim>\<open>getopt\<close> returns, an option with its argument at a
  time. The outcome of \<^verbatim>\<open>main\<close>: an exit with its status and what was printed, or
  service with a configuration.
\<close>

record options =
  opt_config :: string
  opt_sock :: string
  opt_print_pid :: bool
  opt_test :: bool

definition default_options :: options where
  "default_options = \<lparr>opt_config = ''config.xml'', opt_sock = '''', opt_print_pid = False, opt_test = False\<rparr>"

fun main_options :: "(char \<times> string) list \<Rightarrow> options \<Rightarrow> options option" where
  "main_options [] opts = Some opts"
| "main_options ((ret, optarg) # os) opts =
    (if ret = CHR ''c'' then main_options os (opts\<lparr>opt_config := optarg\<rparr>)
     else if ret = CHR ''s'' then main_options os (opts\<lparr>opt_sock := optarg\<rparr>)
     else if ret = CHR ''p'' then main_options os (opts\<lparr>opt_print_pid := True\<rparr>)
     else if ret = CHR ''t'' then main_options os (opts\<lparr>opt_test := True\<rparr>)
     else None)"

datatype ('s) ending = Exit_status int string | Serves 's | Uncaught exn | Undefined fault

text \<open>What the parts of \<^verbatim>\<open>main\<close> work on: the libraries and the operating system.\<close>

record ('w, 'd, 'e) machine =
  m_libs :: "('w, 'd, 'e) config_libs"
  m_db :: "'w db_api"
  m_os :: "'w os_api"
  m_argv0 :: string
  m_progname :: string

definition usage :: "string \<Rightarrow> string" where
  "usage argv0 = ''Error found! '' @ argv0 @ '' -c config_file -s socket_path'' @ [CHR 0x0A]"

text \<open>The member \<^verbatim>\<open>reopen\<close> that \<^verbatim>\<open>openDb\<close> leaves set.\<close>

definition db_reopen :: "'w db_api \<Rightarrow> config \<Rightarrow> 'w \<Rightarrow> bool" where
  "db_reopen api cfg w = (already_there api (dbpath cfg) w = Go True)"

definition main_serve :: "('w, 'd, 'e) machine \<Rightarrow> options \<Rightarrow> config \<Rightarrow> 'w \<Rightarrow> (config \<times> bool \<times> 'w) ending" where
  "main_serve m opts cfg0 w0 =
    (case Server_new (m_os m) (m_progname m) cfg0 w0 of
       Exited n \<Rightarrow> Exit_status n ''''
     | Running w \<Rightarrow>
         (let cfg = (if 8 < length (opt_sock opts) then cfg0\<lparr>server_socket_path := opt_sock opts\<rparr> else cfg0) in
          case DataBase_openDb (m_db m) True (cfg, w) of
            Go (r, cfg', w') \<Rightarrow> Serves (cfg', db_reopen (m_db m) cfg w, w')
          | Quit mes \<Rightarrow> Exit_status 1 (case mes of Some t \<Rightarrow> t | None \<Rightarrow> '''')
          | Raised e \<Rightarrow> Uncaught e
          | Broken x \<Rightarrow> Undefined x))"

definition worker_main ::
  "('w, 'd, 'e) machine \<Rightarrow> (char \<times> string) list \<Rightarrow> config \<times> counters \<times> 'w \<Rightarrow> (config \<times> bool \<times> 'w) ending" where
  "worker_main m argv st =
    (case main_options argv default_options of
       None \<Rightarrow> Exit_status 1 (usage (m_argv0 m))
     | Some opts \<Rightarrow>
         (case Config_LoadConfig (m_libs m) (opt_config opts)
                (apsnd (apsnd (o_signal (m_os m) ''SIGPIPE'' ''SIG_IGN'')) st) of
            Quit mes \<Rightarrow> Exit_status 1 (case mes of Some t \<Rightarrow> t @ [CHR 0x0A] | None \<Rightarrow> '''')
          | Raised e \<Rightarrow> Uncaught e
          | Broken x \<Rightarrow> Undefined x
          | Go (loaded, cfg, cnt, w) \<Rightarrow>
              if opt_test opts then Exit_status 0 (''Config: Ok'' @ [CHR 0x0A])
              else if opt_print_pid opts then Exit_status 0 (pid_file cfg @ [CHR 0x0A])
              else main_serve m opts cfg w))"

section \<open>Lemmas\<close>

lemma floorlog_step: "floorlog 10 n = (if n < 10 then (if 0 < n then 1 else 0) else Suc (floorlog 10 (n div 10)))"
proof -
  have "floorlog 10 m = (if 0 < m then Suc (floorlog 10 (m div 10)) else 0)" for m :: nat
    by (subst compute_floorlog) simp
  from this [of n] this [of "n div 10"] show ?thesis by (auto simp: div_eq_0_iff)
qed

lemma length_dec_nat: "0 < n \<Longrightarrow> length (dec_nat n) = floorlog 10 n"
proof (induction n rule: dec_nat.induct)
  case (1 n)
  show ?case
  proof (cases "n < 10")
    case True
    then show ?thesis using 1(2) by (subst dec_nat.simps, subst floorlog_step) simp
  next
    case False
    then show ?thesis using 1(1) by (subst dec_nat.simps, subst floorlog_step) simp
  qed
qed

lemma pid_buffer_digits: "0 < p \<Longrightarrow> pid_buffer p = dec_nat p @ [CHR 0x00]"
  by (simp add: pid_buffer_def pid_length_def Let_def length_dec_nat)

text \<open>Another process of the name: a positive entry that is not this process.\<close>

definition same_program :: "string \<Rightarrow> nat \<Rightarrow> string \<times> string \<Rightarrow> bool" where
  "same_program procName self p \<longleftrightarrow>
     0 < atoi (fst p) \<and> atoi (fst p) \<noteq> int self \<and> snd p \<noteq> '''' \<and> command_name (snd p) = procName"

lemma search_processes_found:
  "search_processes procName self ps > 0 \<longleftrightarrow> (\<exists>p \<in> set ps. same_program procName self p)"
  by (induction ps) (auto simp: same_program_def Let_def)

section \<open>Properties\<close>

text \<open>The pid file gets the decimal digits of the pid and one zero byte behind them: the buffer
  is as long as the text with its terminator, and all of it is written.\<close>
theorem Server_writePid_contents:
  assumes "pidFileName \<noteq> ''''" and "o_create api pidFileName w = (fd, w1)" and "0 \<le> fd"
    and "0 < o_getpid api w1"
  shows "Server_writePid api pidFileName w =
    Running (o_close api fd (snd (o_write api fd (dec_nat (o_getpid api w1) @ [CHR 0x00]) w1)))"
  using assms by (simp add: Server_writePid_def pid_buffer_digits split: prod.split)

text \<open>The lock file alone does not keep a second instance away: the start fails only if a process
  of the same command name is listed, or the file cannot be created; a lock file left over is
  removed and created again.\<close>
theorem Server_take_lock:
  assumes "lockFileName \<noteq> ''''" and "o_processes api w = Some ps"
  shows "take_lock api progname lockFileName w =
    (if o_stat api w lockFileName \<noteq> - 1 \<and> (\<exists>p \<in> set ps. same_program progname (o_getpid api w) p)
     then Exited 1
     else
       (case o_create api lockFileName
               (if o_stat api w lockFileName \<noteq> - 1 then o_remove api lockFileName w else w) of
          (fd, w') \<Rightarrow> if fd < 0 then Exited 1 else Running w'))"
  using assms search_processes_found [of progname "o_getpid api w" ps]
  by (simp add: take_lock_def getProcIdByName_def Let_def)

text \<open>
  POSIX on the ids of a process: root sets every user id; a process that is not root may only
  move its effective group to its real or its saved one.
\<close>

definition posix_ids :: "'w os_api \<Rightarrow> ('w \<Rightarrow> u32) \<Rightarrow> ('w \<Rightarrow> u32 \<times> u32 \<times> u32) \<Rightarrow> bool" where
  "posix_ids api uid gids \<longleftrightarrow>
     (\<forall>u w. uid w = 0 \<longrightarrow> uid (snd (o_setuid api u w)) = u) \<and>
     (\<forall>u w. gids (snd (o_setuid api u w)) = gids w) \<and>
     (\<forall>g w. uid (snd (o_setgid api g w)) = uid w) \<and>
     (\<forall>g w. uid w \<noteq> 0 \<longrightarrow>
        gids (snd (o_setgid api g w)) =
          (case gids w of (r, e, s) \<Rightarrow> if g = r \<or> g = s then (r, g, s) else (r, e, s)))"

text \<open>C34: a daemon started by root gives up the user before the group, so it can no longer give up
  the group: it goes on as the configured user but in the group it was started in.\<close>
theorem drop_privileges_keeps_group:
  assumes "posix_ids api uid gids" and "o_getuid api w = 0" and "uid w = 0" and "gids w = (g, g, g)"
    and "o_getpwnam api w (c_str user_name) = Some (pw_uid, pw_gid)" and "pw_uid \<noteq> 0"
  shows "uid (drop_privileges api user_name w) = pw_uid \<and> gids (drop_privileges api user_name w) = (g, g, g)"
proof -
  let ?w1 = "snd (o_setuid api pw_uid w)"
  have "uid ?w1 = pw_uid" and "gids ?w1 = (g, g, g)"
    and "uid (snd (o_setgid api pw_gid ?w1)) = uid ?w1"
    using assms(1,3,4) by (simp_all add: posix_ids_def)
  moreover have "uid ?w1 \<noteq> 0 \<longrightarrow> gids (snd (o_setgid api pw_gid ?w1)) =
      (case gids ?w1 of (r, e, s) \<Rightarrow> if pw_gid = r \<or> pw_gid = s then (r, pw_gid, s) else (r, e, s))"
    using assms(1) unfolding posix_ids_def by blast
  moreover have "drop_privileges api user_name w = snd (o_setgid api pw_gid ?w1)"
    using assms(2,5) by (simp add: drop_privileges_def split: prod.split)
  ultimately show ?thesis using assms(6) by auto
qed

text \<open>C31: main does not look at what loading the configuration said: with a name that is not a
  regular file the test option reports a good configuration with status 0, the pid option prints the
  pid file of a configuration nobody has filled, and otherwise the worker starts with it.\<close>
theorem main_ignores_missing_config:
  assumes "main_options argv default_options = Some opts"
    and "getConfigDir (lib_files (m_libs m)) (o_signal (m_os m) ''SIGPIPE'' ''SIG_IGN'' w) (opt_config opts) = Ok ''''"
  shows "worker_main m argv (cfg, cnt, w) =
    (if opt_test opts then Exit_status 0 (''Config: Ok'' @ [CHR 0x0A])
     else if opt_print_pid opts then Exit_status 0 (pid_file cfg @ [CHR 0x0A])
     else main_serve m opts (cfg\<lparr>mFileName := opt_config opts, mIsInited := False, cfgFilePath := ''''\<rparr>)
            (o_signal (m_os m) ''SIGPIPE'' ''SIG_IGN'' w))"
  using assms by (simp add: worker_main_def Config_LoadConfig_def Config_Load_def Let_def)

section \<open>Witnesses\<close>

text \<open>A system with the ids of one process, a lock file and a trace of what was written.\<close>

record process =
  s_uid :: u32
  s_gids :: "u32 \<times> u32 \<times> u32"
  s_files :: "string list"
  s_written :: string

definition sample_os :: "process os_api" where
  "sample_os =
     \<lparr>o_getppid = (\<lambda>w. 7), o_signal = (\<lambda>s h w. w), o_fork = (\<lambda>w. (0, w)),
      o_getuid = s_uid, o_geteuid = s_uid, o_getpwnam = (\<lambda>w n. Some (33, 33)),
      o_setuid = (\<lambda>u w. if s_uid w = 0 then (0, w\<lparr>s_uid := u\<rparr>) else (- 1, w)),
      o_setgid = (\<lambda>g w. case s_gids w of (r, e, s) \<Rightarrow>
          if s_uid w = 0 then (0, w\<lparr>s_gids := (g, g, g)\<rparr>)
          else if g = r \<or> g = s then (0, w\<lparr>s_gids := (r, g, s)\<rparr>) else (- 1, w)),
      o_stat = (\<lambda>w f. if f \<in> set (s_files w) then 0 else - 1),
      o_remove = (\<lambda>f w. w\<lparr>s_files := removeAll f (s_files w)\<rparr>),
      o_create = (\<lambda>f w. (3, w\<lparr>s_files := f # s_files w\<rparr>)),
      o_umask = (\<lambda>m w. w), o_setsid = (\<lambda>w. (42, w)), o_chdir = (\<lambda>d w. (0, w)),
      o_freopen = (\<lambda>m f w. (True, w)), o_kill = (\<lambda>p s w. w), o_getpid = (\<lambda>w. 42),
      o_write = (\<lambda>fd t w. (int (length t), w\<lparr>s_written := t\<rparr>)), o_close = (\<lambda>fd w. w),
      o_processes = (\<lambda>w. Some [(''1'', ''/sbin/init''), (''42'', ''/usr/bin/worker'')]),
      o_alarm = (\<lambda>n w. w), o_pause = (\<lambda>w. (''SIGUSR1'', w))\<rparr>"

definition sample_process :: process where
  "sample_process = \<lparr>s_uid = 0, s_gids = (0, 0, 0), s_files = [''lock''], s_written = ''''\<rparr>"

theorem Server_writePid_contents_witness:
  "Server_writePid sample_os ''pid'' sample_process =
     Running (sample_process\<lparr>s_files := [''pid'', ''lock''], s_written := ''42'' @ [CHR 0x00]\<rparr>)"
proof -
  have "dec_nat 42 = ''42''" by code_simp
  then show ?thesis
    using Server_writePid_contents [of "''pid''" sample_os sample_process 3
        "sample_process\<lparr>s_files := [''pid'', ''lock'']\<rparr>"]
    by (simp add: sample_os_def sample_process_def)
qed

theorem Server_take_lock_witness:
  "take_lock sample_os ''worker'' ''lock'' sample_process = Running (sample_process\<lparr>s_files := [''lock'']\<rparr>)"
proof -
  have p: "o_processes sample_os sample_process = Some [(''1'', ''/sbin/init''), (''42'', ''/usr/bin/worker'')]"
    by (simp add: sample_os_def)
  have "\<not> same_program ''worker'' 42 p" if "p \<in> set [(''1'', ''/sbin/init''), (''42'', ''/usr/bin/worker'')]" for p
    using that by (auto simp: same_program_def command_name_def atoi_def atoi_signed_def atoi_digits_def
        is_space_def is_digit_def less_eq_char_def)
  then show ?thesis
    by (subst Server_take_lock [OF _ p]) (auto simp: sample_os_def sample_process_def)
qed

theorem drop_privileges_keeps_group_witness:
  "s_uid (drop_privileges sample_os ''www-data'' sample_process) = 33 \<and>
   s_gids (drop_privileges sample_os ''www-data'' sample_process) = (0, 0, 0)"
  by (rule drop_privileges_keeps_group [of sample_os s_uid s_gids sample_process 0 "''www-data''" 33 33])
    (auto simp: posix_ids_def sample_os_def sample_process_def split: prod.splits)

definition sample_machine :: "(process, xml, xml) machine" where
  "sample_machine =
     \<lparr>m_libs =
        \<lparr>lib_files =
           \<lparr>p_elems = (\<lambda>p. [p]), p_append = (@), p_parent = (\<lambda>p. None), f_uid = 0, f_gid = 0,
            f_exists = (\<lambda>w p. Ok False), f_is_regular = (\<lambda>w p. Ok False), f_is_directory = (\<lambda>w p. Ok False),
            f_stat = (\<lambda>w p. None), f_create_directories = (\<lambda>w p. (Ok True, w)),
            f_open_create = (\<lambda>w p. (True, w)), f_unlink = (\<lambda>w p. w), f_read = (\<lambda>w p. None)\<rparr>,
         time_match = reference_time_match, regex_replace = (\<lambda>p s r. s), strptime_hms = (\<lambda>s tm. tm),
         xml_load = (\<lambda>w p. Inr (node '''' [repository_config])),
         xml_root = (\<lambda>d t. find_element (subelements d) t),
         xml_child = (\<lambda>e t. find_element (subelements e) t), xml_text = content,
         xml_attribute = (\<lambda>e a. map_of (attrs e) a)\<rparr>,
      m_db =
        \<lparr>db_files =
           \<lparr>p_elems = (\<lambda>p. [p]), p_append = (@), p_parent = (\<lambda>p. None), f_uid = 0, f_gid = 0,
            f_exists = (\<lambda>w p. Ok False), f_is_regular = (\<lambda>w p. Ok False), f_is_directory = (\<lambda>w p. Ok False),
            f_stat = (\<lambda>w p. None), f_create_directories = (\<lambda>w p. (Ok True, w)),
            f_open_create = (\<lambda>w p. (True, w)), f_unlink = (\<lambda>w p. w), f_read = (\<lambda>w p. None)\<rparr>,
         d_open = (\<lambda>w p. - 1), d_size = (\<lambda>w p. 0), d_read = (\<lambda>w p. ''''), d_list = (\<lambda>w p. None),
         d_connect = (\<lambda>f flags w. (None, w)), d_statement = (\<lambda>t w. (None, w)), d_begin = (\<lambda>w. (None, w)),
         d_commit = (\<lambda>w. (None, w)), d_behind = [CHR 0x00]\<rparr>,
      m_os = sample_os, m_argv0 = ''./worker'', m_progname = ''worker''\<rparr>"

theorem main_ignores_missing_config_witness:
  "worker_main sample_machine [(CHR ''c'', ''nowhere.xml''), (CHR ''t'', '''')]
     (no_config, \<lparr>request_processed = 0, last_time_request_processed = 0\<rparr>, sample_process) =
   Exit_status 0 (''Config: Ok'' @ [CHR 0x0A])"
proof -
  have o: "main_options [(CHR ''c'', ''nowhere.xml''), (CHR ''t'', '''')] default_options =
      Some (default_options\<lparr>opt_config := ''nowhere.xml'', opt_test := True\<rparr>)" by simp
  have "getConfigDir (lib_files (m_libs sample_machine))
      (o_signal (m_os sample_machine) ''SIGPIPE'' ''SIG_IGN'' sample_process) ''nowhere.xml'' = Ok ''''"
    by (simp add: sample_machine_def getConfigDir_def)
  then show ?thesis using main_ignores_missing_config [OF o] by simp
qed

end
