(* ===== verification/Daemon.thy ===== *)
theory Daemon
  imports SyncSpec Server
begin

text \<open>
  The daemon from its command line to its rounds: \<^verbatim>\<open>main\<close> reads the configuration, becomes a
  daemon and opens the local database; the constructor of the service then makes the shared core,
  which loads all blocks, opens the socket and starts the threads; \<^verbatim>\<open>run\<close> performs round after
  round. All of it works on one world.
\<close>

section \<open>Composition\<close>

record ('w, 'd, 'e) daemon_libs =
  dl_machine :: "('w, 'd, 'e) machine"
  dl_front :: "'w front_api"
  dl_parent :: "'w parent_api"
  dl_env :: "'w parent base_env"
  dl_fails :: "nat \<Rightarrow> amqp_call \<Rightarrow> string option"
  dl_postfix :: string
  dl_now :: int
  dl_junk :: bool

text \<open>The configuration \<^verbatim>\<open>main\<close> has read is what the core and the synchronisation see.\<close>

definition daemon_env :: "('w, 'd, 'e) daemon_libs \<Rightarrow> config \<Rightarrow> bool \<Rightarrow> 'w parent base_env" where
  "daemon_env m cfg reopen =
     (dl_env m)\<lparr>be_cfg := cfg, be_reopen := reopen,
       be_act := parent_act ((dl_parent m)\<lparr>pa_cfg := cfg\<rparr>) (m_db (dl_machine m))\<rparr>"

definition new_basecore ::
  "('w, 'd, 'e) daemon_libs \<Rightarrow> config \<Rightarrow> bool \<Rightarrow> 'w \<Rightarrow> unit outcome \<times> 'w parent basecore \<times> 'w" where
  "new_basecore m cfg reopen w =
     (case BaseCore_new (daemon_env m cfg reopen) (dl_fails m) (dl_postfix m) (dl_now m) (dl_junk m)
             \<lparr>pd_world = w, pd_clog = ''''\<rparr> of
        (r, b) \<Rightarrow> (r, b, pd_world (b_db b)))"

text \<open>A daemon that runs: its configuration, whether the database was there, the socket and the core.\<close>

definition daemon_start ::
  "('w, 'd, 'e) daemon_libs \<Rightarrow> (char \<times> string) list \<Rightarrow> config \<times> counters \<times> 'w \<Rightarrow>
   (config \<times> bool \<times> u32 \<times> 'w parent basecore) ending" where
  "daemon_start m argv st =
    (case worker_main (dl_machine m) argv st of
       Exit_status n t \<Rightarrow> Exit_status n t
     | Uncaught e \<Rightarrow> Uncaught e
     | Undefined x \<Rightarrow> Undefined x
     | Serves (cfg, reopen, w) \<Rightarrow>
         (case CgiService_new (dl_front m) cfg (new_basecore m cfg reopen) w of
            Service_started socketId b w' \<Rightarrow>
              Serves (cfg, reopen, socketId, b\<lparr>b_db := (b_db b)\<lparr>pd_world := w'\<rparr>\<rparr>)
          | Service_exit mes w' \<Rightarrow> Exit_status 1 ''''
          | Service_throws e \<Rightarrow> Uncaught e
          | Service_undefined x \<Rightarrow> Undefined x))"

section \<open>Lemmas\<close>

text \<open>
  \<open>rows\<close> gives what blocks a world stores. Documented of the libraries: a \<^verbatim>\<open>DELETE\<close> takes
  rows away, rebuilding the index and the calls of the front end leave them alone.
\<close>

definition front_keeps :: "('w \<Rightarrow> 'r) \<Rightarrow> 'w front_api \<Rightarrow> bool" where
  "front_keeps rows api \<longleftrightarrow>
     (\<forall>s h w. rows (fa_signal api s h w) = rows w) \<and> (\<forall>s h w. rows (fa_sigaction api s h w) = rows w) \<and>
     (\<forall>w. rows (fa_init api w) = rows w) \<and> (\<forall>m w. rows (snd (fa_umask api m w)) = rows w) \<and>
     (\<forall>p n w. rows (snd (fa_open_socket api p n w)) = rows w) \<and>
     (\<forall>i w. rows (snd (fa_create_thread api i w)) = rows w)"

definition deletes_rows :: "('w \<Rightarrow> 'r set) \<Rightarrow> 'w parent_api \<Rightarrow> bool" where
  "deletes_rows rows api \<longleftrightarrow>
     (\<forall>guid sql w. pa_printf api BUF_SIZE delete_format [AStr guid] = Ok sql \<longrightarrow>
        rows (snd (pa_statement api sql w)) \<subseteq> rows w)"

definition index_keeps :: "('w \<Rightarrow> 'r) \<Rightarrow> 'w db_api \<Rightarrow> bool" where
  "index_keeps rows db \<longleftrightarrow> (\<forall>w. rows (DataBase_indexRebuild db w) = rows w)"

lemma removals_rows:
  assumes "(removal api db)\<^sup>*\<^sup>* w w'" and "deletes_rows rows api" and "index_keeps rows db"
  shows "rows w' \<subseteq> rows w"
  using assms(1)
proof (induction rule: rtranclp_induct)
  case (step w1 w2)
  then have "rows w2 \<subseteq> rows w1"
    using assms(2,3) unfolding removal_def deletes_rows_def index_keeps_def by blast
  with step.IH show ?case by simp
qed simp

lemma threads_keep:
  "front_keeps rows api \<Longrightarrow> rows (snd (create_threads api i n w)) = rows w"
proof (induction api i n w rule: create_threads.induct)
  case (2 api i n w)
  then show ?case by (auto simp: front_keeps_def split: prod.split) (metis snd_conv)+
qed simp

text \<open>Between the signals and the running service, the rows change only while the core is made.\<close>

lemma service_rows:
  assumes "front_keeps rows api" and "CgiService_new api cfg new_core w = Service_started socketId b w'"
  shows "\<exists>w1 w2. rows w1 = rows w \<and> new_core w1 = (Ok (), b, w2) \<and> rows w' = rows w2"
proof -
  let ?w1 = "fa_sigaction api ''SIGPIPE'' ''SignalHandler'' (fa_sigaction api ''SIGHUP'' ''SignalHandler''
    (fa_signal api ''SIGPIPE'' ''SIG_IGN'' w))"
  note keep = assms(1) [unfolded front_keeps_def]
  obtain r b1 w2 where c: "new_core ?w1 = (r, b1, w2)" by (metis prod_cases3)
  with assms(2) have r: "r = Ok ()" by (cases r) (simp_all add: CgiService_new_def Let_def)
  obtain old_mode w3 where 3: "fa_umask api 0 (fa_init api w2) = (old_mode, w3)" by fastforce
  obtain so w4 where 4: "fa_open_socket api (c_str (server_socket_path cfg)) (server_children cfg * 4) w3 = (so, w4)"
    by fastforce
  obtain m w5 where 5: "fa_umask api old_mode w4 = (m, w5)" by fastforce
  obtain ok w6 where 6: "create_threads api 0 (nat (sint (server_children cfg))) w5 = (ok, w6)" by fastforce
  have "b1 = b \<and> w6 = w'"
    using assms(2) by (simp add: CgiService_new_def Let_def c r 3 4 5 6 split: if_splits)
  moreover have "rows w6 = rows w2"
    using keep threads_keep [OF assms(1), of 0 "nat (sint (server_children cfg))" w5] 3 4 5 6 by (metis snd_conv)
  moreover have "rows ?w1 = rows w" using keep by simp
  ultimately show ?thesis using c r by blast
qed

section \<open>Property\<close>

text \<open>C10: From the command line on, a daemon whose behaviour is defined never comes to know a block
  that was not in its database when \<^verbatim>\<open>main\<close> had opened it: whatever MongoDB and the broker hold and
  send, after the start and any number of rounds the stored blocks are among those of the file that
  was there, or of the SQL files it was filled from.\<close>
theorem daemon_stores_no_block:
  assumes "front_keeps rows (dl_front m)" and "deletes_rows rows (dl_parent m)"
    and "index_keeps rows (m_db (dl_machine m))" and "typed_printf (pa_printf (dl_parent m))"
    and "daemon_start m argv st = Serves (cfg, reopen, socketId, b)"
    and "run_rounds (daemon_env m cfg reopen) clock arrivals n b = (Ok (), b')"
  shows "\<exists>w. worker_main (dl_machine m) argv st = Serves (cfg, reopen, w) \<and> rows (pd_world (b_db b')) \<subseteq> rows w"
proof -
  let ?api = "(dl_parent m)\<lparr>pa_cfg := cfg\<rparr>" and ?db = "m_db (dl_machine m)"
  have act: "be_act (daemon_env m cfg reopen) = parent_act ?api ?db" by (simp add: daemon_env_def)
  have typed: "typed_printf (pa_printf ?api)" and del: "deletes_rows rows ?api"
    using assms(2,4) by (simp_all add: deletes_rows_def)
  obtain w b0 w' where main: "worker_main (dl_machine m) argv st = Serves (cfg, reopen, w)"
    and new: "CgiService_new (dl_front m) cfg (new_basecore m cfg reopen) w = Service_started socketId b0 w'"
    and b: "b = b0\<lparr>b_db := (b_db b0)\<lparr>pd_world := w'\<rparr>\<rparr>"
    using assms(5) by (auto simp: daemon_start_def split: ending.splits startup.splits prod.splits)
  obtain w1 w2 where rows: "rows w1 = rows w" "rows w' = rows w2"
    and core: "new_basecore m cfg reopen w1 = (Ok (), b0, w2)"
    using service_rows [OF assms(1) new] by blast
  let ?s = "\<lparr>pd_world = w1, pd_clog = ''''\<rparr>"
  have c: "BaseCore_new (daemon_env m cfg reopen) (dl_fails m) (dl_postfix m) (dl_now m) (dl_junk m) ?s = (Ok (), b0)"
    and w2: "w2 = pd_world (b_db b0)"
    using core by (auto simp: new_basecore_def split: prod.splits)
  have "only_removes ?api ?db ?s (b_db b0)" using parent.start_le [OF act c] by simp
  then have "rows w2 \<subseteq> rows w1"
    using removals_rows [OF _ del assms(3)] typed by (simp add: only_removes_def w2)
  moreover have "only_removes ?api ?db (b_db b) (b_db b')" using parent.rounds_le [OF act assms(6)] by simp
  then have "rows (pd_world (b_db b')) \<subseteq> rows w'"
    using removals_rows [OF _ del assms(3)] typed by (simp add: only_removes_def b)
  ultimately show ?thesis using main rows by auto
qed

section \<open>Witness\<close>

text \<open>A machine without a configuration file, whose database holds two blocks; the world is their list.\<close>

definition sample_block_files :: "string list file_api" where
  "sample_block_files =
     \<lparr>p_elems = (\<lambda>p. [p]), p_append = (@), p_parent = (\<lambda>p. None), f_uid = 0, f_gid = 0,
      f_exists = (\<lambda>w p. Ok True), f_is_regular = (\<lambda>w p. Ok False), f_is_directory = (\<lambda>w p. Ok False),
      f_stat = (\<lambda>w p. None), f_create_directories = (\<lambda>w p. (Ok True, w)),
      f_open_create = (\<lambda>w p. (True, w)), f_unlink = (\<lambda>w p. w), f_read = (\<lambda>w p. None)\<rparr>"

definition sample_block_db :: "string list db_api" where
  "sample_block_db =
     \<lparr>db_files = sample_block_files, d_open = (\<lambda>w p. 3), d_size = (\<lambda>w p. 0), d_read = (\<lambda>w p. ''''),
      d_list = (\<lambda>w p. None), d_connect = (\<lambda>p f w. (None, w)), d_statement = (\<lambda>q w. (None, w)),
      d_begin = (\<lambda>w. (None, w)), d_commit = (\<lambda>w. (None, w)), d_behind = [CHR 0x00]\<rparr>"

definition sample_block_os :: "string list os_api" where
  "sample_block_os =
     \<lparr>o_getppid = (\<lambda>w. 1), o_signal = (\<lambda>s h w. w), o_fork = (\<lambda>w. (0, w)), o_getuid = (\<lambda>w. 1), o_geteuid = (\<lambda>w. 1),
      o_getpwnam = (\<lambda>w n. None), o_setuid = (\<lambda>u w. (0, w)), o_setgid = (\<lambda>g w. (0, w)), o_stat = (\<lambda>w f. - 1),
      o_remove = (\<lambda>f w. w), o_create = (\<lambda>f w. (3, w)), o_umask = (\<lambda>m w. w), o_setsid = (\<lambda>w. (42, w)),
      o_chdir = (\<lambda>d w. (0, w)), o_freopen = (\<lambda>m f w. (True, w)), o_kill = (\<lambda>p s w. w), o_getpid = (\<lambda>w. 42),
      o_write = (\<lambda>fd t w. (0, w)), o_close = (\<lambda>fd w. w), o_processes = (\<lambda>w. None), o_alarm = (\<lambda>n w. w),
      o_pause = (\<lambda>w. (''SIGUSR1'', w))\<rparr>"

definition sample_daemon :: "(string list, xml, xml) daemon_libs" where
  "sample_daemon =
     \<lparr>dl_machine =
        \<lparr>m_libs =
           \<lparr>lib_files = sample_block_files, time_match = reference_time_match, regex_replace = (\<lambda>p s r. s),
            strptime_hms = (\<lambda>s tm. tm), xml_load = (\<lambda>w p. Inl ('''', 0, 0)), xml_root = (\<lambda>d t. None),
            xml_child = (\<lambda>e t. None), xml_text = content, xml_attribute = (\<lambda>e a. None)\<rparr>,
         m_db = sample_block_db, m_os = sample_block_os, m_argv0 = ''./worker'', m_progname = ''worker''\<rparr>,
      dl_front =
        \<lparr>fa_signal = (\<lambda>s h w. w), fa_sigaction = (\<lambda>s h w. w), fa_init = (\<lambda>w. w), fa_umask = (\<lambda>m w. (18, w)),
         fa_open_socket = (\<lambda>p n w. (4, w)), fa_create_thread = (\<lambda>i w. (0, w))\<rparr>,
      dl_parent =
        \<lparr>pa_cfg = no_config, pa_tid = ''1'', pa_find = (\<lambda>u d q w. None), pa_docs = (\<lambda>q w. Inr []),
         pa_strtod = (\<lambda>t. None), pa_lower = id, pa_lexical_int = (\<lambda>t. None), pa_float = id, pa_minify = id,
         pa_printf = (\<lambda>n fmt args. if list_all2 arg_fits (conversions fmt) args then Ok [] else Fault ArgumentType),
         pa_select = (\<lambda>sql w. (False, None)), pa_statement = (\<lambda>sql w. (None, tl w)), pa_free = (\<lambda>w. None)\<rparr>,
      dl_env =
        \<lparr>be_cfg = no_config, be_reopen = False, be_act = (\<lambda>a s. (Ok (), s)), be_push = ref_push,
         be_show_time = (\<lambda>_. ''''), be_show_double = (\<lambda>_. ''''), be_build = ''''\<rparr>,
      dl_fails = (\<lambda>n c. None), dl_postfix = ''p'', dl_now = 0, dl_junk = False\<rparr>"

definition sample_file_config :: config where
  "sample_file_config = no_config\<lparr>dbpath := ''/tmp/blocks''\<rparr>"

lemma sample_main:
  "\<exists>cfg. worker_main (dl_machine sample_daemon) []
     (sample_file_config, \<lparr>request_processed = 0, last_time_request_processed = 0\<rparr>, ws) = Serves (cfg, True, ws)"
  by (simp add: worker_main_def sample_daemon_def sample_file_config_def sample_block_os_def sample_block_files_def sample_block_db_def
      Config_LoadConfig_def Config_Load_def getConfigDir_def default_options_def main_serve_def Server_new_def
      DataBase_openDb_def DataBase_getSqlFile_def read_block_def already_there_def fileExists_def
      open_with_pragmas_def pragmas_def db_reopen_def lbind_def Let_def)

lemma sample_front_keeps: "front_keeps rows (dl_front sample_daemon)"
  by (simp add: front_keeps_def sample_daemon_def)

lemma sample_deletes: "deletes_rows set (dl_parent sample_daemon)"
proof -
  have "set (tl w) \<subseteq> set w" for w :: "string list" by (cases w) auto
  then show ?thesis by (simp add: deletes_rows_def sample_daemon_def)
qed

lemma sample_index: "index_keeps set (m_db (dl_machine sample_daemon))"
  by (simp add: index_keeps_def sample_daemon_def sample_block_db_def DataBase_indexRebuild_def)

lemma sample_typed: "typed_printf (pa_printf (dl_parent sample_daemon))"
  by (simp add: typed_printf_def sample_daemon_def)

lemma sample_threads: "create_threads (dl_front sample_daemon) i n w = (True, w)"
  by (induction n arbitrary: i) (simp_all add: sample_daemon_def)

theorem daemon_stores_no_block_witness:
  "\<exists>cfg b b'.
     daemon_start sample_daemon [] (sample_file_config, \<lparr>request_processed = 0, last_time_request_processed = 0\<rparr>, [''a'', ''b'']) =
       Serves (cfg, True, 4, b) \<and>
     run_rounds (daemon_env sample_daemon cfg True) int
       (\<lambda>n. ([Inr \<lparr>m_count = 0, m_key = ''informer.delete'', m_body = ''a''\<rparr>], [])) 1 b = (Ok (), b') \<and>
     set (pd_world (b_db b')) \<subseteq> {''a'', ''b''}"
proof -
  let ?st = "(sample_file_config, \<lparr>request_processed = 0, last_time_request_processed = 0\<rparr>, [''a'', ''b''])"
  let ?m = "\<lparr>m_count = 0, m_key = ''informer.delete'', m_body = ''a''\<rparr>"
  obtain cfg where main: "worker_main (dl_machine sample_daemon) [] ?st = Serves (cfg, True, [''a'', ''b''])"
    using sample_main by blast
  have "\<exists>b. new_basecore sample_daemon cfg True w = (Ok (), b, w) \<and> b_mq_informer b = Some [] \<and> b_mq_account b = Some []
      \<and> pd_world (b_db b) = w" for w
    by (simp add: new_basecore_def BaseCore_new_def BaseCore_LoadAllEntities_def BaseCore_InitMessageQueue_def
        init_calls_def queue_names_def daemon_env_def sample_daemon_def)
  then obtain b0 where b0: "new_basecore sample_daemon cfg True [''a'', ''b''] = (Ok (), b0, [''a'', ''b''])"
    "b_mq_informer b0 = Some []" "b_mq_account b0 = Some []" by blast
  have front: "fa_signal (dl_front sample_daemon) s h w = w" "fa_sigaction (dl_front sample_daemon) s h w = w"
    "fa_init (dl_front sample_daemon) w = w" "fa_umask (dl_front sample_daemon) u w = (18, w)"
    "fa_open_socket (dl_front sample_daemon) p k w = (4, w)" for s h w u p k
    by (simp_all add: sample_daemon_def)
  let ?b = "b0\<lparr>b_db := (b_db b0)\<lparr>pd_world := [''a'', ''b'']\<rparr>\<rparr>"
  have start: "daemon_start sample_daemon [] ?st = Serves (cfg, True, 4, ?b)"
    by (simp add: daemon_start_def main CgiService_new_def front b0 sample_threads)
  have act: "be_act (daemon_env sample_daemon cfg True) (RemoveGuid ''a'') s = (Ok (), s\<lparr>pd_world := tl (pd_world s)\<rparr>)" for s
  proof -
    have "conversions delete_format = [''s'']" by code_simp
    then show ?thesis
      by (simp add: daemon_env_def parent_act_def InformerRemove_def sample_daemon_def run_statement_def finish_statement_def)
  qed
  then obtain b' where rounds: "run_rounds (daemon_env sample_daemon cfg True) int (\<lambda>n. ([Inr ?m], [])) 1 ?b = (Ok (), b')"
    by (simp add: deliver_def BaseCore_ProcessMQ_def mq_poll_def b0 mq_loop.simps [of "daemon_env sample_daemon cfg True"]
        informer_action_def no_message_def MAXCOUNT_def)
  from daemon_stores_no_block [OF sample_front_keeps sample_deletes sample_index sample_typed start rounds] main start rounds
  show ?thesis by auto
qed

end
