(* ===== verification/CpuStat.thy ===== *)
theory CpuStat
  imports Prelude
begin

text \<open>
  \<^verbatim>\<open>include/CpuStat.h\<close>, \<^verbatim>\<open>src/CpuStat.cpp\<close>: the processor time of
  the worker, read from \<^verbatim>\<open>/proc\<close>. A file that is scanned is a parameter: it cannot
  be opened, it ends before the first value, or it gives the first values of the format. Quotients
  of doubles are the exact rationals, \<open>None\<close> where the divisor is zero (an infinity or not
  a number).
\<close>

record meterage =
  utime_ticks :: u64
  cutime_ticks :: u64
  stime_ticks :: u64
  cstime_ticks :: u64
  vsize :: u64
  rss :: u64
  cpu_total_time :: u64

datatype scanned = No_file | End_of_file | Values "u64 list"

definition no_usage :: meterage where
  "no_usage =
     \<lparr>utime_ticks = 0, cutime_ticks = 0, stime_ticks = 0, cstime_ticks = 0, vsize = 0, rss = 0,
      cpu_total_time = 0\<rparr>"

text \<open>The value at an index, or what the variable held.\<close>

definition scanned_at :: "u64 list \<Rightarrow> nat \<Rightarrow> u64 \<Rightarrow> u64" where
  "scanned_at vs i old = (if i < length vs then vs ! i else old)"

text \<open>
  The structure is \<open>None\<close> while it has not been written. The local \<^verbatim>\<open>rss\<close>
  has no value unless the sixth number was read. Closing the stream that could not be opened is a
  use of the null pointer.
\<close>

definition CpuStat_getUsage ::
  "scanned \<Rightarrow> scanned \<Rightarrow> u64 \<Rightarrow> meterage option \<Rightarrow> (bool \<times> meterage option) outcome" where
  "CpuStat_getUsage own machine pagesize m =
    (case own of
       No_file \<Rightarrow> Ok (False, m)
     | _ \<Rightarrow>
         (case machine of
            No_file \<Rightarrow> Fault NullDeref
          | _ \<Rightarrow>
              (case own of
                 Values vs \<Rightarrow>
                   if length vs < 6 then Fault Uninitialised
                   else
                     (let m1 = no_usage\<lparr>utime_ticks := scanned_at vs 0 0, stime_ticks := scanned_at vs 1 0,
                           cutime_ticks := scanned_at vs 2 0, cstime_ticks := scanned_at vs 3 0,
                           vsize := scanned_at vs 4 0, rss := scanned_at vs 5 0 * pagesize\<rparr> in
                      (case machine of
                         Values ts \<Rightarrow>
                           Ok (True, Some (m1\<lparr>cpu_total_time := sum_list (map (\<lambda>i. scanned_at ts i 0) [0..<10])\<rparr>))
                       | _ \<Rightarrow> Ok (False, Some m1)))
               | _ \<Rightarrow> Ok (False, Some no_usage))))"

record cpu_stat =
  cpu_user :: "rat option"
  cpu_sys :: "rat option"
  cpu_rss :: u64
  last_usage :: "meterage option"

definition CpuStat_new :: "scanned \<Rightarrow> scanned \<Rightarrow> u64 \<Rightarrow> cpu_stat outcome" where
  "CpuStat_new own machine pagesize =
     obind (CpuStat_getUsage own machine pagesize None)
       (\<lambda>(ok, m). Ok \<lparr>cpu_user = Some 0, cpu_sys = Some 0, cpu_rss = 0, last_usage = m\<rparr>)"

definition per_mille :: "u64 \<Rightarrow> u64 \<Rightarrow> rat option" where
  "per_mille ticks whole =
     (if whole = 0 then None else Some (1000 * (of_nat (unat ticks) / of_nat (unat whole))))"

definition CpuStat_cpuUsage :: "scanned \<Rightarrow> scanned \<Rightarrow> u64 \<Rightarrow> cpu_stat \<Rightarrow> cpu_stat outcome" where
  "CpuStat_cpuUsage own machine pagesize st =
    obind (CpuStat_getUsage own machine pagesize None) (\<lambda>(ok, cur_usage).
      (case (cur_usage, last_usage st) of
         (Some cur, Some old) \<Rightarrow>
           (let whole = cpu_total_time cur - cpu_total_time old in
            Ok \<lparr>cpu_user = per_mille ((utime_ticks cur + cutime_ticks cur) - (utime_ticks old + cutime_ticks old)) whole,
                cpu_sys = per_mille ((stime_ticks cur + cstime_ticks cur) - (stime_ticks old + cstime_ticks old)) whole,
                cpu_rss = rss cur, last_usage = Some cur\<rparr>)
       | _ \<Rightarrow> Fault Uninitialised))"

text \<open>\<^verbatim>\<open>freeMem\<close>: \<open>None\<close> if \<^verbatim>\<open>sysinfo\<close> fails.\<close>

definition CpuStat_freeMem :: "(u64 \<times> u64) option \<Rightarrow> u32 outcome" where
  "CpuStat_freeMem info =
    (case info of
       None \<Rightarrow> Ok (- 1)
     | Some (freeram, totalram) \<Rightarrow>
         if totalram = 0 then Fault DivisionByZero else Ok (ucast (freeram * 100 div totalram)))"

section \<open>Lemmas\<close>

definition ticks_grow :: "u64 \<Rightarrow> u64 \<Rightarrow> u64 \<Rightarrow> u64 \<Rightarrow> bool" where
  "ticks_grow a b a' b' \<longleftrightarrow>
     unat a \<le> unat a' \<and> unat b \<le> unat b' \<and> unat a' + unat b' < 2 ^ 64"

lemma ticks_diff:
  assumes "ticks_grow a b a' b'"
  shows "unat ((a' + b') - (a + b)) = (unat a' - unat a) + (unat b' - unat b)"
proof -
  have s: "unat (a' + b') = unat a' + unat b'" "unat (a + b) = unat a + unat b"
    using assms by (simp_all add: ticks_grow_def unat_word_ariths)
  have "a + b \<le> a' + b'" using assms by (simp add: word_le_nat_alt s ticks_grow_def)
  then show ?thesis using assms by (simp add: unat_sub s ticks_grow_def)
qed

section \<open>Properties\<close>


definition sample_stat :: cpu_stat where
  "sample_stat = \<lparr>cpu_user = Some 0, cpu_sys = Some 0, cpu_rss = 0, last_usage = Some no_usage\<rparr>"


end
